theory Spec2Isabelle
  imports Complex_Main
begin

section \<open>Data model\<close>

text \<open>
  The sample points are the rows of the data frame \<open>datos\<close>. The column \<open>Cultivo\<close>
  holds one of the three crop names the program knows.
  Python floats are modelled as real numbers: there is no rounding, and NaN is not a number
  but a separate outcome (see \<open>error\<close> below).
\<close>

datatype cultivo = Maiz | Tomate | Chile

text \<open>
  The program never says of which type the column \<open>Cultivo\<close> is, and pandas treats two
  kinds of column differently where the program counts the crops: a column of strings, as
  \<open>crear_datos_ejemplo\<close> builds it, and a categorical column, which is declared with the
  list of its categories. A data frame is given to the scoring functions as the type of its
  column \<open>Cultivo\<close> together with the list of its rows.
\<close>

datatype tipo_columna = Texto | Categorica "cultivo list"

record punto =
  Humedad :: real
  Cultivo :: cultivo
  Elevacion :: real
  Salinidad :: real
  Temperatura :: real
  Latitud :: real
  Longitud :: real

text \<open>
  The ways a computation of the program ends without a real number. The first five are the
  exceptions the program can raise; none of them is raised by a \<open>raise\<close> statement of the
  program: each comes from the built-in or library operation that cannot go on.
  \<open>ResultadoNaN\<close> is no exception: nothing is raised, and the value the computation returns
  is NaN.
\<close>

datatype error =
    ZeroDivisionError
  | ValueError
  | KeyError cultivo
  | IndexError
  | OverflowError
  | ResultadoNaN

text \<open>A sensor is a pair \<open>[lat, lon]\<close>.\<close>

type_synonym sensor = "real \<times> real"

subsection \<open>config.py\<close>

record pesos =
  cobertura :: real
  balance_cultivos :: real
  zonas_criticas :: real
  distribucion :: real

record config =
  radio_cobertura :: real
  radio_influencia :: real
  distancia_ideal :: real
  pesos :: pesos

definition CONFIG :: config where
  "CONFIG = \<lparr> radio_cobertura = 12 / 1000,
              radio_influencia = 18 / 1000,
              distancia_ideal = 25 / 1000,
              pesos = \<lparr> cobertura = 35 / 100,
                        balance_cultivos = 25 / 100,
                        zonas_criticas = 25 / 100,
                        distribucion = 15 / 100 \<rparr> \<rparr>"

record pso_config =
  inercia :: real
  cognitivo :: real
  social :: real
  velocidad_maxima :: real

definition PSO_CONFIG :: pso_config where
  "PSO_CONFIG = \<lparr> inercia = 7 / 10, cognitivo = 15 / 10, social = 15 / 10,
                  velocidad_maxima = 5 / 1000 \<rparr>"

section \<open>funciones_objetivo.py\<close>

text \<open>Python's \<open>/\<close> on Python numbers: division by zero raises.\<close>

definition py_div :: "real \<Rightarrow> real \<Rightarrow> error + real" where
  "py_div a b = (if b = 0 then Inl ZeroDivisionError else Inr (a / b))"

text \<open>
  \<open>/\<close> when one of the operands is a numpy number, as the counts that \<open>value_counts\<close>
  returns are: division by zero does not raise, it gives NaN with a warning (\<open>0 / 0\<close>; a
  dividend other than 0 would give an infinity, which does not happen in the program, where a
  dividend is a count of some of the rows that the divisor counts). A float that may be NaN
  is a \<open>real option\<close>, \<open>None\<close> being NaN.
\<close>

definition np_div :: "real \<Rightarrow> real \<Rightarrow> real option" where
  "np_div a b = (if b = 0 then None else Some (a / b))"

text \<open>
  Arithmetic with a NaN operand gives NaN. So does \<open>min(x, 1.0)\<close> when \<open>x\<close> is NaN: Python's
  \<open>min\<close> keeps its first argument unless a later one is smaller, and no comparison with NaN
  holds.
\<close>

definition con_nan :: "(real \<Rightarrow> real \<Rightarrow> real) \<Rightarrow> real option \<Rightarrow> real option \<Rightarrow> real option" where
  "con_nan f x y =
     (case x of None \<Rightarrow> None | Some a \<Rightarrow> (case y of None \<Rightarrow> None | Some b \<Rightarrow> Some (f a b)))"

text \<open>Python's \<open>min\<close> of a list: the empty list raises ValueError.\<close>

fun py_min :: "real list \<Rightarrow> error + real" where
  "py_min [] = Inl ValueError"
| "py_min (x # xs) = Inr (fold min xs x)"

definition calcular_distancia :: "sensor \<Rightarrow> sensor \<Rightarrow> real" where
  "calcular_distancia punto1 punto2 =
     sqrt ((fst punto1 - fst punto2)\<^sup>2 + (snd punto1 - snd punto2)\<^sup>2)"

definition punto_coords :: "punto \<Rightarrow> sensor" where
  "punto_coords p = (Latitud p, Longitud p)"

subsection \<open>calcular_cobertura_variabilidad\<close>

text \<open>
  The body of the loop over the rows: the credit added to \<open>puntaje\<close> for a point whose
  nearest sensor is at distance \<open>dist_minima\<close>.
\<close>

definition credito_cobertura :: "real \<Rightarrow> real" where
  "credito_cobertura dist_minima =
     (let radio = radio_cobertura CONFIG in
      if dist_minima \<le> radio then 1
      else max 0 (1 - (dist_minima - radio) / (2 * radio)))"

fun cobertura_bucle :: "sensor list \<Rightarrow> punto list \<Rightarrow> real \<Rightarrow> error + real" where
  "cobertura_bucle ubicaciones_sensores [] puntaje = Inr puntaje"
| "cobertura_bucle ubicaciones_sensores (p # ps) puntaje =
     (case py_min (map (calcular_distancia (punto_coords p)) ubicaciones_sensores) of
        Inl e \<Rightarrow> Inl e
      | Inr dist_minima \<Rightarrow>
          cobertura_bucle ubicaciones_sensores ps (puntaje + credito_cobertura dist_minima))"

definition calcular_cobertura_variabilidad :: "sensor list \<Rightarrow> punto list \<Rightarrow> error + real" where
  "calcular_cobertura_variabilidad ubicaciones_sensores datos =
     (case cobertura_bucle ubicaciones_sensores datos 0 of
        Inl e \<Rightarrow> Inl e
      | Inr puntaje \<Rightarrow> py_div puntaje (real (length datos)))"

subsection \<open>balance_entre_cultivos\<close>

text \<open>
  \<open>value_counts\<close> of the column \<open>Cultivo\<close>: a series of counts indexed by crops. Of a column
  of strings it has the crops that occur, so a crop with no row is not a key of it, and
  reading it raises KeyError. Of a categorical column it has every category, with the count
  0 for a category with no row; a crop that is not a category is not a key either.
\<close>

definition value_counts :: "tipo_columna \<Rightarrow> punto list \<Rightarrow> cultivo \<rightharpoonup> nat" where
  "value_counts tc datos c =
     (let n = length (filter (\<lambda>p. Cultivo p = c) datos) in
      if n \<noteq> 0 then Some n
      else case tc of
             Texto \<Rightarrow> None
           | Categorica categorias \<Rightarrow> if c \<in> set categorias then Some 0 else None)"

definition cubierto :: "real \<Rightarrow> sensor list \<Rightarrow> punto \<Rightarrow> bool" where
  "cubierto radio ubicaciones_sensores p =
     list_ex (\<lambda>s. calcular_distancia (punto_coords p) s \<le> radio) ubicaciones_sensores"

text \<open>The first loop: the number of covered points of each crop.\<close>

definition conteo_cubierto :: "sensor list \<Rightarrow> punto list \<Rightarrow> cultivo \<Rightarrow> nat" where
  "conteo_cubierto ubicaciones_sensores datos c =
     length (filter (cubierto (radio_influencia CONFIG) ubicaciones_sensores)
               (filter (\<lambda>p. Cultivo p = c) datos))"

text \<open>
  The second loop, over the keys of \<open>conteo_cubierto\<close> in insertion order. Reading
  \<open>conteo_total[cultivo]\<close> raises KeyError when the crop is not a key; nothing else in the
  loop raises. Both divisions have a numpy count as an operand, so a count of 0 makes
  \<open>cobertura_real\<close> NaN, and with it the score of the crop and the sum.
\<close>

fun balance_bucle ::
  "tipo_columna \<Rightarrow> sensor list \<Rightarrow> punto list \<Rightarrow> cultivo list \<Rightarrow> real option
     \<Rightarrow> error + real option" where
  "balance_bucle tc ubicaciones_sensores datos [] puntaje_balance = Inr puntaje_balance"
| "balance_bucle tc ubicaciones_sensores datos (c # cs) puntaje_balance =
     (case value_counts tc datos c of
        None \<Rightarrow> Inl (KeyError c)
      | Some conteo \<Rightarrow>
          let proporcion_ideal = np_div (real conteo) (real (length datos));
              cobertura_real =
                np_div (real (conteo_cubierto ubicaciones_sensores datos c)) (real conteo);
              puntaje_cultivo =
                con_nan (\<lambda>ideal cob. min (1 - \<bar>ideal - cob\<bar>) 1) proporcion_ideal cobertura_real
          in balance_bucle tc ubicaciones_sensores datos cs
               (con_nan (+) puntaje_balance puntaje_cultivo))"

text \<open>\<open>return puntaje_balance / len(conteo_cubierto)\<close>: a NaN sum is returned as NaN.\<close>

definition balance_entre_cultivos ::
  "tipo_columna \<Rightarrow> sensor list \<Rightarrow> punto list \<Rightarrow> error + real" where
  "balance_entre_cultivos tc ubicaciones_sensores datos =
     (case balance_bucle tc ubicaciones_sensores datos [Maiz, Tomate, Chile] (Some 0) of
        Inl e \<Rightarrow> Inl e
      | Inr None \<Rightarrow> Inl ResultadoNaN
      | Inr (Some puntaje_balance) \<Rightarrow> py_div puntaje_balance 3)"

subsection \<open>cubrir_zonas_problematicas\<close>

definition es_critica :: "punto \<Rightarrow> bool" where
  "es_critica p \<longleftrightarrow> Salinidad p > 25 / 10 \<or> Humedad p < 15 \<or> Humedad p > 40"

definition cubrir_zonas_problematicas :: "sensor list \<Rightarrow> punto list \<Rightarrow> error + real" where
  "cubrir_zonas_problematicas ubicaciones_sensores datos =
     (let criticas = filter es_critica datos in
      if length criticas = 0 then Inr 1
      else py_div (real (length (filter (cubierto (1 / 100) ubicaciones_sensores) criticas)))
                  (real (length criticas)))"

subsection \<open>optimizar_distancias\<close>

definition distancias_pares :: "sensor list \<Rightarrow> real list" where
  "distancias_pares ubicaciones_sensores =
     concat (map (\<lambda>i. map (\<lambda>j. calcular_distancia (ubicaciones_sensores ! i)
                                                   (ubicaciones_sensores ! j))
                         [i + 1 ..< length ubicaciones_sensores])
                 [0 ..< length ubicaciones_sensores])"

definition credito_distancia :: "real \<Rightarrow> real" where
  "credito_distancia d =
     (let dist_ideal = distancia_ideal CONFIG in
      if d \<ge> dist_ideal * (7 / 10) \<and> d \<le> dist_ideal * (13 / 10) then 1
      else max 0 (1 - \<bar>d - dist_ideal\<bar> / dist_ideal))"

definition optimizar_distancias :: "sensor list \<Rightarrow> error + real" where
  "optimizar_distancias ubicaciones_sensores =
     (if length ubicaciones_sensores \<le> 1 then Inr 1
      else
        let distancias = distancias_pares ubicaciones_sensores;
            puntaje_dispersion = foldl (\<lambda>acc d. acc + credito_distancia d) 0 distancias
        in py_div puntaje_dispersion (real (length distancias)))"

subsection \<open>funcion_objetivo\<close>

definition puntaje_total :: "real \<Rightarrow> real \<Rightarrow> real \<Rightarrow> real \<Rightarrow> real" where
  "puntaje_total puntaje_cobertura puntaje_cultivos puntaje_criticas puntaje_distribucion =
     cobertura (pesos CONFIG) * puntaje_cobertura
     + balance_cultivos (pesos CONFIG) * puntaje_cultivos
     + zonas_criticas (pesos CONFIG) * puntaje_criticas
     + distribucion (pesos CONFIG) * puntaje_distribucion"

text \<open>
  The four sub-scores are computed in this order. When the crop balance is NaN the total is
  NaN: the two sub-scores computed after it never raise (lemmas \<open>criticas_rango\<close> and
  \<open>distribucion_rango\<close> below), and a sum with a NaN term is NaN.
\<close>

definition funcion_objetivo ::
  "tipo_columna \<Rightarrow> sensor list \<Rightarrow> punto list \<Rightarrow> error + real" where
  "funcion_objetivo tc ubicaciones_sensores datos =
     (case calcular_cobertura_variabilidad ubicaciones_sensores datos of
        Inl e \<Rightarrow> Inl e
      | Inr puntaje_cobertura \<Rightarrow>
     (case balance_entre_cultivos tc ubicaciones_sensores datos of
        Inl e \<Rightarrow> Inl e
      | Inr puntaje_cultivos \<Rightarrow>
     (case cubrir_zonas_problematicas ubicaciones_sensores datos of
        Inl e \<Rightarrow> Inl e
      | Inr puntaje_criticas \<Rightarrow>
     (case optimizar_distancias ubicaciones_sensores of
        Inl e \<Rightarrow> Inl e
      | Inr puntaje_distribucion \<Rightarrow>
          Inr (puntaje_total puntaje_cobertura puntaje_cultivos puntaje_criticas
                 puntaje_distribucion)))))"

section \<open>algoritmo_pso.py\<close>

text \<open>
  The swarm is a Python list of numpy arrays. An array is an object: two list entries can hold
  the same array, and an in-place operation (\<open>+=\<close>, item assignment) on it is seen through
  both. The arrays therefore live in a store, \<open>memoria\<close>, and the lists \<open>particulas\<close> and
  \<open>mejores_locales\<close> hold positions of that store. \<open>copy()\<close> of an array appends a new array
  to the store; \<open>copy()\<close> of a list copies the list of positions and no array.
  \<open>velocidades[i]\<close> and \<open>mejor_global\<close> are only ever rebound to a freshly built array and
  never changed in place, so they are kept as values.

  The module-wide generator \<open>np.random\<close> is the sequence \<open>azar\<close> of the samples of
  \<open>[0, 1)\<close> that it will hand out, and \<open>cursor\<close> counts the samples taken so far.

  The optimizer is modelled on a data frame whose column \<open>Cultivo\<close> is a column of strings,
  as \<open>crear_datos_ejemplo\<close> and \<open>main.py\<close> hand it over: its scores are real numbers. (On a
  categorical column the scores are the same when every category has a row; when one has
  none they are NaN, which the lists of scores of this model cannot hold.)
\<close>

record pso =
  datos :: "punto list"
  n_sensores :: int
  n_particulas :: int
  max_iter :: int
  lat_min :: real
  lat_max :: real
  lon_min :: real
  lon_max :: real
  w :: real
  c1 :: real
  c2 :: real
  vel_max :: real
  memoria :: "real list list"
  particulas :: "nat list"
  velocidades :: "real list list"
  mejores_locales :: "nat list"
  mejores_puntajes_locales :: "real list"
  mejor_global :: "real list"
  mejor_puntaje_global :: real
  historial_puntajes :: "real list"
  azar :: "nat \<Rightarrow> real"
  cursor :: nat

subsection \<open>numpy and pandas operations\<close>

text \<open>
  \<open>min()\<close> and \<open>max()\<close> of a non-empty column. (Of an empty column they are NaN: see
  \<open>_inicializar_particulas\<close> below.)
\<close>

definition serie_min :: "real list \<Rightarrow> real" where
  "serie_min xs = fold min (tl xs) (hd xs)"

definition serie_max :: "real list \<Rightarrow> real" where
  "serie_max xs = fold max (tl xs) (hd xs)"

text \<open>\<open>np.random.uniform(low, high)\<close> from the sample \<open>u\<close> of \<open>[0, 1)\<close>.\<close>

definition np_uniform :: "real \<Rightarrow> real \<Rightarrow> real \<Rightarrow> real" where
  "np_uniform low high u = low + (high - low) * u"

text \<open>\<open>np.random.uniform(low, high, size)\<close>: a negative size raises ValueError.\<close>

definition np_uniform_vector ::
  "real \<Rightarrow> real \<Rightarrow> (nat \<Rightarrow> real) \<Rightarrow> nat \<Rightarrow> int \<Rightarrow> error + real list" where
  "np_uniform_vector low high az c tam =
     (if tam < 0 then Inl ValueError
      else Inr (map (\<lambda>j. np_uniform low high (az (c + j))) [0 ..< nat tam]))"

text \<open>\<open>np.clip(x, a_min, a_max)\<close>.\<close>

definition np_clip :: "real \<Rightarrow> real \<Rightarrow> real \<Rightarrow> real" where
  "np_clip x a_min a_max = min (max x a_min) a_max"

text \<open>\<open>np.argmax\<close>: the first position of the largest entry; ValueError on an empty list.\<close>

fun argmax_bucle :: "real list \<Rightarrow> nat \<Rightarrow> nat \<Rightarrow> real \<Rightarrow> nat" where
  "argmax_bucle [] i mejor_i mejor = mejor_i"
| "argmax_bucle (x # xs) i mejor_i mejor =
     (if x > mejor then argmax_bucle xs (Suc i) i x else argmax_bucle xs (Suc i) mejor_i mejor)"

fun np_argmax :: "real list \<Rightarrow> error + nat" where
  "np_argmax [] = Inl ValueError"
| "np_argmax (x # xs) = Inr (argmax_bucle xs 1 0 x)"

subsection \<open>_formatear_sensores and _evaluar_particula\<close>

text \<open>
  \<open>[particula[i:i+2].tolist() for i in range(0, len(particula), 2)]\<close>: the slices start at
  \<open>0, 2, 4, ...\<close>, and the last one has a single entry when the length is odd.
\<close>

definition formatear_sensores :: "real list \<Rightarrow> real list list" where
  "formatear_sensores particula =
     map (\<lambda>k. take 2 (drop (2 * k) particula)) [0 ..< (length particula + 1) div 2]"

text \<open>
  The objective function reads \<open>sensor[0]\<close> and \<open>sensor[1]\<close> of every sensor. A slice with
  two entries is the pair of them; a slice with one entry makes \<open>sensor[1]\<close> raise IndexError
  at the first distance computed, which is in the coverage loop when there is a row, and is
  never reached when there is none (the coverage mean then divides by zero first).
\<close>

fun a_pares :: "real list list \<Rightarrow> sensor list option" where
  "a_pares [] = Some []"
| "a_pares ([a, b] # resto) =
     (case a_pares resto of None \<Rightarrow> None | Some ss \<Rightarrow> Some ((a, b) # ss))"
| "a_pares (_ # resto) = None"

definition evaluar_particula :: "punto list \<Rightarrow> real list \<Rightarrow> error + real" where
  "evaluar_particula filas particula =
     (case a_pares (formatear_sensores particula) of
        Some sensores \<Rightarrow> funcion_objetivo Texto sensores filas
      | None \<Rightarrow> if filas = [] then Inl ZeroDivisionError else Inl IndexError)"

text \<open>\<open>[self._evaluar_particula(p) for p in self.particulas]\<close>.\<close>

fun evaluar_todas :: "punto list \<Rightarrow> real list list \<Rightarrow> error + real list" where
  "evaluar_todas filas [] = Inr []"
| "evaluar_todas filas (p # ps) =
     (case evaluar_particula filas p of
        Inl e \<Rightarrow> Inl e
      | Inr puntaje \<Rightarrow>
         (case evaluar_todas filas ps of Inl e \<Rightarrow> Inl e | Inr puntajes \<Rightarrow> Inr (puntaje # puntajes)))"

subsection \<open>_inicializar_particulas and _inicializar_velocidades\<close>

text \<open>The inner loop \<open>for _ in range(self.n_sensores)\<close>: two samples for each sensor.\<close>

fun particula_azar :: "pso \<Rightarrow> nat \<Rightarrow> nat \<Rightarrow> real list" where
  "particula_azar s c 0 = []"
| "particula_azar s c (Suc k) =
     np_uniform (lat_min s) (lat_max s) (azar s c)
     # np_uniform (lon_min s) (lon_max s) (azar s (c + 1))
     # particula_azar s (c + 2) k"

text \<open>The outer loop \<open>for _ in range(self.n_particulas)\<close>.\<close>

fun particulas_azar :: "pso \<Rightarrow> nat \<Rightarrow> nat \<Rightarrow> real list list" where
  "particulas_azar s c 0 = []"
| "particulas_azar s c (Suc k) =
     particula_azar s c (nat (n_sensores s))
     # particulas_azar s (c + 2 * nat (n_sensores s)) k"

text \<open>
  The bounds are the extrema of the columns \<open>Latitud\<close> and \<open>Longitud\<close>. On a data frame
  without rows they are NaN (the fields \<open>lat_min\<close>, ..., \<open>lon_max\<close> then hold no meaningful
  number), and \<open>np.random.uniform\<close> with a NaN bound raises OverflowError: the range is not
  finite. So the first sample raises, and one is taken as soon as there is a particle and a
  sensor. The bounds are read nowhere else before the swarm exists.
\<close>

definition inicializar_particulas :: "pso \<Rightarrow> error + real list list \<times> pso" where
  "inicializar_particulas s =
     (if datos s = [] \<and> 1 \<le> n_particulas s \<and> 1 \<le> n_sensores s then Inl OverflowError
      else Inr (particulas_azar s (cursor s) (nat (n_particulas s)),
                s\<lparr>cursor := cursor s + 2 * nat (n_sensores s) * nat (n_particulas s)\<rparr>))"

fun velocidades_azar :: "pso \<Rightarrow> nat \<Rightarrow> nat \<Rightarrow> error + real list list" where
  "velocidades_azar s c 0 = Inr []"
| "velocidades_azar s c (Suc k) =
     (case np_uniform_vector (- (1 / 1000)) (1 / 1000) (azar s) c (n_sensores s * 2) of
        Inl e \<Rightarrow> Inl e
      | Inr velocidad \<Rightarrow>
         (case velocidades_azar s (c + nat (n_sensores s * 2)) k of
            Inl e \<Rightarrow> Inl e
          | Inr vs \<Rightarrow> Inr (velocidad # vs)))"

definition inicializar_velocidades :: "pso \<Rightarrow> error + real list list \<times> pso" where
  "inicializar_velocidades s =
     (case velocidades_azar s (cursor s) (nat (n_particulas s)) of
        Inl e \<Rightarrow> Inl e
      | Inr vs \<Rightarrow>
          Inr (vs, s\<lparr>cursor := cursor s + nat (n_sensores s * 2) * nat (n_particulas s)\<rparr>))"

subsection \<open>_inicializar_enjambre\<close>

text \<open>
  \<open>self.mejores_locales = self.particulas.copy()\<close> copies the list: its entries are the very
  arrays of \<open>self.particulas\<close>. \<open>self.particulas[mejor_idx].copy()\<close> copies an array.
\<close>

definition inicializar_enjambre :: "pso \<Rightarrow> error + pso" where
  "inicializar_enjambre s0 =
     (case inicializar_particulas s0 of
        Inl e \<Rightarrow> Inl e
      | Inr (ps, s1) \<Rightarrow>
      let s2 = s1\<lparr>memoria := ps, particulas := [0 ..< length ps]\<rparr> in
      case inicializar_velocidades s2 of
        Inl e \<Rightarrow> Inl e
      | Inr (vs, s3) \<Rightarrow>
          let s4 = s3\<lparr>velocidades := vs, mejores_locales := particulas s3\<rparr> in
          case evaluar_todas (datos s4) (map (\<lambda>a. memoria s4 ! a) (particulas s4)) of
            Inl e \<Rightarrow> Inl e
          | Inr puntajes \<Rightarrow>
              case np_argmax puntajes of
                Inl e \<Rightarrow> Inl e
              | Inr mejor_idx \<Rightarrow>
                  Inr (s4\<lparr>mejores_puntajes_locales := puntajes,
                          mejor_global := memoria s4 ! (particulas s4 ! mejor_idx),
                          mejor_puntaje_global := puntajes ! mejor_idx\<rparr>))"

subsection \<open>__init__\<close>

text \<open>
  The arguments \<open>datos\<close>, \<open>n_sensores\<close>, \<open>n_particulas\<close> and \<open>max_iter\<close> are
  written \<open>filas\<close>, \<open>n\<close>, \<open>m\<close> and \<open>t\<close>, their names being those of the attributes;
  \<open>az\<close> is the state of the generator when the constructor is called.

  The constructor checks nothing: it stores its arguments, reads the extrema of the two
  coordinate columns, and initializes the swarm.
\<close>

definition PSOOptimizer :: "punto list \<Rightarrow> int \<Rightarrow> int \<Rightarrow> int \<Rightarrow> (nat \<Rightarrow> real) \<Rightarrow> error + pso" where
  "PSOOptimizer filas n m t az =
     (case inicializar_enjambre
             \<lparr> datos = filas, n_sensores = n, n_particulas = m, max_iter = t,
               lat_min = serie_min (map Latitud filas), lat_max = serie_max (map Latitud filas),
               lon_min = serie_min (map Longitud filas), lon_max = serie_max (map Longitud filas),
               w = inercia PSO_CONFIG, c1 = cognitivo PSO_CONFIG, c2 = social PSO_CONFIG,
               vel_max = velocidad_maxima PSO_CONFIG,
               memoria = [], particulas = [], velocidades = [], mejores_locales = [],
               mejores_puntajes_locales = [], mejor_global = [], mejor_puntaje_global = 0,
               historial_puntajes = [], azar = az, cursor = 0 \<rparr> of
        Inl e \<Rightarrow> Inl e
      | Inr s \<Rightarrow> Inr (s\<lparr>historial_puntajes := []\<rparr>))"

subsection \<open>_actualizar_mejores_posiciones\<close>

text \<open>The body of the loop, for the particle \<open>i\<close>.\<close>

definition actualizar_mejor :: "nat \<Rightarrow> pso \<Rightarrow> error + pso" where
  "actualizar_mejor i s =
     (case evaluar_particula (datos s) (memoria s ! (particulas s ! i)) of
        Inl e \<Rightarrow> Inl e
      | Inr puntaje_actual \<Rightarrow>
          let s1 = (if puntaje_actual > mejores_puntajes_locales s ! i
                    then s\<lparr>mejores_puntajes_locales :=
                              (mejores_puntajes_locales s)[i := puntaje_actual],
                            mejores_locales := (mejores_locales s)[i := length (memoria s)],
                            memoria := memoria s @ [memoria s ! (particulas s ! i)]\<rparr>
                    else s);
              s2 = (if puntaje_actual > mejor_puntaje_global s1
                    then s1\<lparr>mejor_puntaje_global := puntaje_actual,
                             mejor_global := memoria s1 ! (particulas s1 ! i)\<rparr>
                    else s1)
          in Inr s2)"

fun bucle :: "(nat \<Rightarrow> pso \<Rightarrow> error + pso) \<Rightarrow> nat list \<Rightarrow> pso \<Rightarrow> error + pso" where
  "bucle cuerpo [] s = Inr s"
| "bucle cuerpo (i # resto) s =
     (case cuerpo i s of Inl e \<Rightarrow> Inl e | Inr s1 \<Rightarrow> bucle cuerpo resto s1)"

definition actualizar_mejores_posiciones :: "pso \<Rightarrow> error + pso" where
  "actualizar_mejores_posiciones s = bucle actualizar_mejor [0 ..< nat (n_particulas s)] s"

subsection \<open>_aplicar_restricciones\<close>

text \<open>
  \<open>for j in range(0, len(p), 2)\<close>: \<open>p[j]\<close> is clipped to the latitudes and \<open>p[j+1]\<close> to the
  longitudes; on an array of odd length the last \<open>p[j+1]\<close> raises IndexError.
\<close>

fun restringir :: "pso \<Rightarrow> real list \<Rightarrow> error + real list" where
  "restringir s [] = Inr []"
| "restringir s [lat] = Inl IndexError"
| "restringir s (lat # lon # resto) =
     (case restringir s resto of
        Inl e \<Rightarrow> Inl e
      | Inr r \<Rightarrow> Inr (np_clip lat (lat_min s) (lat_max s)
                      # np_clip lon (lon_min s) (lon_max s) # r))"

definition aplicar_restricciones :: "nat \<Rightarrow> pso \<Rightarrow> error + pso" where
  "aplicar_restricciones indice_particula s =
     (case restringir s (memoria s ! (particulas s ! indice_particula)) of
        Inl e \<Rightarrow> Inl e
      | Inr p \<Rightarrow> Inr (s\<lparr>memoria := (memoria s)[particulas s ! indice_particula := p]\<rparr>))"

subsection \<open>_actualizar_velocidades_posiciones\<close>

text \<open>
  The body of the loop, for the particle \<open>i\<close>. The arithmetic of arrays is entry by entry;
  all the arrays of a swarm have the same length. \<open>self.particulas[i] += ...\<close> changes the
  array in place.
\<close>

definition mover_particula :: "nat \<Rightarrow> pso \<Rightarrow> error + pso" where
  "mover_particula i s =
     (let r1 = azar s (cursor s);
          r2 = azar s (cursor s + 1);
          x = memoria s ! (particulas s ! i);
          v_inercia = map (\<lambda>v. w s * v) (velocidades s ! i);
          v_cognitivo = map (\<lambda>d. c1 s * r1 * d)
                          (map2 (-) (memoria s ! (mejores_locales s ! i)) x);
          v_social = map (\<lambda>d. c2 s * r2 * d) (map2 (-) (mejor_global s) x);
          velocidad = map2 (+) (map2 (+) v_inercia v_cognitivo) v_social;
          velocidad_limitada = map (\<lambda>v. np_clip v (- vel_max s) (vel_max s)) velocidad
      in aplicar_restricciones i
           (s\<lparr>cursor := cursor s + 2,
              velocidades := (velocidades s)[i := velocidad_limitada],
              memoria := (memoria s)[particulas s ! i := map2 (+) x velocidad_limitada]\<rparr>))"

definition actualizar_velocidades_posiciones :: "pso \<Rightarrow> error + pso" where
  "actualizar_velocidades_posiciones s = bucle mover_particula [0 ..< nat (n_particulas s)] s"

subsection \<open>optimizar\<close>

text \<open>One round of the loop \<open>for iteracion in range(self.max_iter)\<close>.\<close>

definition iteracion :: "pso \<Rightarrow> error + pso" where
  "iteracion s =
     (case actualizar_mejores_posiciones s of
        Inl e \<Rightarrow> Inl e
      | Inr s1 \<Rightarrow>
         (case actualizar_velocidades_posiciones s1 of
            Inl e \<Rightarrow> Inl e
          | Inr s2 \<Rightarrow>
              Inr (s2\<lparr>historial_puntajes := historial_puntajes s2 @ [mejor_puntaje_global s2]\<rparr>)))"

fun iterar :: "nat \<Rightarrow> pso \<Rightarrow> error + pso" where
  "iterar 0 s = Inr s"
| "iterar (Suc k) s = (case iteracion s of Inl e \<Rightarrow> Inl e | Inr s1 \<Rightarrow> iterar k s1)"

definition optimizar :: "pso \<Rightarrow> error + (real list list \<times> real) \<times> pso" where
  "optimizar s =
     (case iterar (nat (max_iter s)) s of
        Inl e \<Rightarrow> Inl e
      | Inr s1 \<Rightarrow> Inr ((formatear_sensores (mejor_global s1), mejor_puntaje_global s1), s1))"

section \<open>Notions used to state the properties\<close>

text \<open>The distance from a sample point to its nearest sensor.\<close>

definition dist_minima :: "sensor list \<Rightarrow> punto \<Rightarrow> real" where
  "dist_minima ss p = Min (calcular_distancia (punto_coords p) ` set ss)"

text \<open>
  A crop has a sample point; every crop has one; and the first crop, in the order of the
  balance loop, that has none.
\<close>

definition presente :: "punto list \<Rightarrow> cultivo \<Rightarrow> bool" where
  "presente filas c = list_ex (\<lambda>p. Cultivo p = c) filas"

definition todos_presentes :: "punto list \<Rightarrow> bool" where
  "todos_presentes filas = list_all (presente filas) [Maiz, Tomate, Chile]"

definition primer_ausente :: "punto list \<Rightarrow> cultivo option" where
  "primer_ausente filas = find (\<lambda>c. \<not> presente filas c) [Maiz, Tomate, Chile]"

text \<open>A categorical column whose categories are the three crops.\<close>

definition tres_categorias :: tipo_columna where
  "tres_categorias = Categorica [Maiz, Tomate, Chile]"

subsection \<open>Sample data\<close>

definition datos_ejemplo :: "punto list" where
  "datos_ejemplo =
     [\<lparr> Humedad = 30, Cultivo = Maiz, Elevacion = 20, Salinidad = 1, Temperatura = 25,
         Latitud = 0, Longitud = 0 \<rparr>,
      \<lparr> Humedad = 10, Cultivo = Tomate, Elevacion = 20, Salinidad = 1, Temperatura = 25,
         Latitud = 1, Longitud = 0 \<rparr>,
      \<lparr> Humedad = 30, Cultivo = Chile, Elevacion = 20, Salinidad = 3, Temperatura = 25,
         Latitud = 0, Longitud = 1 \<rparr>]"

definition solo_maiz :: "punto list" where
  "solo_maiz = [\<lparr> Humedad = 30, Cultivo = Maiz, Elevacion = 20, Salinidad = 1, Temperatura = 25,
                  Latitud = 0, Longitud = 0 \<rparr>]"

definition punto_a_dos_radios :: punto where
  "punto_a_dos_radios =
     \<lparr> Humedad = 30, Cultivo = Maiz, Elevacion = 20, Salinidad = 1, Temperatura = 25,
       Latitud = 24 / 1000, Longitud = 0 \<rparr>"

section \<open>Invariants and auxiliary states of the optimizer\<close>

text \<open>
  A flattened position \<open>[lat1, lon1, lat2, lon2, ...]\<close> is within the bounds when every
  latitude lies in \<open>[la, lb]\<close> and every longitude in \<open>[lo, lob]\<close>.
\<close>

fun dentro :: "real \<Rightarrow> real \<Rightarrow> real \<Rightarrow> real \<Rightarrow> real list \<Rightarrow> bool" where
  "dentro la lb lo lob [] = True"
| "dentro la lb lo lob [lat] = (la \<le> lat \<and> lat \<le> lb)"
| "dentro la lb lo lob (lat # lon # resto) =
     (la \<le> lat \<and> lat \<le> lb \<and> lo \<le> lon \<and> lon \<le> lob \<and> dentro la lb lo lob resto)"

definition en_limites :: "pso \<Rightarrow> real list \<Rightarrow> bool" where
  "en_limites s p = dentro (lat_min s) (lat_max s) (lon_min s) (lon_max s) p"

text \<open>The attributes that nothing writes once the swarm exists.\<close>

definition marco :: "pso \<Rightarrow> pso \<Rightarrow> bool" where
  "marco s s' \<longleftrightarrow>
     datos s' = datos s \<and> n_sensores s' = n_sensores s \<and> n_particulas s' = n_particulas s
   \<and> max_iter s' = max_iter s
   \<and> lat_min s' = lat_min s \<and> lat_max s' = lat_max s
   \<and> lon_min s' = lon_min s \<and> lon_max s' = lon_max s
   \<and> w s' = w s \<and> c1 s' = c1 s \<and> c2 s' = c2 s \<and> vel_max s' = vel_max s
   \<and> azar s' = azar s \<and> particulas s' = particulas s"

text \<open>
  The shape of a swarm on which a round cannot raise: the data have a row of every crop,
  there is a sensor, the four lists have one entry for each particle, the positions they
  hold are arrays of the store, and every array has two entries for each sensor.
\<close>

definition bien_formado :: "pso \<Rightarrow> bool" where
  "bien_formado s \<longleftrightarrow>
     datos s \<noteq> [] \<and> (\<forall>c. value_counts Texto (datos s) c \<noteq> None) \<and> 1 \<le> n_sensores s
   \<and> length (particulas s) = nat (n_particulas s)
   \<and> length (velocidades s) = nat (n_particulas s)
   \<and> length (mejores_locales s) = nat (n_particulas s)
   \<and> length (mejores_puntajes_locales s) = nat (n_particulas s)
   \<and> (\<forall>a \<in> set (particulas s). a < length (memoria s))
   \<and> (\<forall>a \<in> set (mejores_locales s). a < length (memoria s))
   \<and> (\<forall>p \<in> set (memoria s). length p = 2 * nat (n_sensores s))
   \<and> (\<forall>v \<in> set (velocidades s). length v = 2 * nat (n_sensores s))
   \<and> length (mejor_global s) = 2 * nat (n_sensores s)"

text \<open>Every array of the store and the global best position are within the bounds.\<close>

definition acotado :: "pso \<Rightarrow> bool" where
  "acotado s \<longleftrightarrow>
     lat_min s \<le> lat_max s \<and> lon_min s \<le> lon_max s
   \<and> (\<forall>p \<in> set (memoria s). en_limites s p) \<and> en_limites s (mejor_global s)"

text \<open>The state after the body of the best-update loop, for the score \<open>v\<close> of particle \<open>i\<close>.\<close>

definition tras_mejor :: "nat \<Rightarrow> real \<Rightarrow> pso \<Rightarrow> pso" where
  "tras_mejor i v s =
     (let s1 = (if v > mejores_puntajes_locales s ! i
                then s\<lparr>mejores_puntajes_locales := (mejores_puntajes_locales s)[i := v],
                        mejores_locales := (mejores_locales s)[i := length (memoria s)],
                        memoria := memoria s @ [memoria s ! (particulas s ! i)]\<rparr>
                else s)
      in (if v > mejor_puntaje_global s1
          then s1\<lparr>mejor_puntaje_global := v, mejor_global := memoria s1 ! (particulas s1 ! i)\<rparr>
          else s1))"

text \<open>The state after the body of the move loop, before the bounds are applied.\<close>

definition tras_velocidad :: "nat \<Rightarrow> pso \<Rightarrow> pso" where
  "tras_velocidad i s =
     (let r1 = azar s (cursor s);
          r2 = azar s (cursor s + 1);
          x = memoria s ! (particulas s ! i);
          v_inercia = map (\<lambda>v. w s * v) (velocidades s ! i);
          v_cognitivo = map (\<lambda>d. c1 s * r1 * d)
                          (map2 (-) (memoria s ! (mejores_locales s ! i)) x);
          v_social = map (\<lambda>d. c2 s * r2 * d) (map2 (-) (mejor_global s) x);
          velocidad = map2 (+) (map2 (+) v_inercia v_cognitivo) v_social;
          velocidad_limitada = map (\<lambda>v. np_clip v (- vel_max s) (vel_max s)) velocidad
      in s\<lparr>cursor := cursor s + 2,
            velocidades := (velocidades s)[i := velocidad_limitada],
            memoria := (memoria s)[particulas s ! i := map2 (+) x velocidad_limitada]\<rparr>)"

text \<open>From \<open>s\<close> to \<open>s'\<close> no best score has gone down.\<close>

definition avanza :: "pso \<Rightarrow> pso \<Rightarrow> bool" where
  "avanza s s' \<longleftrightarrow>
     marco s s'
   \<and> mejor_puntaje_global s \<le> mejor_puntaje_global s'
   \<and> length (mejores_puntajes_locales s') = length (mejores_puntajes_locales s)
   \<and> (\<forall>j < length (mejores_puntajes_locales s).
         mejores_puntajes_locales s ! j \<le> mejores_puntajes_locales s' ! j)"

text \<open>What a step inside a round keeps, and what the move keeps in addition.\<close>

definition paso_ok :: "pso \<Rightarrow> pso \<Rightarrow> bool" where
  "paso_ok s s' \<longleftrightarrow>
     avanza s s' \<and> historial_puntajes s' = historial_puntajes s \<and> (acotado s \<longrightarrow> acotado s')"

definition listo :: "int \<Rightarrow> pso \<Rightarrow> bool" where
  "listo m s \<longleftrightarrow> bien_formado s \<and> n_particulas s = m"

definition quieto :: "pso \<Rightarrow> pso \<Rightarrow> bool" where
  "quieto s s' \<longleftrightarrow>
     paso_ok s s' \<and> mejores_puntajes_locales s' = mejores_puntajes_locales s
   \<and> mejor_puntaje_global s' = mejor_puntaje_global s \<and> mejor_global s' = mejor_global s
   \<and> mejores_locales s' = mejores_locales s"

text \<open>The history is sorted and lies below the global best score.\<close>

definition ordenado :: "pso \<Rightarrow> bool" where
  "ordenado s \<longleftrightarrow>
     sorted (historial_puntajes s)
   \<and> (\<forall>h \<in> set (historial_puntajes s). h \<le> mejor_puntaje_global s)"

text \<open>
  The state that \<open>_inicializar_enjambre\<close> leaves, and the state that \<open>__init__\<close> hands to it.
\<close>

definition enjambre ::
  "pso \<Rightarrow> real list list \<Rightarrow> real list list \<Rightarrow> real list \<Rightarrow> nat \<Rightarrow> pso" where
  "enjambre s ps vs puntajes mejor_idx =
     s\<lparr>cursor := cursor s + 2 * nat (n_sensores s) * nat (n_particulas s)
                  + nat (n_sensores s * 2) * nat (n_particulas s),
       memoria := ps, particulas := [0 ..< length ps], velocidades := vs,
       mejores_locales := [0 ..< length ps], mejores_puntajes_locales := puntajes,
       mejor_global := ps ! ([0 ..< length ps] ! mejor_idx),
       mejor_puntaje_global := puntajes ! mejor_idx\<rparr>"

definition estado_vacio :: "punto list \<Rightarrow> int \<Rightarrow> int \<Rightarrow> int \<Rightarrow> (nat \<Rightarrow> real) \<Rightarrow> pso" where
  "estado_vacio filas n m t az =
     \<lparr> datos = filas, n_sensores = n, n_particulas = m, max_iter = t,
       lat_min = serie_min (map Latitud filas), lat_max = serie_max (map Latitud filas),
       lon_min = serie_min (map Longitud filas), lon_max = serie_max (map Longitud filas),
       w = inercia PSO_CONFIG, c1 = cognitivo PSO_CONFIG, c2 = social PSO_CONFIG,
       vel_max = velocidad_maxima PSO_CONFIG,
       memoria = [], particulas = [], velocidades = [], mejores_locales = [],
       mejores_puntajes_locales = [], mejor_global = [], mejor_puntaje_global = 0,
       historial_puntajes = [], azar = az, cursor = 0 \<rparr>"

text \<open>
  Two generators hand out the same samples from \<open>desde\<close> up to \<open>hasta\<close>; and a result
  with the generator replaced.
\<close>

definition coinciden :: "(nat \<Rightarrow> real) \<Rightarrow> (nat \<Rightarrow> real) \<Rightarrow> nat \<Rightarrow> nat \<Rightarrow> bool" where
  "coinciden az az' desde hasta \<longleftrightarrow> (\<forall>j. desde \<le> j \<and> j < hasta \<longrightarrow> az j = az' j)"

definition con_azar :: "(nat \<Rightarrow> real) \<Rightarrow> error + pso \<Rightarrow> error + pso" where
  "con_azar az' r = (case r of Inl e \<Rightarrow> Inl e | Inr s \<Rightarrow> Inr (s\<lparr>azar := az'\<rparr>))"

text \<open>
  A whole run as \<open>ejecutar_optimizacion_pso\<close> of \<open>main.py\<close> makes it: construct the
  optimizer, call \<open>optimizar\<close>, and read the history off the optimizer. The ambient
  generator is the argument \<open>az\<close>.
\<close>

definition correr ::
  "punto list \<Rightarrow> int \<Rightarrow> int \<Rightarrow> int \<Rightarrow> (nat \<Rightarrow> real)
     \<Rightarrow> error + (real list list \<times> real) \<times> real list" where
  "correr filas n m t az =
     (case PSOOptimizer filas n m t az of
        Inl e \<Rightarrow> Inl e
      | Inr s0 \<Rightarrow>
         (case optimizar s0 of
            Inl e \<Rightarrow> Inl e
          | Inr (resultado, s1) \<Rightarrow> Inr (resultado, historial_puntajes s1)))"

text \<open>
  The positions have just been evaluated: every stored personal best score is the score of
  the particle's present position, and none exceeds the global best score.
\<close>

definition recien_evaluado :: "pso \<Rightarrow> bool" where
  "recien_evaluado s \<longleftrightarrow>
     (\<forall>i < nat (n_particulas s).
        evaluar_particula (datos s) (memoria s ! (particulas s ! i))
          = Inr (mejores_puntajes_locales s ! i)
      \<and> mejores_puntajes_locales s ! i \<le> mejor_puntaje_global s)"

subsection \<open>Sample swarms and generators\<close>

definition az_ejemplo :: "nat \<Rightarrow> real" where
  "az_ejemplo j = 3 / 4"

definition enjambre_ejemplo :: pso where
  "enjambre_ejemplo =
     \<lparr> datos = datos_ejemplo, n_sensores = 1, n_particulas = 1, max_iter = 1,
       lat_min = 0, lat_max = 1, lon_min = 0, lon_max = 1,
       w = 7 / 10, c1 = 3 / 2, c2 = 3 / 2, vel_max = 1 / 200,
       memoria = [[3 / 4, 3 / 4]], particulas = [0],
       velocidades = [[1 / 2000, 1 / 2000]], mejores_locales = [0],
       mejores_puntajes_locales = [19 / 60], mejor_global = [3 / 4, 3 / 4],
       mejor_puntaje_global = 19 / 60, historial_puntajes = [],
       azar = az_ejemplo, cursor = 4 \<rparr>"

definition enjambre_tras_una :: pso where
  "enjambre_tras_una =
     \<lparr> datos = datos_ejemplo, n_sensores = 1, n_particulas = 1, max_iter = 1,
       lat_min = 0, lat_max = 1, lon_min = 0, lon_max = 1,
       w = 7 / 10, c1 = 3 / 2, c2 = 3 / 2, vel_max = 1 / 200,
       memoria = [[15007 / 20000, 15007 / 20000]], particulas = [0],
       velocidades = [[7 / 20000, 7 / 20000]], mejores_locales = [0],
       mejores_puntajes_locales = [19 / 60], mejor_global = [3 / 4, 3 / 4],
       mejor_puntaje_global = 19 / 60, historial_puntajes = [19 / 60],
       azar = az_ejemplo, cursor = 6 \<rparr>"

definition datos_un_lugar :: "punto list" where
  "datos_un_lugar =
     [\<lparr> Humedad = 30, Cultivo = Maiz, Elevacion = 20, Salinidad = 1, Temperatura = 25,
         Latitud = 0, Longitud = 0 \<rparr>,
      \<lparr> Humedad = 30, Cultivo = Tomate, Elevacion = 20, Salinidad = 1, Temperatura = 25,
         Latitud = 0, Longitud = 0 \<rparr>,
      \<lparr> Humedad = 30, Cultivo = Chile, Elevacion = 20, Salinidad = 1, Temperatura = 25,
         Latitud = 0, Longitud = 0 \<rparr>]"

definition enjambre_borde :: pso where
  "enjambre_borde =
     enjambre_ejemplo\<lparr>memoria := [[1, 3 / 4]], velocidades := [[1 / 200, 0]],
                      mejor_global := [1, 3 / 4]\<rparr>"

definition az_otro :: "nat \<Rightarrow> real" where
  "az_otro j = 1 / 4"

definition az_mixto :: "nat \<Rightarrow> real" where
  "az_mixto j = (if j < 6 then 3 / 4 else 0)"

section \<open>The objective function\<close>

lemma py_min_Min: "xs \<noteq> [] \<Longrightarrow> py_min xs = Inr (Min (set xs))"
  by (cases xs) (simp_all add: Min.set_eq_fold [symmetric])

lemma cobertura_bucle_suma:
  "ss \<noteq> [] \<Longrightarrow> cobertura_bucle ss ps acc =
     Inr (acc + sum_list (map (\<lambda>p. credito_cobertura (dist_minima ss p)) ps))"
  by (induction ps arbitrary: acc) (simp_all add: py_min_Min dist_minima_def add.assoc)

lemma cobertura_bucle_vacio:
  "ps \<noteq> [] \<Longrightarrow> cobertura_bucle [] ps acc = Inl ValueError"
  by (cases ps) simp_all

lemma credito_cobertura_rango: "0 \<le> credito_cobertura d \<and> credito_cobertura d \<le> 1"
  by (simp add: credito_cobertura_def CONFIG_def Let_def)

lemma sum_list_rango:
  "(\<And>x. x \<in> set xs \<Longrightarrow> 0 \<le> f x \<and> f x \<le> (1::real)) \<Longrightarrow>
     0 \<le> sum_list (map f xs) \<and> sum_list (map f xs) \<le> real (length xs)"
  by (induction xs) (simp_all, force)

lemma cobertura_valor:
  assumes "ss \<noteq> []" "filas \<noteq> []"
  shows "calcular_cobertura_variabilidad ss filas =
           Inr (sum_list (map (\<lambda>p. credito_cobertura (dist_minima ss p)) filas) / real (length filas))"
  using assms by (simp add: calcular_cobertura_variabilidad_def cobertura_bucle_suma py_div_def)

lemma media_rango:
  assumes "0 \<le> s" "s \<le> real n" "n \<noteq> 0"
  shows "0 \<le> s / real n \<and> s / real n \<le> 1"
  using assms by (simp add: divide_le_eq)

lemma cobertura_rango:
  assumes "calcular_cobertura_variabilidad ss filas = Inr pc"
  shows "0 \<le> pc \<and> pc \<le> 1"
proof (cases "ss = [] \<or> filas = []")
  case True
  then show ?thesis using assms
    by (auto simp: calcular_cobertura_variabilidad_def py_div_def cobertura_bucle_vacio split: sum.splits if_splits)
next
  case False
  then have eq: "pc = sum_list (map (\<lambda>p. credito_cobertura (dist_minima ss p)) filas) / real (length filas)"
    using assms cobertura_valor by simp
  have "0 \<le> sum_list (map (\<lambda>p. credito_cobertura (dist_minima ss p)) filas)
      \<and> sum_list (map (\<lambda>p. credito_cobertura (dist_minima ss p)) filas) \<le> real (length filas)"
    by (rule sum_list_rango) (rule credito_cobertura_rango)
  then show ?thesis unfolding eq using False by (intro media_rango) simp_all
qed

lemma credito_cobertura_lineal:
  "radio_cobertura CONFIG < d \<Longrightarrow>
     credito_cobertura d = max 0 ((3 * radio_cobertura CONFIG - d) / (2 * radio_cobertura CONFIG))"
  by (simp add: credito_cobertura_def CONFIG_def Let_def field_simps)

lemma dist_misma_lon: "calcular_distancia (a, y) (b, y) = \<bar>a - b\<bar>"
  by (simp add: calcular_distancia_def)

lemma presente_iff: "presente filas c \<longleftrightarrow> filter (\<lambda>p. Cultivo p = c) filas \<noteq> []"
  by (auto simp: presente_def list_ex_iff filter_empty_conv)

lemma value_counts_Some:
  "value_counts Texto filas c = Some n \<Longrightarrow>
     n = length (filter (\<lambda>p. Cultivo p = c) filas) \<and> 0 < n \<and> n \<le> length filas"
  by (auto simp: value_counts_def Let_def split: if_splits)

lemma value_counts_Texto_None: "value_counts Texto filas c = None \<longleftrightarrow> \<not> presente filas c"
  by (simp add: value_counts_def presente_iff)

lemma value_counts_presente:
  "presente filas c \<Longrightarrow> value_counts tc filas c = value_counts Texto filas c"
  by (simp add: value_counts_def presente_iff)

lemma value_counts_categoria:
  "c \<in> set categorias \<Longrightarrow> \<not> presente filas c \<Longrightarrow>
     value_counts (Categorica categorias) filas c = Some 0"
  by (simp add: value_counts_def presente_iff)

lemma value_counts_categoria_Some:
  "c \<in> set categorias \<Longrightarrow> value_counts (Categorica categorias) filas c \<noteq> None"
  by (simp add: value_counts_def)

lemma cultivo_todos: "c \<in> set [Maiz, Tomate, Chile]"
  by (cases c) simp_all

lemma todos_presentes_iff: "todos_presentes filas \<longleftrightarrow> (\<forall>c. presente filas c)"
  unfolding todos_presentes_def list_all_iff using cultivo_todos by blast

lemma todos_presentes_Texto:
  "todos_presentes filas \<longleftrightarrow> (\<forall>c. value_counts Texto filas c \<noteq> None)"
  by (simp add: todos_presentes_iff value_counts_Texto_None)

lemma todos_presentes_no_vacio: "todos_presentes filas \<Longrightarrow> filas \<noteq> []"
  by (auto simp: todos_presentes_iff presente_def)

lemma conteo_cubierto_le:
  "conteo_cubierto ss filas c \<le> length (filter (\<lambda>p. Cultivo p = c) filas)"
  unfolding conteo_cubierto_def by (rule length_filter_le)

lemma credito_cultivo_rango:
  assumes "0 < n" "n \<le> m" "k \<le> n"
  shows "0 \<le> min (1 - \<bar>real n / real m - real k / real n\<bar>) 1
       \<and> min (1 - \<bar>real n / real m - real k / real n\<bar>) 1 \<le> 1"
proof -
  have a: "0 \<le> real n / real m" "real n / real m \<le> 1"
    using assms by (simp_all add: divide_le_eq)
  have b: "0 \<le> real k / real n" "real k / real n \<le> 1"
    using assms by (simp_all add: divide_le_eq)
  from a b show ?thesis by linarith
qed

lemma balance_bucle_paso:
  assumes "value_counts Texto filas c = Some n"
  shows "balance_bucle Texto ss filas (c # cs) (Some acc) =
           balance_bucle Texto ss filas cs
             (Some (acc + min (1 - \<bar>real n / real (length filas)
                                     - real (conteo_cubierto ss filas c) / real n\<bar>) 1))"
proof -
  from value_counts_Some [OF assms] have "real n \<noteq> 0" "real (length filas) \<noteq> 0" by auto
  then show ?thesis using assms by (simp add: np_div_def con_nan_def)
qed

lemma balance_bucle_rango:
  "balance_bucle Texto ss filas cs (Some acc) = Inr r \<Longrightarrow>
     \<exists>v. r = Some v \<and> acc \<le> v \<and> v \<le> acc + real (length cs)"
proof (induction cs arbitrary: acc)
  case Nil
  then show ?case by auto
next
  case (Cons c cs)
  show ?case
  proof (cases "value_counts Texto filas c")
    case None
    then show ?thesis using Cons.prems by simp
  next
    case (Some n)
    let ?x = "min (1 - \<bar>real n / real (length filas)
                               - real (conteo_cubierto ss filas c) / real n\<bar>) 1"
    have vc: "n = length (filter (\<lambda>p. Cultivo p = c) filas)" "0 < n" "n \<le> length filas"
      using value_counts_Some [OF Some] by blast+
    have k: "conteo_cubierto ss filas c \<le> n" using conteo_cubierto_le vc(1) by simp
    have x: "0 \<le> ?x \<and> ?x \<le> 1" by (rule credito_cultivo_rango [OF vc(2) vc(3) k])
    have "balance_bucle Texto ss filas cs (Some (acc + ?x)) = Inr r"
      using Cons.prems unfolding balance_bucle_paso [OF Some] .
    from Cons.IH [OF this] obtain v where
      v: "r = Some v" "acc + ?x \<le> v" "v \<le> acc + ?x + real (length cs)" by blast
    have "real (length (c # cs)) = 1 + real (length cs)" by simp
    with v x have "acc \<le> v \<and> v \<le> acc + real (length (c # cs))" by linarith
    with v(1) show ?thesis by blast
  qed
qed

lemma balance_bucle_total:
  "(\<forall>c \<in> set cs. value_counts Texto filas c \<noteq> None) \<Longrightarrow>
     \<exists>r. balance_bucle Texto ss filas cs (Some acc) = Inr (Some r)"
proof (induction cs arbitrary: acc)
  case Nil
  then show ?case by simp
next
  case (Cons c cs)
  then obtain n where n: "value_counts Texto filas c = Some n" by auto
  show ?case unfolding balance_bucle_paso [OF n] using Cons by simp
qed

lemma balance_bucle_KeyError:
  "balance_bucle tc ss filas cs acc = Inl e \<Longrightarrow>
     \<exists>c \<in> set cs. e = KeyError c \<and> value_counts tc filas c = None"
proof (induction cs arbitrary: acc)
  case Nil
  then show ?case by simp
next
  case (Cons c cs)
  show ?case
  proof (cases "value_counts tc filas c")
    case None
    then show ?thesis using Cons.prems by simp
  next
    case (Some n)
    from Cons.prems Some obtain acc' where "balance_bucle tc ss filas cs acc' = Inl e"
      by (simp add: Let_def)
    from Cons.IH [OF this] show ?thesis by auto
  qed
qed

lemma balance_rango:
  assumes "balance_entre_cultivos Texto ss filas = Inr pb"
  shows "0 \<le> pb \<and> pb \<le> 1"
proof -
  from assms obtain r where
    r: "balance_bucle Texto ss filas [Maiz, Tomate, Chile] (Some 0) = Inr (Some r)" "pb = r / 3"
    by (auto simp: balance_entre_cultivos_def py_div_def simp del: balance_bucle.simps
          split: sum.splits option.splits)
  from balance_bucle_rango [OF r(1)] r(2) show ?thesis by simp
qed

lemma balance_total:
  assumes "\<forall>c. value_counts Texto filas c \<noteq> None"
  shows "\<exists>pb. balance_entre_cultivos Texto ss filas = Inr pb"
proof -
  from assms have "\<forall>c \<in> set [Maiz, Tomate, Chile]. value_counts Texto filas c \<noteq> None" by blast
  from balance_bucle_total [OF this] obtain r where
    "balance_bucle Texto ss filas [Maiz, Tomate, Chile] (Some 0) = Inr (Some r)"
    by blast
  then have "balance_entre_cultivos Texto ss filas = Inr (r / 3)"
    by (simp add: balance_entre_cultivos_def py_div_def del: balance_bucle.simps)
  then show ?thesis by blast
qed

lemma balance_error:
  assumes "balance_entre_cultivos Texto ss filas = Inl e"
  shows "\<exists>c. e = KeyError c \<and> value_counts Texto filas c = None"
proof (cases "balance_bucle Texto ss filas [Maiz, Tomate, Chile] (Some 0)")
  case (Inl e')
  with assms have "e' = e" by (simp add: balance_entre_cultivos_def del: balance_bucle.simps)
  with balance_bucle_KeyError [OF Inl] show ?thesis by blast
next
  case (Inr r)
  from balance_bucle_rango [OF Inr] obtain v where "r = Some v" by blast
  with Inr assms show ?thesis
    by (simp add: balance_entre_cultivos_def py_div_def del: balance_bucle.simps)
qed

text \<open>
  Where every crop has a sample point the type of the column plays no part.
\<close>

lemma balance_bucle_presentes:
  "todos_presentes filas \<Longrightarrow>
     balance_bucle tc ss filas cs acc = balance_bucle Texto ss filas cs acc"
proof (induction cs arbitrary: acc)
  case Nil
  then show ?case by simp
next
  case (Cons c cs)
  from Cons.prems have v: "value_counts tc filas c = value_counts Texto filas c"
    using value_counts_presente [of filas c tc] by (simp add: todos_presentes_iff)
  obtain n where n: "value_counts Texto filas c = Some n"
    using Cons.prems by (auto simp: todos_presentes_Texto)
  show ?case
    unfolding balance_bucle.simps v n option.case Let_def
    by (rule Cons.IH [OF Cons.prems])
qed

lemma balance_presentes:
  "todos_presentes filas \<Longrightarrow>
     balance_entre_cultivos tc ss filas = balance_entre_cultivos Texto ss filas"
  unfolding balance_entre_cultivos_def
  using balance_bucle_presentes [of filas tc ss "[Maiz, Tomate, Chile]" "Some 0"]
  by (simp del: balance_bucle.simps)

lemma funcion_objetivo_presentes:
  "todos_presentes filas \<Longrightarrow> funcion_objetivo tc ss filas = funcion_objetivo Texto ss filas"
  using balance_presentes [of filas tc ss] by (simp add: funcion_objetivo_def split: sum.splits)

text \<open>
  Once the sum is NaN it stays NaN; and it becomes NaN at a crop whose count is 0.
\<close>

lemma con_nan_None [simp]: "con_nan f None y = None" "con_nan f x None = None"
  by (simp_all add: con_nan_def split: option.splits)

lemma balance_bucle_nan:
  "(\<forall>c \<in> set cs. value_counts tc filas c \<noteq> None) \<Longrightarrow>
     balance_bucle tc ss filas cs None = Inr None"
proof (induction cs)
  case Nil
  then show ?case by simp
next
  case (Cons c cs)
  then obtain n where "value_counts tc filas c = Some n" by auto
  then show ?case using Cons by (simp add: Let_def)
qed

lemma balance_bucle_cero:
  "(\<forall>c \<in> set cs. value_counts tc filas c \<noteq> None) \<Longrightarrow>
   (\<exists>c \<in> set cs. value_counts tc filas c = Some 0) \<Longrightarrow>
     balance_bucle tc ss filas cs acc = Inr None"
proof (induction cs arbitrary: acc)
  case Nil
  then show ?case by simp
next
  case (Cons c cs)
  from Cons.prems(1) obtain n where n: "value_counts tc filas c = Some n" by auto
  from Cons.prems(1) have r: "\<forall>c \<in> set cs. value_counts tc filas c \<noteq> None" by simp
  show ?case
  proof (cases "n = 0")
    case True
    then show ?thesis using n balance_bucle_nan [OF r] by (simp add: Let_def np_div_def)
  next
    case False
    with n Cons.prems(2) have "\<exists>c \<in> set cs. value_counts tc filas c = Some 0" by auto
    from Cons.IH [OF r this] show ?thesis using n by (simp add: Let_def)
  qed
qed

lemma criticas_rango:
  "\<exists>pz. cubrir_zonas_problematicas ss filas = Inr pz \<and> 0 \<le> pz \<and> pz \<le> 1"
proof (cases "filter es_critica filas = []")
  case True
  then show ?thesis by (simp add: cubrir_zonas_problematicas_def)
next
  case False
  have "length (filter (cubierto (1 / 100) ss) (filter es_critica filas)) \<le> length (filter es_critica filas)"
    by (rule length_filter_le)
  then show ?thesis using False
    by (simp add: cubrir_zonas_problematicas_def py_div_def Let_def divide_le_eq del: filter_filter)
qed

lemma credito_distancia_rango: "0 \<le> credito_distancia d \<and> credito_distancia d \<le> 1"
  by (simp add: credito_distancia_def CONFIG_def Let_def)

lemma foldl_suma: "foldl (\<lambda>acc d. acc + f d) a xs = a + sum_list (map f xs)"
  by (induction xs arbitrary: a) (simp_all add: add.assoc)

lemma distancias_pares_no_vacio:
  assumes "2 \<le> length ss"
  shows "distancias_pares ss \<noteq> []"
proof -
  have "calcular_distancia (ss ! 0) (ss ! 1) \<in> set (distancias_pares ss)"
    using assms by (auto simp: distancias_pares_def intro!: bexI [of _ 0] image_eqI [of _ _ 1])
  then show ?thesis by auto
qed

lemma distribucion_rango:
  "\<exists>pd. optimizar_distancias ss = Inr pd \<and> 0 \<le> pd \<and> pd \<le> 1"
proof (cases "length ss \<le> 1")
  case True
  then show ?thesis by (simp add: optimizar_distancias_def)
next
  case False
  then have ne: "distancias_pares ss \<noteq> []" by (intro distancias_pares_no_vacio) simp
  have s: "0 \<le> sum_list (map credito_distancia (distancias_pares ss))
      \<and> sum_list (map credito_distancia (distancias_pares ss)) \<le> real (length (distancias_pares ss))"
    by (rule sum_list_rango) (rule credito_distancia_rango)
  have "0 \<le> sum_list (map credito_distancia (distancias_pares ss)) / real (length (distancias_pares ss))
      \<and> sum_list (map credito_distancia (distancias_pares ss)) / real (length (distancias_pares ss)) \<le> 1"
    using s ne by (intro media_rango) simp_all
  then show ?thesis using False ne
    by (simp add: optimizar_distancias_def py_div_def Let_def foldl_suma)
qed

lemma puntaje_total_rango:
  assumes "0 \<le> a \<and> a \<le> 1" "0 \<le> b \<and> b \<le> 1" "0 \<le> c \<and> c \<le> 1" "0 \<le> d \<and> d \<le> 1"
  shows "0 \<le> puntaje_total a b c d \<and> puntaje_total a b c d \<le> 1"
  using assms by (simp add: puntaje_total_def CONFIG_def)

text \<open>
  Claim C1, as the code has it. With at least one sensor and one sample point, the coverage
  sub-score is the arithmetic mean, over all sample points, of the credit of the point's
  distance to its nearest sensor; beyond the coverage radius \<open>R\<close> the credit is
  \<open>max 0 ((3 R - d) / (2 R))\<close>: it falls linearly from 1 at \<open>d = R\<close> to 0 at \<open>d = 3 R\<close>,
  and is one half at \<open>d = 2 R\<close>.
\<close>

theorem cobertura_credito_media:
  assumes "ss \<noteq> []" and "filas \<noteq> []"
  shows "calcular_cobertura_variabilidad ss filas =
           Inr (sum_list (map (\<lambda>p. credito_cobertura (dist_minima ss p)) filas)
                / real (length filas))
       \<and> (\<forall>p \<in> set filas. radio_cobertura CONFIG < dist_minima ss p \<longrightarrow>
            credito_cobertura (dist_minima ss p) =
              max 0 ((3 * radio_cobertura CONFIG - dist_minima ss p) / (2 * radio_cobertura CONFIG)))"
  using cobertura_valor [OF assms] credito_cobertura_lineal by simp

text \<open>
  The theorem at the sample data with one sensor at the origin: the point at distance 1 is
  beyond three radii and has credit 0, and the mean is one third.
\<close>

theorem cobertura_credito_media_witness:
  "[(0, 0)] \<noteq> [] \<and> datos_ejemplo \<noteq> []
   \<and> calcular_cobertura_variabilidad [(0, 0)] datos_ejemplo = Inr (1 / 3)
   \<and> radio_cobertura CONFIG < dist_minima [(0, 0)] (datos_ejemplo ! 1)
   \<and> credito_cobertura (dist_minima [(0, 0)] (datos_ejemplo ! 1)) = 0"
proof -
  have a: "[(0::real, 0::real)] \<noteq> []" by simp
  have b: "datos_ejemplo \<noteq> []" by (simp add: datos_ejemplo_def)
  have d: "dist_minima [(0, 0)] (datos_ejemplo ! 1) = 1"
    by (simp add: dist_minima_def datos_ejemplo_def punto_coords_def calcular_distancia_def)
  have m: "datos_ejemplo ! 1 \<in> set datos_ejemplo" by (simp add: datos_ejemplo_def)
  have r: "radio_cobertura CONFIG < dist_minima [(0, 0)] (datos_ejemplo ! 1)"
    unfolding d by (simp add: CONFIG_def)
  from cobertura_credito_media [OF a b] m r
  have "credito_cobertura (dist_minima [(0, 0)] (datos_ejemplo ! 1)) =
     max 0 ((3 * radio_cobertura CONFIG - dist_minima [(0, 0)] (datos_ejemplo ! 1)) / (2 * radio_cobertura CONFIG))"
    by blast
  then have c: "credito_cobertura (dist_minima [(0, 0)] (datos_ejemplo ! 1)) = 0"
    unfolding d by (simp add: CONFIG_def)
  have v: "calcular_cobertura_variabilidad [(0, 0)] datos_ejemplo = Inr (1 / 3)"
    by (simp add: calcular_cobertura_variabilidad_def datos_ejemplo_def punto_coords_def
          calcular_distancia_def credito_cobertura_def CONFIG_def py_div_def Let_def)
  from a b v r c show ?thesis by blast
qed

text \<open>
  The claim as stated fails: a sample point at distance exactly \<open>2 R\<close> from the only sensor
  does not have credit 0 but one half.
\<close>

theorem cobertura_dos_radios_counterexample:
  "calcular_distancia (punto_coords punto_a_dos_radios) (0, 0) = 2 * radio_cobertura CONFIG
   \<and> dist_minima [(0, 0)] punto_a_dos_radios = 2 * radio_cobertura CONFIG
   \<and> credito_cobertura (dist_minima [(0, 0)] punto_a_dos_radios) = 1 / 2
   \<and> calcular_cobertura_variabilidad [(0, 0)] [punto_a_dos_radios] = Inr (1 / 2)"
  by (simp add: calcular_cobertura_variabilidad_def punto_coords_def punto_a_dos_radios_def
        dist_minima_def dist_misma_lon credito_cobertura_def CONFIG_def py_div_def Let_def)

lemma balance_bucle_primer_ausente:
  "find (\<lambda>c. value_counts tc filas c = None) cs = Some c' \<Longrightarrow>
     balance_bucle tc ss filas cs acc = Inl (KeyError c')"
proof (induction cs arbitrary: acc)
  case Nil
  then show ?case by simp
next
  case (Cons c cs)
  show ?case
  proof (cases "value_counts tc filas c")
    case None
    then show ?thesis using Cons.prems by simp
  next
    case (Some n)
    then have "find (\<lambda>c. value_counts tc filas c = None) cs = Some c'" using Cons.prems by simp
    from Cons.IH [OF this] show ?thesis using Some by (simp add: Let_def)
  qed
qed

lemma primer_ausente_Texto:
  "primer_ausente filas = find (\<lambda>c. value_counts Texto filas c = None) [Maiz, Tomate, Chile]"
  by (simp add: primer_ausente_def value_counts_Texto_None)

lemma primer_ausente_Some:
  assumes "\<not> presente filas c"
  shows "\<exists>c'. primer_ausente filas = Some c' \<and> \<not> presente filas c'"
proof -
  have "\<exists>c' \<in> set [Maiz, Tomate, Chile]. \<not> presente filas c'"
    using assms cultivo_todos by blast
  then obtain c' where f: "find (\<lambda>c. \<not> presente filas c) [Maiz, Tomate, Chile] = Some c'"
    by (cases "find (\<lambda>c. \<not> presente filas c) [Maiz, Tomate, Chile]")
       (simp_all only: find_None_iff, blast+)
  from f [unfolded find_Some_iff] have "\<not> presente filas c'" by blast
  with f show ?thesis unfolding primer_ausente_def by blast
qed

lemma balance_no_divide_por_cero: "balance_entre_cultivos Texto ss filas \<noteq> Inl ZeroDivisionError"
  using balance_error [of ss filas ZeroDivisionError] by auto

lemma funcion_objetivo_sin_sensores:
  "filas \<noteq> [] \<Longrightarrow> funcion_objetivo tc [] filas = Inl ValueError"
  by (simp add: funcion_objetivo_def calcular_cobertura_variabilidad_def cobertura_bucle_vacio)

lemma funcion_objetivo_sin_datos: "funcion_objetivo tc ss [] = Inl ZeroDivisionError"
  by (simp add: funcion_objetivo_def calcular_cobertura_variabilidad_def py_div_def)

lemma funcion_objetivo_balance_error:
  "filas \<noteq> [] \<Longrightarrow> ss \<noteq> [] \<Longrightarrow> balance_entre_cultivos tc ss filas = Inl e \<Longrightarrow>
     funcion_objetivo tc ss filas = Inl e"
  by (simp add: funcion_objetivo_def cobertura_valor)

lemma balance_ausente_Texto:
  assumes "primer_ausente filas = Some c'"
  shows "balance_entre_cultivos Texto ss filas = Inl (KeyError c')"
  unfolding balance_entre_cultivos_def
    balance_bucle_primer_ausente [OF assms [unfolded primer_ausente_Texto]] by simp

lemma balance_ausente_categorica:
  assumes "\<not> presente filas c"
  shows "balance_entre_cultivos tres_categorias ss filas = Inl ResultadoNaN"
proof -
  have a: "\<forall>c \<in> set [Maiz, Tomate, Chile]. value_counts tres_categorias filas c \<noteq> None"
    unfolding tres_categorias_def using value_counts_categoria_Some by blast
  have "value_counts tres_categorias filas c = Some 0"
    unfolding tres_categorias_def by (rule value_counts_categoria [OF cultivo_todos assms])
  then have b: "\<exists>c \<in> set [Maiz, Tomate, Chile]. value_counts tres_categorias filas c = Some 0"
    using cultivo_todos by blast
  show ?thesis unfolding balance_entre_cultivos_def balance_bucle_cero [OF a b] by simp
qed

lemma conteo_cubierto_ausente: "\<not> presente filas c \<Longrightarrow> conteo_cubierto ss filas c = 0"
  by (simp add: conteo_cubierto_def presente_iff)

text \<open>
  Claim C2, as the code has it. On a non-empty data frame in which some crop has no sample
  point, the crop balance has no guard: the crop is neither left out of the average nor
  reported as an invalid input. What happens instead depends on the type of the column
  \<open>Cultivo\<close>.
  On a column of strings, reading the count of the first absent crop (in the order Maiz,
  Tomate, Chile) raises KeyError before either division for that crop, and the objective
  function raises the same KeyError when there is a sensor.
  On a categorical column whose categories are the three crops, the count of the absent crop
  is 0 and the program divides by it, \<open>0 / 0\<close>: nothing is raised, and the crop balance and,
  when there is a sensor, the objective function return NaN.
  On neither column does the objective function raise ZeroDivisionError.
\<close>

theorem balance_cultivo_ausente:
  assumes "filas \<noteq> []" and "\<not> presente filas c"
  shows "(\<exists>c'. primer_ausente filas = Some c' \<and> \<not> presente filas c'
             \<and> value_counts Texto filas c' = None
             \<and> balance_entre_cultivos Texto ss filas = Inl (KeyError c')
             \<and> (ss \<noteq> [] \<longrightarrow> funcion_objetivo Texto ss filas = Inl (KeyError c')))
       \<and> value_counts tres_categorias filas c = Some 0
       \<and> conteo_cubierto ss filas c = 0
       \<and> np_div (real (conteo_cubierto ss filas c)) (real 0) = None
       \<and> balance_entre_cultivos tres_categorias ss filas = Inl ResultadoNaN
       \<and> (ss \<noteq> [] \<longrightarrow> funcion_objetivo tres_categorias ss filas = Inl ResultadoNaN)
       \<and> funcion_objetivo Texto ss filas \<noteq> Inl ZeroDivisionError
       \<and> funcion_objetivo tres_categorias ss filas \<noteq> Inl ZeroDivisionError"
proof -
  from primer_ausente_Some [OF assms(2)] obtain c' where
    c': "primer_ausente filas = Some c'" "\<not> presente filas c'" by blast
  have n: "value_counts Texto filas c' = None" using c'(2) by (simp add: value_counts_Texto_None)
  have b: "balance_entre_cultivos Texto ss filas = Inl (KeyError c')"
    by (rule balance_ausente_Texto [OF c'(1)])
  have o: "ss \<noteq> [] \<Longrightarrow> funcion_objetivo Texto ss filas = Inl (KeyError c')"
    using funcion_objetivo_balance_error [OF assms(1) _ b] by blast
  have v: "value_counts tres_categorias filas c = Some 0"
    unfolding tres_categorias_def by (rule value_counts_categoria [OF cultivo_todos assms(2)])
  have k: "conteo_cubierto ss filas c = 0" by (rule conteo_cubierto_ausente [OF assms(2)])
  have d: "np_div (real (conteo_cubierto ss filas c)) (real 0) = None" by (simp add: np_div_def)
  have bc: "balance_entre_cultivos tres_categorias ss filas = Inl ResultadoNaN"
    by (rule balance_ausente_categorica [OF assms(2)])
  have oc: "ss \<noteq> [] \<Longrightarrow> funcion_objetivo tres_categorias ss filas = Inl ResultadoNaN"
    using funcion_objetivo_balance_error [OF assms(1) _ bc] by blast
  have z: "funcion_objetivo Texto ss filas \<noteq> Inl ZeroDivisionError"
    using o funcion_objetivo_sin_sensores [OF assms(1), of Texto] by (cases "ss = []") simp_all
  have zc: "funcion_objetivo tres_categorias ss filas \<noteq> Inl ZeroDivisionError"
    using oc funcion_objetivo_sin_sensores [OF assms(1), of tres_categorias]
    by (cases "ss = []") simp_all
  from c' n b o v k d bc oc z zc show ?thesis by blast
qed

lemma solo_maiz_presente: "presente solo_maiz c \<longleftrightarrow> c = Maiz"
  by (auto simp: presente_def solo_maiz_def)

text \<open>The theorem on a data frame with one row of maize.\<close>

theorem balance_cultivo_ausente_witness:
  "solo_maiz \<noteq> [] \<and> \<not> presente solo_maiz Chile
   \<and> primer_ausente solo_maiz = Some Tomate
   \<and> balance_entre_cultivos Texto [(0, 0)] solo_maiz = Inl (KeyError Tomate)
   \<and> funcion_objetivo Texto [(0, 0)] solo_maiz = Inl (KeyError Tomate)
   \<and> value_counts tres_categorias solo_maiz Chile = Some 0
   \<and> balance_entre_cultivos tres_categorias [(0, 0)] solo_maiz = Inl ResultadoNaN
   \<and> funcion_objetivo tres_categorias [(0, 0)] solo_maiz = Inl ResultadoNaN"
proof -
  have a: "solo_maiz \<noteq> []" by (simp add: solo_maiz_def)
  have b: "\<not> presente solo_maiz Chile" by (simp add: solo_maiz_presente)
  have p: "primer_ausente solo_maiz = Some Tomate"
    by (simp add: primer_ausente_def solo_maiz_presente)
  from balance_cultivo_ausente [OF a b, of "[(0, 0)]"] a b p show ?thesis by auto
qed

text \<open>
  The claim as stated fails. On one row of maize in a categorical column whose categories
  are the three crops, the count of tomato is 0 and the crop balance divides by it: the
  balance and the objective function return NaN. On the same row in a column of strings
  the crop balance neither leaves the absent crop out nor reports an invalid input: the
  lookup of the absent crop raises KeyError. And on the empty data frame, where every crop
  has no sample point, the objective function raises ZeroDivisionError (in the coverage
  mean).
\<close>

theorem sin_guarda_counterexample:
  "\<not> presente solo_maiz Tomate
   \<and> value_counts tres_categorias solo_maiz Tomate = Some 0
   \<and> np_div (real (conteo_cubierto [(0, 0)] solo_maiz Tomate)) (real 0) = None
   \<and> balance_entre_cultivos tres_categorias [(0, 0)] solo_maiz = Inl ResultadoNaN
   \<and> funcion_objetivo tres_categorias [(0, 0)] solo_maiz = Inl ResultadoNaN
   \<and> value_counts Texto solo_maiz Tomate = None
   \<and> balance_entre_cultivos Texto [(0, 0)] solo_maiz = Inl (KeyError Tomate)
   \<and> \<not> presente [] Chile
   \<and> funcion_objetivo Texto [(0, 0)] [] = Inl ZeroDivisionError
   \<and> funcion_objetivo tres_categorias [(0, 0)] [] = Inl ZeroDivisionError"
proof -
  have m: "solo_maiz \<noteq> []" by (simp add: solo_maiz_def)
  have t: "\<not> presente solo_maiz Tomate" by (simp add: solo_maiz_presente)
  have p: "primer_ausente solo_maiz = Some Tomate"
    by (simp add: primer_ausente_def solo_maiz_presente)
  have v: "value_counts tres_categorias solo_maiz Tomate = Some 0"
    unfolding tres_categorias_def by (rule value_counts_categoria [OF cultivo_todos t])
  have d: "np_div (real (conteo_cubierto [(0, 0)] solo_maiz Tomate)) (real 0) = None"
    by (simp add: np_div_def)
  have bc: "balance_entre_cultivos tres_categorias [(0, 0)] solo_maiz = Inl ResultadoNaN"
    by (rule balance_ausente_categorica [OF t])
  have oc: "funcion_objetivo tres_categorias [(0, 0)] solo_maiz = Inl ResultadoNaN"
    by (rule funcion_objetivo_balance_error [OF m _ bc]) simp
  have n: "value_counts Texto solo_maiz Tomate = None" using t by (simp add: value_counts_Texto_None)
  have b: "balance_entre_cultivos Texto [(0, 0)] solo_maiz = Inl (KeyError Tomate)"
    by (rule balance_ausente_Texto [OF p])
  have e: "\<not> presente [] Chile" by (simp add: presente_def)
  from t v d bc oc n b e show ?thesis by (simp add: funcion_objetivo_sin_datos)
qed

lemma funcion_objetivo_componentes:
  assumes "todos_presentes filas" and "ss \<noteq> []"
  shows "\<exists>pc pb pz pd.
            funcion_objetivo Texto ss filas = Inr (puntaje_total pc pb pz pd)
          \<and> calcular_cobertura_variabilidad ss filas = Inr pc \<and> 0 \<le> pc \<and> pc \<le> 1
          \<and> balance_entre_cultivos Texto ss filas = Inr pb \<and> 0 \<le> pb \<and> pb \<le> 1
          \<and> cubrir_zonas_problematicas ss filas = Inr pz \<and> 0 \<le> pz \<and> pz \<le> 1
          \<and> optimizar_distancias ss = Inr pd \<and> 0 \<le> pd \<and> pd \<le> 1"
proof -
  have f: "filas \<noteq> []" by (rule todos_presentes_no_vacio [OF assms(1)])
  obtain pc where pc: "calcular_cobertura_variabilidad ss filas = Inr pc"
    using cobertura_valor [OF assms(2) f] by blast
  obtain pb where pb: "balance_entre_cultivos Texto ss filas = Inr pb"
    using balance_total assms(1) [unfolded todos_presentes_Texto] by blast
  obtain pz where pz: "cubrir_zonas_problematicas ss filas = Inr pz" "0 \<le> pz \<and> pz \<le> 1"
    using criticas_rango by blast
  obtain pd where pd: "optimizar_distancias ss = Inr pd" "0 \<le> pd \<and> pd \<le> 1"
    using distribucion_rango by blast
  have t: "funcion_objetivo Texto ss filas = Inr (puntaje_total pc pb pz pd)"
    by (simp add: funcion_objetivo_def pc pb pz pd)
  from t pc pb pz pd cobertura_rango [OF pc] balance_rango [OF pb] show ?thesis by blast
qed

text \<open>
  Claim C5, as the code has it. On a data frame with at least one sample point of each of the
  three crops, whatever the type of its column \<open>Cultivo\<close>, and with at least one sensor, the
  objective function returns a score: it lies in \<open>[0, 1]\<close>, the four sub-scores are returned
  and lie in \<open>[0, 1]\<close>, and the total is their combination with the weights 0.35, 0.25,
  0.25 and 0.15.
\<close>

theorem funcion_objetivo_rango:
  assumes "todos_presentes filas" and "ss \<noteq> []"
  shows "\<exists>pc pb pz pd total_p.
            funcion_objetivo tc ss filas = Inr total_p
          \<and> calcular_cobertura_variabilidad ss filas = Inr pc \<and> 0 \<le> pc \<and> pc \<le> 1
          \<and> balance_entre_cultivos tc ss filas = Inr pb \<and> 0 \<le> pb \<and> pb \<le> 1
          \<and> cubrir_zonas_problematicas ss filas = Inr pz \<and> 0 \<le> pz \<and> pz \<le> 1
          \<and> optimizar_distancias ss = Inr pd \<and> 0 \<le> pd \<and> pd \<le> 1
          \<and> total_p = 35 / 100 * pc + 25 / 100 * pb + 25 / 100 * pz + 15 / 100 * pd
          \<and> 0 \<le> total_p \<and> total_p \<le> 1"
proof -
  from funcion_objetivo_componentes [OF assms] obtain pc pb pz pd where
    t: "funcion_objetivo Texto ss filas = Inr (puntaje_total pc pb pz pd)"
    and pc: "calcular_cobertura_variabilidad ss filas = Inr pc" "0 \<le> pc \<and> pc \<le> 1"
    and pb: "balance_entre_cultivos Texto ss filas = Inr pb" "0 \<le> pb \<and> pb \<le> 1"
    and pz: "cubrir_zonas_problematicas ss filas = Inr pz" "0 \<le> pz \<and> pz \<le> 1"
    and pd: "optimizar_distancias ss = Inr pd" "0 \<le> pd \<and> pd \<le> 1"
    by blast
  have t': "funcion_objetivo tc ss filas = Inr (puntaje_total pc pb pz pd)"
    using t funcion_objetivo_presentes [OF assms(1), of tc ss] by simp
  have pb': "balance_entre_cultivos tc ss filas = Inr pb"
    using pb(1) balance_presentes [OF assms(1), of tc ss] by simp
  have r: "0 \<le> puntaje_total pc pb pz pd \<and> puntaje_total pc pb pz pd \<le> 1"
    by (rule puntaje_total_rango [OF pc(2) pb(2) pz(2) pd(2)])
  have w: "puntaje_total pc pb pz pd = 35 / 100 * pc + 25 / 100 * pb + 25 / 100 * pz + 15 / 100 * pd"
    by (simp add: puntaje_total_def CONFIG_def)
  from t' pc pb' pb(2) pz pd r w show ?thesis by blast
qed

lemma datos_ejemplo_presentes: "todos_presentes datos_ejemplo"
  by (simp add: todos_presentes_def presente_def datos_ejemplo_def)

text \<open>
  The theorem at the sample data, in a categorical column, with one sensor at the origin:
  the score is 73/180.
\<close>

theorem funcion_objetivo_rango_witness:
  "todos_presentes datos_ejemplo \<and> [(0, 0)] \<noteq> []
   \<and> funcion_objetivo tres_categorias [(0, 0)] datos_ejemplo = Inr (73 / 180)
   \<and> (\<exists>pc pb pz pd.
         calcular_cobertura_variabilidad [(0, 0)] datos_ejemplo = Inr pc \<and> 0 \<le> pc \<and> pc \<le> 1
       \<and> balance_entre_cultivos tres_categorias [(0, 0)] datos_ejemplo = Inr pb
       \<and> 0 \<le> pb \<and> pb \<le> 1
       \<and> cubrir_zonas_problematicas [(0, 0)] datos_ejemplo = Inr pz \<and> 0 \<le> pz \<and> pz \<le> 1
       \<and> optimizar_distancias [(0, 0)] = Inr pd \<and> 0 \<le> pd \<and> pd \<le> 1
       \<and> 73 / 180 = 35 / 100 * pc + 25 / 100 * pb + 25 / 100 * pz + 15 / 100 * pd
       \<and> (0::real) \<le> 73 / 180 \<and> (73::real) / 180 \<le> 1)"
proof -
  have a: "todos_presentes datos_ejemplo" by (rule datos_ejemplo_presentes)
  have b: "[(0::real, 0::real)] \<noteq> []" by simp
  have v: "funcion_objetivo Texto [(0, 0)] datos_ejemplo = Inr (73 / 180)"
    by (simp add: funcion_objetivo_def calcular_cobertura_variabilidad_def
          balance_entre_cultivos_def cubrir_zonas_problematicas_def optimizar_distancias_def
          value_counts_def conteo_cubierto_def cubierto_def es_critica_def puntaje_total_def
          credito_cobertura_def CONFIG_def py_div_def np_div_def con_nan_def Let_def
          datos_ejemplo_def punto_coords_def calcular_distancia_def)
  have v': "funcion_objetivo tres_categorias [(0, 0)] datos_ejemplo = Inr (73 / 180)"
    using v funcion_objetivo_presentes [OF a, of tres_categorias "[(0, 0)]"] by simp
  from funcion_objetivo_rango [OF a b, of tres_categorias] v' a b show ?thesis by auto
qed

text \<open>
  The claim as stated fails: on a data frame with one row of maize and with one sensor, the
  objective function returns no score of \<open>[0, 1]\<close>. In a categorical column whose
  categories are the three crops it returns NaN; in a column of strings it raises KeyError.
\<close>

theorem funcion_objetivo_ausente_counterexample:
  "solo_maiz \<noteq> [] \<and> [(0, 0)] \<noteq> []
   \<and> funcion_objetivo tres_categorias [(0, 0)] solo_maiz = Inl ResultadoNaN
   \<and> funcion_objetivo Texto [(0, 0)] solo_maiz = Inl (KeyError Tomate)"
proof -
  have m: "solo_maiz \<noteq> []" by (simp add: solo_maiz_def)
  have t: "\<not> presente solo_maiz Tomate" by (simp add: solo_maiz_presente)
  have p: "primer_ausente solo_maiz = Some Tomate"
    by (simp add: primer_ausente_def solo_maiz_presente)
  have oc: "funcion_objetivo tres_categorias [(0, 0)] solo_maiz = Inl ResultadoNaN"
    by (rule funcion_objetivo_balance_error [OF m _ balance_ausente_categorica [OF t]]) simp
  have o: "funcion_objetivo Texto [(0, 0)] solo_maiz = Inl (KeyError Tomate)"
    by (rule funcion_objetivo_balance_error [OF m _ balance_ausente_Texto [OF p]]) simp
  from m oc o show ?thesis by simp
qed

section \<open>The optimizer\<close>

subsection \<open>Cutting a position into sensors\<close>

lemma formatear_sensores_Nil: "formatear_sensores [] = []"
  by (simp add: formatear_sensores_def)

lemma formatear_sensores_uno: "formatear_sensores [a] = [[a]]"
  by (simp add: formatear_sensores_def)

lemma upt_Suc_map: "[0 ..< Suc m] = 0 # map Suc [0 ..< m]"
  by (simp only: map_Suc_upt upt_conv_Cons [OF zero_less_Suc])

lemma formatear_sensores_Cons2:
  "formatear_sensores (a # b # resto) = [a, b] # formatear_sensores resto"
proof -
  let ?m = "(length resto + 1) div 2"
  have m: "(length (a # b # resto) + 1) div 2 = Suc ?m" by simp
  have "formatear_sensores (a # b # resto) =
          map (\<lambda>k. take 2 (drop (2 * k) (a # b # resto))) (0 # map Suc [0 ..< ?m])"
    unfolding formatear_sensores_def m upt_Suc_map ..
  also have "\<dots> = [a, b] # map (\<lambda>k. take 2 (drop (2 * k) resto)) [0 ..< ?m]"
    by (simp add: comp_def numeral_2_eq_2 del: upt_Suc)
  finally show ?thesis unfolding formatear_sensores_def .
qed

lemmas formatear_sensores_simps =
  formatear_sensores_Nil formatear_sensores_uno formatear_sensores_Cons2

lemma concat_formatear_sensores: "concat (formatear_sensores p) = p"
  by (induction p rule: induct_list012) (simp_all add: formatear_sensores_simps)

lemma de_dos_en_dos [case_names Nil uno Cons2]:
  assumes "P []" and "\<And>x. P [x]" and "\<And>x y zs. P zs \<Longrightarrow> P (x # y # zs)"
  shows "P xs"
  using assms by (induction xs rule: induct_list012) blast+

lemma length_formatear_sensores: "length (formatear_sensores p) = (length p + 1) div 2"
  unfolding formatear_sensores_def by simp

lemma formatear_sensores_pares:
  "even (length p) \<Longrightarrow> s \<in> set (formatear_sensores p) \<Longrightarrow> length s = 2"
proof (induction p rule: de_dos_en_dos)
  case Nil
  then show ?case by (simp add: formatear_sensores_Nil)
next
  case (uno x)
  then show ?case by simp
next
  case (Cons2 x y zs)
  from Cons2.prems(1) have e: "even (length zs)" by simp
  from Cons2.prems(2) have "s = [x, y] \<or> s \<in> set (formatear_sensores zs)"
    unfolding formatear_sensores_Cons2 by simp
  then show ?case using Cons2.IH [OF e] by auto
qed

lemma a_pares_formatear:
  "even (length p) \<Longrightarrow>
     \<exists>ss. a_pares (formatear_sensores p) = Some ss \<and> length ss = length p div 2"
proof (induction p rule: de_dos_en_dos)
  case Nil
  then show ?case by (simp add: formatear_sensores_Nil)
next
  case (uno x)
  then show ?case by simp
next
  case (Cons2 x y zs)
  from Cons2.prems have e: "even (length zs)" by simp
  from Cons2.IH [OF e] obtain ss where
    ss: "a_pares (formatear_sensores zs) = Some ss" "length ss = length zs div 2" by blast
  have "a_pares (formatear_sensores (x # y # zs)) = Some ((x, y) # ss)"
    unfolding formatear_sensores_Cons2 by (simp add: ss(1))
  then show ?case using ss(2) by simp
qed

lemma formatear_sensores_ida_y_vuelta:
  assumes "length particula = 2 * n"
  shows "length (formatear_sensores particula) = n
       \<and> (\<forall>sensor \<in> set (formatear_sensores particula). length sensor = 2)
       \<and> concat (formatear_sensores particula) = particula"
proof -
  have e: "even (length particula)" using assms by simp
  have "length (formatear_sensores particula) = n"
    unfolding length_formatear_sensores assms by simp
  with formatear_sensores_pares [OF e] concat_formatear_sensores show ?thesis by blast
qed

subsection \<open>Evaluation and clipping\<close>

lemma funcion_objetivo_total:
  assumes "filas \<noteq> []" "\<forall>c. value_counts Texto filas c \<noteq> None" "ss \<noteq> []"
  shows "\<exists>v. funcion_objetivo Texto ss filas = Inr v \<and> 0 \<le> v \<and> v \<le> 1"
proof -
  obtain pc where pc: "calcular_cobertura_variabilidad ss filas = Inr pc"
    using cobertura_valor [OF assms(3) assms(1)] by blast
  obtain pb where pb: "balance_entre_cultivos Texto ss filas = Inr pb"
    using balance_total [OF assms(2)] by blast
  obtain pz where pz: "cubrir_zonas_problematicas ss filas = Inr pz" "0 \<le> pz \<and> pz \<le> 1"
    using criticas_rango by blast
  obtain pd where pd: "optimizar_distancias ss = Inr pd" "0 \<le> pd \<and> pd \<le> 1"
    using distribucion_rango by blast
  have "funcion_objetivo Texto ss filas = Inr (puntaje_total pc pb pz pd)"
    by (simp add: funcion_objetivo_def pc pb pz pd)
  then show ?thesis
    using puntaje_total_rango [OF cobertura_rango [OF pc] balance_rango [OF pb] pz(2) pd(2)]
    by simp
qed

lemma funcion_objetivo_Inr_cultivos:
  assumes "funcion_objetivo Texto ss filas = Inr v"
  shows "filas \<noteq> [] \<and> (\<forall>c. value_counts Texto filas c \<noteq> None) \<and> ss \<noteq> []"
proof -
  have f: "filas \<noteq> []" using assms funcion_objetivo_sin_datos by auto
  have s: "ss \<noteq> []" using assms funcion_objetivo_sin_sensores [OF f] by auto
  have "\<forall>c. value_counts Texto filas c \<noteq> None"
  proof (rule ccontr)
    assume "\<not> (\<forall>c. value_counts Texto filas c \<noteq> None)"
    then obtain c where c: "value_counts Texto filas c = None" by blast
    have "\<exists>c' \<in> set [Maiz, Tomate, Chile]. value_counts Texto filas c' = None"
      using c cultivo_todos by blast
    then obtain c' where "find (\<lambda>c. value_counts Texto filas c = None) [Maiz, Tomate, Chile] = Some c'"
      by (cases "find (\<lambda>c. value_counts Texto filas c = None) [Maiz, Tomate, Chile]")
         (simp_all only: find_None_iff, blast+)
    from balance_bucle_primer_ausente [OF this]
    have "balance_entre_cultivos Texto ss filas = Inl (KeyError c')"
      unfolding balance_entre_cultivos_def by simp
    then have "funcion_objetivo Texto ss filas = Inl (KeyError c')"
      using f s by (simp add: funcion_objetivo_def cobertura_valor)
    then show False using assms by simp
  qed
  with f s show ?thesis by blast
qed

lemma evaluar_particula_total:
  assumes "filas \<noteq> []" "\<forall>c. value_counts Texto filas c \<noteq> None" "length p = 2 * k" "1 \<le> k"
  shows "\<exists>v. evaluar_particula filas p = Inr v \<and> 0 \<le> v \<and> v \<le> 1"
proof -
  have "even (length p)" using assms(3) by simp
  from a_pares_formatear [OF this] obtain ss where
    ss: "a_pares (formatear_sensores p) = Some ss" "length ss = length p div 2" by blast
  then have "ss \<noteq> []" using assms(3,4) by auto
  from funcion_objetivo_total [OF assms(1,2) this] show ?thesis
    by (simp add: evaluar_particula_def ss(1))
qed

lemma np_clip_rango: "a \<le> b \<Longrightarrow> a \<le> np_clip x a b \<and> np_clip x a b \<le> b"
  by (simp add: np_clip_def)

lemma np_clip_tope: "a \<le> b \<Longrightarrow> b < x \<Longrightarrow> np_clip x a b = b"
  by (simp add: np_clip_def)

lemma np_clip_dentro: "a \<le> x \<Longrightarrow> x \<le> b \<Longrightarrow> np_clip x a b = x"
  by (simp add: np_clip_def)

lemma restringir_par:
  "even (length p) \<Longrightarrow> \<exists>r. restringir s p = Inr r \<and> length r = length p
     \<and> (lat_min s \<le> lat_max s \<longrightarrow> lon_min s \<le> lon_max s \<longrightarrow> en_limites s r)"
proof (induction p rule: de_dos_en_dos)
  case Nil
  then show ?case by (simp add: en_limites_def)
next
  case (uno x)
  then show ?case by simp
next
  case (Cons2 x y zs)
  from Cons2.prems have "even (length zs)" by simp
  from Cons2.IH [OF this] obtain r where
    r: "restringir s zs = Inr r" "length r = length zs"
       "lat_min s \<le> lat_max s \<longrightarrow> lon_min s \<le> lon_max s \<longrightarrow> en_limites s r" by blast
  show ?case using r by (simp add: en_limites_def np_clip_rango)
qed

lemma restringir_impar: "odd (length p) \<Longrightarrow> restringir s p = Inl IndexError"
  by (induction p rule: de_dos_en_dos) simp_all

subsection \<open>The steps of a round\<close>

lemma marco_refl: "marco s s"
  by (simp add: marco_def)

lemma marco_trans: "marco s s1 \<Longrightarrow> marco s1 s2 \<Longrightarrow> marco s s2"
  by (simp add: marco_def)

lemma bien_formado_particula:
  assumes "bien_formado s" "i < nat (n_particulas s)"
  shows "particulas s ! i < length (memoria s)"
    and "length (memoria s ! (particulas s ! i)) = 2 * nat (n_sensores s)"
    and "mejores_locales s ! i < length (memoria s)"
    and "length (memoria s ! (mejores_locales s ! i)) = 2 * nat (n_sensores s)"
    and "length (velocidades s ! i) = 2 * nat (n_sensores s)"
proof -
  show a: "particulas s ! i < length (memoria s)"
    using assms by (simp add: bien_formado_def)
  show b: "mejores_locales s ! i < length (memoria s)"
    using assms by (simp add: bien_formado_def)
  show "length (memoria s ! (particulas s ! i)) = 2 * nat (n_sensores s)"
    using assms(1) a by (simp add: bien_formado_def)
  show "length (memoria s ! (mejores_locales s ! i)) = 2 * nat (n_sensores s)"
    using assms(1) b by (simp add: bien_formado_def)
  show "length (velocidades s ! i) = 2 * nat (n_sensores s)"
    using assms by (simp add: bien_formado_def)
qed

lemma bien_formado_evaluar:
  assumes "bien_formado s" "i < nat (n_particulas s)"
  shows "\<exists>v. evaluar_particula (datos s) (memoria s ! (particulas s ! i)) = Inr v \<and> 0 \<le> v \<and> v \<le> 1"
proof -
  have d: "datos s \<noteq> []" "\<forall>c. value_counts Texto (datos s) c \<noteq> None" "1 \<le> nat (n_sensores s)"
    using assms(1) unfolding bien_formado_def by (blast, blast, linarith)
  from evaluar_particula_total [OF d(1,2) bien_formado_particula(2) [OF assms] d(3)]
  show ?thesis .
qed

lemma actualizar_mejor_forma:
  "actualizar_mejor i s =
     (case evaluar_particula (datos s) (memoria s ! (particulas s ! i)) of
        Inl e \<Rightarrow> Inl e | Inr v \<Rightarrow> Inr (tras_mejor i v s))"
  by (simp add: actualizar_mejor_def tras_mejor_def Let_def split: sum.splits)

lemma tras_mejor_marco: "marco s (tras_mejor i v s)"
  by (simp add: marco_def tras_mejor_def Let_def)

lemma tras_mejor_bien_formado:
  assumes "bien_formado s" "i < nat (n_particulas s)"
  shows "bien_formado (tras_mejor i v s)"
proof -
  note p = bien_formado_particula [OF assms]
  have m: "memoria s ! (particulas s ! i) \<in> set (memoria s)" using p(1) by simp
  show ?thesis
    using assms(1) p m
    by (auto simp: bien_formado_def tras_mejor_def Let_def nth_append
             dest!: set_update_subset_insert [THEN subsetD] intro: less_SucI)
qed

lemma en_limites_marco: "marco s s' \<Longrightarrow> en_limites s' p = en_limites s p"
  by (simp add: marco_def en_limites_def)

lemma tras_mejor_acotado:
  assumes "acotado s" "particulas s ! i < length (memoria s)"
  shows "acotado (tras_mejor i v s)"
proof -
  have m: "en_limites s (memoria s ! (particulas s ! i))"
    using assms by (simp add: acotado_def)
  show ?thesis
    using assms m
    by (auto simp: acotado_def tras_mejor_def Let_def en_limites_def nth_append)
qed

lemma tras_mejor_puntajes:
  "mejor_puntaje_global s \<le> mejor_puntaje_global (tras_mejor i v s)"
  "length (mejores_puntajes_locales (tras_mejor i v s)) = length (mejores_puntajes_locales s)"
  "historial_puntajes (tras_mejor i v s) = historial_puntajes s"
  "cursor (tras_mejor i v s) = cursor s"
  "velocidades (tras_mejor i v s) = velocidades s"
  by (auto simp: tras_mejor_def Let_def)

lemma tras_mejor_puntaje_local:
  "j < length (mejores_puntajes_locales s) \<Longrightarrow>
     mejores_puntajes_locales s ! j \<le> mejores_puntajes_locales (tras_mejor i v s) ! j"
  by (cases "i = j") (auto simp: tras_mejor_def Let_def)

lemma actualizar_mejor_total:
  assumes "bien_formado s" "i < nat (n_particulas s)"
  shows "\<exists>v. actualizar_mejor i s = Inr (tras_mejor i v s) \<and> 0 \<le> v \<and> v \<le> 1"
  using bien_formado_evaluar [OF assms] by (auto simp: actualizar_mejor_forma)

lemma actualizar_mejor_Inr:
  assumes "actualizar_mejor i s = Inr s'"
  shows "\<exists>v. evaluar_particula (datos s) (memoria s ! (particulas s ! i)) = Inr v
            \<and> s' = tras_mejor i v s"
  using assms by (auto simp: actualizar_mejor_forma split: sum.splits)

lemma mover_particula_forma: "mover_particula i s = aplicar_restricciones i (tras_velocidad i s)"
  by (simp add: mover_particula_def tras_velocidad_def Let_def)

lemma tras_velocidad_marco: "marco s (tras_velocidad i s)"
  by (simp add: marco_def tras_velocidad_def Let_def)

lemma tras_velocidad_bien_formado:
  assumes "bien_formado s" "i < nat (n_particulas s)"
  shows "bien_formado (tras_velocidad i s)"
    and "length (memoria (tras_velocidad i s) ! (particulas s ! i)) = 2 * nat (n_sensores s)"
proof -
  note p = bien_formado_particula [OF assms]
  have g: "length (mejor_global s) = 2 * nat (n_sensores s)"
    using assms(1) by (simp add: bien_formado_def)
  show "bien_formado (tras_velocidad i s)"
    using assms(1) p g
    by (auto simp: bien_formado_def tras_velocidad_def Let_def
             dest!: set_update_subset_insert [THEN subsetD])
  show "length (memoria (tras_velocidad i s) ! (particulas s ! i)) = 2 * nat (n_sensores s)"
    using p g by (simp add: tras_velocidad_def Let_def)
qed

lemma en_limites_suma_restringida:
  assumes "lat_min s \<le> lat_max s" "lon_min s \<le> lon_max s" "even (length p)"
  shows "\<exists>r. restringir s p = Inr r \<and> length r = length p \<and> en_limites s r"
  using restringir_par [OF assms(3), of s] assms(1,2) by blast

lemma aplicar_restricciones_Inr:
  assumes "even (length (memoria s ! (particulas s ! i)))"
  shows "\<exists>r. restringir s (memoria s ! (particulas s ! i)) = Inr r
            \<and> length r = length (memoria s ! (particulas s ! i))
            \<and> aplicar_restricciones i s = Inr (s\<lparr>memoria := (memoria s)[particulas s ! i := r]\<rparr>)"
proof -
  from restringir_par [OF assms, of s] obtain r where
    "restringir s (memoria s ! (particulas s ! i)) = Inr r"
    "length r = length (memoria s ! (particulas s ! i))" by blast
  then show ?thesis by (simp add: aplicar_restricciones_def)
qed

lemma mover_particula_total:
  assumes "bien_formado s" "i < nat (n_particulas s)"
  shows "\<exists>r. restringir (tras_velocidad i s) (memoria (tras_velocidad i s) ! (particulas s ! i)) = Inr r
            \<and> length r = 2 * nat (n_sensores s)
            \<and> mover_particula i s =
                Inr ((tras_velocidad i s)
                       \<lparr>memoria := (memoria (tras_velocidad i s))[particulas s ! i := r]\<rparr>)"
proof -
  let ?t = "tras_velocidad i s"
  have p: "particulas ?t = particulas s" using tras_velocidad_marco [of s i] by (simp add: marco_def)
  have l: "length (memoria ?t ! (particulas ?t ! i)) = 2 * nat (n_sensores s)"
    using tras_velocidad_bien_formado(2) [OF assms] p by simp
  then have "even (length (memoria ?t ! (particulas ?t ! i)))" by simp
  from aplicar_restricciones_Inr [OF this] l show ?thesis
    unfolding mover_particula_forma p by auto
qed

lemma avanza_refl: "avanza s s"
  by (simp add: avanza_def marco_refl)

lemma avanza_trans: "avanza s s1 \<Longrightarrow> avanza s1 s2 \<Longrightarrow> avanza s s2"
  unfolding avanza_def using marco_trans by (auto intro: order_trans)

lemma tras_mejor_avanza: "avanza s (tras_mejor i v s)"
  unfolding avanza_def
  using tras_mejor_marco tras_mejor_puntajes(1,2) tras_mejor_puntaje_local by blast

lemma mover_particula_estado:
  assumes "bien_formado s" "i < nat (n_particulas s)" "mover_particula i s = Inr s'"
  shows "marco s s'"
    and "bien_formado s'"
    and "mejores_puntajes_locales s' = mejores_puntajes_locales s"
    and "mejor_puntaje_global s' = mejor_puntaje_global s"
    and "mejor_global s' = mejor_global s"
    and "mejores_locales s' = mejores_locales s"
    and "historial_puntajes s' = historial_puntajes s"
    and "cursor s' = cursor s + 2"
    and "lat_min s \<le> lat_max s \<Longrightarrow> lon_min s \<le> lon_max s \<Longrightarrow>
           en_limites s' (memoria s' ! (particulas s' ! i))"
    and "acotado s \<Longrightarrow> acotado s'"
proof -
  let ?t = "tras_velocidad i s"
  let ?a = "particulas s ! i"
  from mover_particula_total [OF assms(1,2)] assms(3) obtain r where
    r: "restringir ?t (memoria ?t ! ?a) = Inr r" "length r = 2 * nat (n_sensores s)"
       "s' = ?t\<lparr>memoria := (memoria ?t)[?a := r]\<rparr>" by auto
  have mt: "marco s ?t" by (rule tras_velocidad_marco)
  have bt: "bien_formado ?t" by (rule tras_velocidad_bien_formado(1) [OF assms(1,2)])
  have a: "?a < length (memoria s)" by (rule bien_formado_particula(1) [OF assms(1,2)])
  have lt: "length (memoria ?t) = length (memoria s)" by (simp add: tras_velocidad_def Let_def)
  show m: "marco s s'" using mt unfolding r(3) by (simp add: marco_def)
  show "bien_formado s'"
    using bt r(2) mt unfolding r(3)
    by (auto simp: bien_formado_def marco_def dest!: set_update_subset_insert [THEN subsetD])
  show "mejores_puntajes_locales s' = mejores_puntajes_locales s"
    unfolding r(3) by (simp add: tras_velocidad_def Let_def)
  show "mejor_puntaje_global s' = mejor_puntaje_global s"
    unfolding r(3) by (simp add: tras_velocidad_def Let_def)
  show "mejor_global s' = mejor_global s"
    unfolding r(3) by (simp add: tras_velocidad_def Let_def)
  show "mejores_locales s' = mejores_locales s"
    unfolding r(3) by (simp add: tras_velocidad_def Let_def)
  show "historial_puntajes s' = historial_puntajes s"
    unfolding r(3) by (simp add: tras_velocidad_def Let_def)
  show "cursor s' = cursor s + 2"
    unfolding r(3) by (simp add: tras_velocidad_def Let_def)
  have ms: "memoria s' = (memoria s)[?a := r]"
    unfolding r(3) by (simp add: tras_velocidad_def Let_def)
  have e: "even (length (memoria ?t ! ?a))"
    using tras_velocidad_bien_formado(2) [OF assms(1,2)] by simp
  have rl: "lat_min s \<le> lat_max s \<Longrightarrow> lon_min s \<le> lon_max s \<Longrightarrow> en_limites s r"
  proof -
    assume "lat_min s \<le> lat_max s" "lon_min s \<le> lon_max s"
    then have "lat_min ?t \<le> lat_max ?t" "lon_min ?t \<le> lon_max ?t"
      using mt by (simp_all add: marco_def)
    with restringir_par [OF e, of ?t] r(1) have "en_limites ?t r" by simp
    then show "en_limites s r" using en_limites_marco [OF mt] by simp
  qed
  have ps: "particulas s' = particulas s" using m by (simp add: marco_def)
  show "lat_min s \<le> lat_max s \<Longrightarrow> lon_min s \<le> lon_max s \<Longrightarrow>
           en_limites s' (memoria s' ! (particulas s' ! i))"
    using rl a unfolding ps ms en_limites_marco [OF m] by simp
  show "acotado s \<Longrightarrow> acotado s'"
  proof -
    assume ac: "acotado s"
    then have b: "lat_min s \<le> lat_max s" "lon_min s \<le> lon_max s" by (simp_all add: acotado_def)
    have "\<forall>p \<in> set (memoria s'). en_limites s p"
      using ac rl [OF b] unfolding ms
      by (auto simp: acotado_def dest!: set_update_subset_insert [THEN subsetD])
    moreover have "en_limites s (mejor_global s')"
      using ac \<open>mejor_global s' = mejor_global s\<close> by (simp add: acotado_def)
    ultimately show "acotado s'"
      using b m unfolding acotado_def en_limites_marco [OF m] by (simp add: marco_def)
  qed
qed

lemma mover_particula_avanza:
  assumes "bien_formado s" "i < nat (n_particulas s)" "mover_particula i s = Inr s'"
  shows "avanza s s'"
  unfolding avanza_def
  using mover_particula_estado(1,3,4) [OF assms] by simp

subsection \<open>Loops and rounds\<close>

lemma paso_ok_refl: "paso_ok s s"
  by (simp add: paso_ok_def avanza_refl)

lemma paso_ok_trans: "paso_ok s s1 \<Longrightarrow> paso_ok s1 s2 \<Longrightarrow> paso_ok s s2"
  unfolding paso_ok_def using avanza_trans by auto

lemma bucle_general:
  assumes "\<And>i s. i \<in> set js \<Longrightarrow> I s \<Longrightarrow> \<exists>s'. cuerpo i s = Inr s' \<and> I s' \<and> R s s'"
    and "\<And>s. R s s" and "\<And>a b c. R a b \<Longrightarrow> R b c \<Longrightarrow> R a c" and "I s"
  shows "\<exists>s'. bucle cuerpo js s = Inr s' \<and> I s' \<and> R s s'"
  using assms(1,4)
proof (induction js arbitrary: s)
  case Nil
  then show ?case using assms(2) by simp
next
  case (Cons j js)
  from Cons.prems(1) [of j s] Cons.prems(2) obtain s1 where
    s1: "cuerpo j s = Inr s1" "I s1" "R s s1" by auto
  have "\<exists>s'. bucle cuerpo js s1 = Inr s' \<and> I s' \<and> R s1 s'"
    by (rule Cons.IH) (use Cons.prems(1) s1(2) in auto)
  then obtain s' where "bucle cuerpo js s1 = Inr s'" "I s'" "R s1 s'" by blast
  then show ?case using s1 assms(3) by auto
qed

lemma actualizar_mejor_paso:
  assumes "listo m s" "i < nat m"
  shows "\<exists>s'. actualizar_mejor i s = Inr s' \<and> listo m s'
            \<and> (paso_ok s s' \<and> cursor s' = cursor s \<and> velocidades s' = velocidades s)"
proof -
  have b: "bien_formado s" and n: "i < nat (n_particulas s)"
    using assms by (simp_all add: listo_def)
  from actualizar_mejor_total [OF b n] obtain v where
    v: "actualizar_mejor i s = Inr (tras_mejor i v s)" by blast
  have "listo m (tras_mejor i v s)"
    using tras_mejor_bien_formado [OF b n] tras_mejor_marco [of s i v] assms(1)
    by (simp add: listo_def marco_def)
  moreover have "paso_ok s (tras_mejor i v s)"
    unfolding paso_ok_def
    using tras_mejor_avanza tras_mejor_puntajes(3)
      tras_mejor_acotado [OF _ bien_formado_particula(1) [OF b n]] by blast
  ultimately show ?thesis using v tras_mejor_puntajes(4,5) by auto
qed

lemma actualizar_mejores_posiciones_ok:
  assumes "listo m s"
  shows "\<exists>s'. actualizar_mejores_posiciones s = Inr s' \<and> listo m s'
            \<and> (paso_ok s s' \<and> cursor s' = cursor s \<and> velocidades s' = velocidades s)"
proof -
  have n: "n_particulas s = m" using assms by (simp add: listo_def)
  show ?thesis
    unfolding actualizar_mejores_posiciones_def n
  proof (rule bucle_general [where I = "listo m"])
    fix i s assume "i \<in> set [0 ..< nat m]" "listo m s"
    then show "\<exists>s'. actualizar_mejor i s = Inr s' \<and> listo m s'
            \<and> (paso_ok s s' \<and> cursor s' = cursor s \<and> velocidades s' = velocidades s)"
      using actualizar_mejor_paso by simp
  next
    fix s show "paso_ok s s \<and> cursor s = cursor s \<and> velocidades s = velocidades s"
      by (simp add: paso_ok_refl)
  next
    fix a b c
    assume "paso_ok a b \<and> cursor b = cursor a \<and> velocidades b = velocidades a"
           "paso_ok b c \<and> cursor c = cursor b \<and> velocidades c = velocidades b"
    then show "paso_ok a c \<and> cursor c = cursor a \<and> velocidades c = velocidades a"
      using paso_ok_trans by auto
  next
    show "listo m s" by (rule assms)
  qed
qed

lemma mover_particula_paso:
  assumes "listo m s" "i < nat m"
  shows "\<exists>s'. mover_particula i s = Inr s' \<and> listo m s' \<and> quieto s s'"
proof -
  have b: "bien_formado s" and n: "i < nat (n_particulas s)"
    using assms by (simp_all add: listo_def)
  from mover_particula_total [OF b n] obtain s' where s': "mover_particula i s = Inr s'" by blast
  note e = mover_particula_estado [OF b n s']
  have "listo m s'" using e(1,2) assms(1) by (simp add: listo_def marco_def)
  moreover have "quieto s s'"
    unfolding quieto_def paso_ok_def
    using mover_particula_avanza [OF b n s'] e(3,4,5,6,7,10) by simp
  ultimately show ?thesis using s' by blast
qed

lemma actualizar_velocidades_posiciones_ok:
  assumes "listo m s"
  shows "\<exists>s'. actualizar_velocidades_posiciones s = Inr s' \<and> listo m s' \<and> quieto s s'"
proof -
  have n: "n_particulas s = m" using assms by (simp add: listo_def)
  show ?thesis
    unfolding actualizar_velocidades_posiciones_def n
  proof (rule bucle_general [where I = "listo m"])
    fix i s assume "i \<in> set [0 ..< nat m]" "listo m s"
    then show "\<exists>s'. mover_particula i s = Inr s' \<and> listo m s' \<and> quieto s s'"
      using mover_particula_paso by simp
  next
    fix s show "quieto s s" by (simp add: quieto_def paso_ok_refl)
  next
    fix a b c assume "quieto a b" "quieto b c"
    then show "quieto a c" unfolding quieto_def using paso_ok_trans by auto
  next
    show "listo m s" by (rule assms)
  qed
qed

lemma iteracion_ok:
  assumes "listo m s"
  shows "\<exists>s'. iteracion s = Inr s' \<and> listo m s' \<and> avanza s s'
            \<and> historial_puntajes s' = historial_puntajes s @ [mejor_puntaje_global s']
            \<and> (acotado s \<longrightarrow> acotado s') \<and> (ordenado s \<longrightarrow> ordenado s')"
proof -
  from actualizar_mejores_posiciones_ok [OF assms] obtain s1 where
    s1: "actualizar_mejores_posiciones s = Inr s1" "listo m s1" "paso_ok s s1" by blast
  from actualizar_velocidades_posiciones_ok [OF s1(2)] obtain s2 where
    s2: "actualizar_velocidades_posiciones s1 = Inr s2" "listo m s2" "quieto s1 s2" by blast
  let ?s3 = "s2\<lparr>historial_puntajes := historial_puntajes s2 @ [mejor_puntaje_global s2]\<rparr>"
  have it: "iteracion s = Inr ?s3" by (simp add: iteracion_def s1(1) s2(1))
  have p: "paso_ok s s2" using paso_ok_trans [OF s1(3)] s2(3) by (simp add: quieto_def)
  have l: "listo m ?s3" using s2(2) by (simp add: listo_def bien_formado_def)
  have a: "avanza s ?s3" using p by (simp add: paso_ok_def avanza_def marco_def)
  have h: "historial_puntajes ?s3 = historial_puntajes s @ [mejor_puntaje_global ?s3]"
    using p by (simp add: paso_ok_def)
  have c: "acotado s \<longrightarrow> acotado ?s3"
    using p by (simp add: paso_ok_def acotado_def en_limites_def)
  have o: "ordenado s \<longrightarrow> ordenado ?s3"
  proof
    assume os: "ordenado s"
    have g: "mejor_puntaje_global s \<le> mejor_puntaje_global s2"
      using p by (simp add: paso_ok_def avanza_def)
    have "\<forall>h \<in> set (historial_puntajes s). h \<le> mejor_puntaje_global s2"
      using os g unfolding ordenado_def by (meson order_trans)
    then show "ordenado ?s3"
      using os unfolding ordenado_def h by (simp add: sorted_append)
  qed
  from it l a h c o show ?thesis by blast
qed

lemma iterar_ok:
  assumes "listo m s"
  shows "\<exists>s'. iterar k s = Inr s' \<and> listo m s' \<and> avanza s s'
            \<and> length (historial_puntajes s') = length (historial_puntajes s) + k
            \<and> (acotado s \<longrightarrow> acotado s') \<and> (ordenado s \<longrightarrow> ordenado s')"
  using assms
proof (induction k arbitrary: s)
  case 0
  then show ?case by (simp add: avanza_refl)
next
  case (Suc k)
  from iteracion_ok [OF Suc.prems] obtain s1 where
    s1: "iteracion s = Inr s1" "listo m s1" "avanza s s1"
        "historial_puntajes s1 = historial_puntajes s @ [mejor_puntaje_global s1]"
        "acotado s \<longrightarrow> acotado s1" "ordenado s \<longrightarrow> ordenado s1" by blast
  from Suc.IH [OF s1(2)] obtain s' where
    s': "iterar k s1 = Inr s'" "listo m s'" "avanza s1 s'"
        "length (historial_puntajes s') = length (historial_puntajes s1) + k"
        "acotado s1 \<longrightarrow> acotado s'" "ordenado s1 \<longrightarrow> ordenado s'" by blast
  have "iterar (Suc k) s = Inr s'" by (simp add: s1(1) s'(1))
  moreover have "avanza s s'" by (rule avanza_trans [OF s1(3) s'(3)])
  moreover have "length (historial_puntajes s') = length (historial_puntajes s) + Suc k"
    using s'(4) s1(4) by simp
  ultimately show ?case using s'(2,5,6) s1(5,6) by blast
qed

lemma iterar_suma:
  "iterar (a + b) s = (case iterar a s of Inl e \<Rightarrow> Inl e | Inr s1 \<Rightarrow> iterar b s1)"
  by (induction a arbitrary: s) (simp_all split: sum.splits)

subsection \<open>Construction\<close>

lemma serie_min_Min: "xs \<noteq> [] \<Longrightarrow> serie_min xs = Min (set xs)"
  by (cases xs) (simp_all add: serie_min_def Min.set_eq_fold [symmetric])

lemma serie_max_Max: "xs \<noteq> [] \<Longrightarrow> serie_max xs = Max (set xs)"
  by (cases xs) (simp_all add: serie_max_def Max.set_eq_fold [symmetric])

lemma serie_min_le_max: "xs \<noteq> [] \<Longrightarrow> serie_min xs \<le> serie_max xs"
  by (simp add: serie_min_Min serie_max_Max)

lemma np_uniform_rango:
  assumes "a \<le> b" "0 \<le> u" "u \<le> 1"
  shows "a \<le> np_uniform a b u \<and> np_uniform a b u \<le> b"
proof -
  have "0 \<le> (b - a) * u" using assms by simp
  moreover have "(b - a) * u \<le> (b - a) * 1" using assms by (intro mult_left_mono) simp_all
  ultimately show ?thesis by (simp add: np_uniform_def)
qed

lemma length_particula_azar: "length (particula_azar s c k) = 2 * k"
  by (induction k arbitrary: c) simp_all

lemma particula_azar_en_limites:
  assumes "lat_min s \<le> lat_max s" "lon_min s \<le> lon_max s" "\<forall>j. 0 \<le> azar s j \<and> azar s j \<le> 1"
  shows "en_limites s (particula_azar s c k)"
  using assms unfolding en_limites_def
  by (induction k arbitrary: c) (simp_all add: np_uniform_rango)

lemma particulas_azar_props:
  "length (particulas_azar s c k) = k"
  "\<forall>p \<in> set (particulas_azar s c k). length p = 2 * nat (n_sensores s)"
  by (induction k arbitrary: c) (simp_all add: length_particula_azar)

lemma particulas_azar_en_limites:
  assumes "lat_min s \<le> lat_max s" "lon_min s \<le> lon_max s" "\<forall>j. 0 \<le> azar s j \<and> azar s j \<le> 1"
  shows "\<forall>p \<in> set (particulas_azar s c k). en_limites s p"
  by (induction k arbitrary: c) (simp_all add: particula_azar_en_limites [OF assms])

lemma velocidades_azar_total:
  assumes "0 \<le> n_sensores s"
  shows "\<exists>vs. velocidades_azar s c k = Inr vs \<and> length vs = k
             \<and> (\<forall>v \<in> set vs. length v = 2 * nat (n_sensores s))"
proof (induction k arbitrary: c)
  case 0
  then show ?case by simp
next
  case (Suc k)
  obtain vs where vs: "velocidades_azar s (c + nat (n_sensores s * 2)) k = Inr vs" "length vs = k"
      "\<forall>v \<in> set vs. length v = 2 * nat (n_sensores s)"
    using Suc.IH by blast
  have "nat (n_sensores s * 2) = 2 * nat (n_sensores s)" using assms by linarith
  then show ?case using assms vs by (simp add: np_uniform_vector_def)
qed

lemma velocidades_azar_negativo:
  "n_sensores s < 0 \<Longrightarrow> velocidades_azar s c (Suc k) = Inl ValueError"
  by (simp add: np_uniform_vector_def)

lemma evaluar_todas_total:
  "(\<forall>p \<in> set ps. \<exists>v. evaluar_particula filas p = Inr v) \<Longrightarrow>
     \<exists>vs. evaluar_todas filas ps = Inr vs \<and> length vs = length ps"
proof (induction ps)
  case Nil
  then show ?case by simp
next
  case (Cons p ps)
  then obtain v vs where "evaluar_particula filas p = Inr v"
     "evaluar_todas filas ps = Inr vs" "length vs = length ps" by auto
  then show ?case by simp
qed

lemma evaluar_todas_Inr:
  "evaluar_todas filas ps = Inr vs \<Longrightarrow>
     length vs = length ps \<and> (\<forall>p \<in> set ps. \<exists>v. evaluar_particula filas p = Inr v)"
  by (induction ps arbitrary: vs) (auto split: sum.splits)

lemma evaluar_particula_Inr:
  assumes "evaluar_particula filas p = Inr v"
  shows "filas \<noteq> [] \<and> (\<forall>c. value_counts Texto filas c \<noteq> None) \<and> p \<noteq> []"
proof -
  from assms obtain ss where ss: "a_pares (formatear_sensores p) = Some ss"
      "funcion_objetivo Texto ss filas = Inr v"
    by (auto simp: evaluar_particula_def split: option.splits if_splits)
  from funcion_objetivo_Inr_cultivos [OF ss(2)] have
    f: "filas \<noteq> []" "\<forall>c. value_counts Texto filas c \<noteq> None" "ss \<noteq> []" by blast+
  have "p \<noteq> []" using ss(1) f(3) by (auto simp: formatear_sensores_Nil)
  with f show ?thesis by blast
qed

lemma argmax_bucle_cota: "mejor_i < i \<Longrightarrow> argmax_bucle xs i mejor_i mejor < i + length xs"
proof (induction xs arbitrary: i mejor_i mejor)
  case Nil
  then show ?case by simp
next
  case (Cons x xs)
  have a: "argmax_bucle xs (Suc i) i x < Suc i + length xs" by (rule Cons.IH) simp
  have b: "argmax_bucle xs (Suc i) mejor_i mejor < Suc i + length xs"
    by (rule Cons.IH) (use Cons.prems in simp)
  show ?case using a b by simp
qed

lemma np_argmax_total: "xs \<noteq> [] \<Longrightarrow> \<exists>i. np_argmax xs = Inr i \<and> i < length xs"
proof (cases xs)
  case Nil
  then show "xs \<noteq> [] \<Longrightarrow> ?thesis" by simp
next
  case (Cons x ys)
  have "argmax_bucle ys 1 0 x < 1 + length ys" by (rule argmax_bucle_cota) simp
  then show ?thesis using Cons by simp
qed

lemma velocidades_azar_cong:
  "azar s' = azar s \<Longrightarrow> n_sensores s' = n_sensores s \<Longrightarrow>
     velocidades_azar s' c k = velocidades_azar s c k"
  by (induction k arbitrary: c) (simp_all cong: sum.case_cong)

lemma inicializar_enjambre_forma:
  "inicializar_enjambre s =
     (if datos s = [] \<and> 1 \<le> n_particulas s \<and> 1 \<le> n_sensores s then Inl OverflowError
      else
     (case velocidades_azar s (cursor s + 2 * nat (n_sensores s) * nat (n_particulas s))
             (nat (n_particulas s)) of
        Inl e \<Rightarrow> Inl e
      | Inr vs \<Rightarrow>
         (case evaluar_todas (datos s) (particulas_azar s (cursor s) (nat (n_particulas s))) of
            Inl e \<Rightarrow> Inl e
          | Inr puntajes \<Rightarrow>
             (case np_argmax puntajes of
                Inl e \<Rightarrow> Inl e
              | Inr mejor_idx \<Rightarrow>
                  Inr (enjambre s (particulas_azar s (cursor s) (nat (n_particulas s)))
                         vs puntajes mejor_idx)))))"
proof -
  let ?ps = "particulas_azar s (cursor s) (nat (n_particulas s))"
  let ?s2 = "s\<lparr>cursor := cursor s + 2 * nat (n_sensores s) * nat (n_particulas s),
               memoria := ?ps, particulas := [0 ..< length ?ps]\<rparr>"
  have v: "velocidades_azar ?s2 c k = velocidades_azar s c k" for c k
    by (rule velocidades_azar_cong) simp_all
  have m: "map ((!) ?ps) [0 ..< length ?ps] = ?ps" by (rule map_nth)
  show ?thesis
    unfolding inicializar_enjambre_def inicializar_particulas_def inicializar_velocidades_def
    by (simp add: Let_def v m enjambre_def split: sum.splits)
qed

lemma PSOOptimizer_forma:
  "PSOOptimizer filas n m t az =
     (case inicializar_enjambre (estado_vacio filas n m t az) of
        Inl e \<Rightarrow> Inl e
      | Inr s \<Rightarrow> Inr (s\<lparr>historial_puntajes := []\<rparr>))"
  by (simp add: PSOOptimizer_def estado_vacio_def)

lemma estado_vacio_campos:
  "datos (estado_vacio filas n m t az) = filas"
  "n_sensores (estado_vacio filas n m t az) = n"
  "n_particulas (estado_vacio filas n m t az) = m"
  "max_iter (estado_vacio filas n m t az) = t"
  "azar (estado_vacio filas n m t az) = az"
  "cursor (estado_vacio filas n m t az) = 0"
  "lat_min (estado_vacio filas n m t az) = serie_min (map Latitud filas)"
  "lat_max (estado_vacio filas n m t az) = serie_max (map Latitud filas)"
  "lon_min (estado_vacio filas n m t az) = serie_min (map Longitud filas)"
  "lon_max (estado_vacio filas n m t az) = serie_max (map Longitud filas)"
  by (simp_all add: estado_vacio_def)

lemma PSOOptimizer_Inr:
  assumes "PSOOptimizer filas n m t az = Inr s0"
  shows "\<exists>vs puntajes mejor_idx.
           velocidades_azar (estado_vacio filas n m t az) (2 * nat n * nat m) (nat m) = Inr vs
         \<and> evaluar_todas filas (particulas_azar (estado_vacio filas n m t az) 0 (nat m)) = Inr puntajes
         \<and> np_argmax puntajes = Inr mejor_idx
         \<and> s0 = (enjambre (estado_vacio filas n m t az)
                    (particulas_azar (estado_vacio filas n m t az) 0 (nat m))
                    vs puntajes mejor_idx)\<lparr>historial_puntajes := []\<rparr>"
  using assms
  by (auto simp: PSOOptimizer_forma inicializar_enjambre_forma estado_vacio_campos
           split: if_splits sum.splits)

lemma np_argmax_Inr: "np_argmax xs = Inr i \<Longrightarrow> xs \<noteq> [] \<and> i < length xs"
  using np_argmax_total [of xs] by (cases xs) auto

lemma PSOOptimizer_Inr_entradas:
  assumes "PSOOptimizer filas n m t az = Inr s0"
  shows "filas \<noteq> [] \<and> (\<forall>c. value_counts Texto filas c \<noteq> None) \<and> 1 \<le> n \<and> 1 \<le> m"
proof -
  let ?e = "estado_vacio filas n m t az"
  let ?ps = "particulas_azar ?e 0 (nat m)"
  from PSOOptimizer_Inr [OF assms] obtain vs puntajes mejor_idx where
    h: "evaluar_todas filas ?ps = Inr puntajes" "np_argmax puntajes = Inr mejor_idx" by blast
  from np_argmax_Inr [OF h(2)] have pn: "puntajes \<noteq> []" by simp
  from evaluar_todas_Inr [OF h(1)] have
    l: "length puntajes = length ?ps" and ev: "\<forall>p \<in> set ?ps. \<exists>v. evaluar_particula filas p = Inr v"
    by blast+
  have lm: "length ?ps = nat m" by (rule particulas_azar_props(1))
  then have m: "1 \<le> m" using pn l by (cases "m \<le> 0") auto
  then have "?ps \<noteq> []" using lm by auto
  then obtain p where p: "p \<in> set ?ps" by (cases ?ps) auto
  with ev obtain v where "evaluar_particula filas p = Inr v" by blast
  from evaluar_particula_Inr [OF this] have
    f: "filas \<noteq> []" and c: "\<forall>c. value_counts Texto filas c \<noteq> None" "p \<noteq> []"
    by blast+
  have "length p = 2 * nat (n_sensores ?e)" using particulas_azar_props(2) p by blast
  then have "1 \<le> n" using c(2) by (cases "n \<le> 0") (auto simp: estado_vacio_campos)
  with f c(1) m show ?thesis by blast
qed

lemma PSOOptimizer_total:
  assumes "filas \<noteq> []" "\<forall>c. value_counts Texto filas c \<noteq> None" "1 \<le> n" "1 \<le> m"
  shows "\<exists>s0. PSOOptimizer filas n m t az = Inr s0"
proof -
  let ?e = "estado_vacio filas n m t az"
  let ?ps = "particulas_azar ?e 0 (nat m)"
  have n0: "0 \<le> n_sensores ?e" using assms(3) by (simp add: estado_vacio_campos)
  from velocidades_azar_total [OF n0] obtain vs where
    vs: "velocidades_azar ?e (2 * nat n * nat m) (nat m) = Inr vs" by blast
  have "\<forall>p \<in> set ?ps. \<exists>v. evaluar_particula filas p = Inr v"
  proof
    fix p assume "p \<in> set ?ps"
    then have "length p = 2 * nat n"
      using particulas_azar_props(2) [of ?e 0 "nat m"] by (simp add: estado_vacio_campos)
    moreover have "1 \<le> nat n" using assms(3) by simp
    ultimately show "\<exists>v. evaluar_particula filas p = Inr v"
      using evaluar_particula_total [OF assms(1,2)] by blast
  qed
  from evaluar_todas_total [OF this] obtain puntajes where
    pu: "evaluar_todas filas ?ps = Inr puntajes" "length puntajes = length ?ps" by blast
  have "length ?ps = nat m" by (rule particulas_azar_props(1))
  then have "puntajes \<noteq> []" using pu(2) assms(4) by auto
  from np_argmax_total [OF this] obtain i where i: "np_argmax puntajes = Inr i" by blast
  show ?thesis
    using assms(1) vs pu(1) i
    by (simp add: PSOOptimizer_forma inicializar_enjambre_forma estado_vacio_campos)
qed

lemma PSOOptimizer_estado:
  assumes "PSOOptimizer filas n m t az = Inr s0"
  shows "listo m s0"
    and "datos s0 = filas" and "n_sensores s0 = n" and "max_iter s0 = t"
    and "historial_puntajes s0 = []" and "azar s0 = az"
    and "lat_min s0 = serie_min (map Latitud filas)"
    and "lat_max s0 = serie_max (map Latitud filas)"
    and "lon_min s0 = serie_min (map Longitud filas)"
    and "lon_max s0 = serie_max (map Longitud filas)"
    and "mejores_locales s0 = particulas s0"
    and "(\<forall>j. 0 \<le> az j \<and> az j \<le> 1) \<Longrightarrow> acotado s0"
proof -
  let ?e = "estado_vacio filas n m t az"
  let ?ps = "particulas_azar ?e 0 (nat m)"
  from PSOOptimizer_Inr [OF assms] obtain vs puntajes mejor_idx where
    h: "velocidades_azar ?e (2 * nat n * nat m) (nat m) = Inr vs"
       "evaluar_todas filas ?ps = Inr puntajes" "np_argmax puntajes = Inr mejor_idx"
       "s0 = (enjambre ?e ?ps vs puntajes mejor_idx)\<lparr>historial_puntajes := []\<rparr>" by blast
  from PSOOptimizer_Inr_entradas [OF assms] have
    e: "filas \<noteq> []" "\<forall>c. value_counts Texto filas c \<noteq> None" "1 \<le> n" "1 \<le> m" by blast+
  have n0: "0 \<le> n_sensores ?e" using e(3) by (simp add: estado_vacio_campos)
  from velocidades_azar_total [OF n0, of "2 * nat n * nat m" "nat m"] h(1) have
    vs: "length vs = nat m" "\<forall>v \<in> set vs. length v = 2 * nat n"
    by (simp_all add: estado_vacio_campos)
  have ps: "length ?ps = nat m" "\<forall>p \<in> set ?ps. length p = 2 * nat n"
    using particulas_azar_props [of ?e 0 "nat m"] by (simp_all add: estado_vacio_campos)
  from evaluar_todas_Inr [OF h(2)] have pu: "length puntajes = nat m" using ps(1) by simp
  from np_argmax_Inr [OF h(3)] have i: "mejor_idx < nat m" using pu by simp
  have g: "?ps ! ([0 ..< length ?ps] ! mejor_idx) = ?ps ! mejor_idx" using i ps(1) by simp
  have gm: "?ps ! mejor_idx \<in> set ?ps" using i ps(1) by simp
  show "listo m s0"
    unfolding h(4) listo_def bien_formado_def enjambre_def g
    using e vs ps pu gm by (simp add: estado_vacio_campos)
  show "datos s0 = filas" "n_sensores s0 = n" "max_iter s0 = t" "historial_puntajes s0 = []"
       "azar s0 = az" "lat_min s0 = serie_min (map Latitud filas)"
       "lat_max s0 = serie_max (map Latitud filas)"
       "lon_min s0 = serie_min (map Longitud filas)"
       "lon_max s0 = serie_max (map Longitud filas)"
       "mejores_locales s0 = particulas s0"
    unfolding h(4) enjambre_def by (simp_all add: estado_vacio_campos)
  show "acotado s0" if az: "\<forall>j. 0 \<le> az j \<and> az j \<le> 1"
  proof -
    have b: "lat_min ?e \<le> lat_max ?e" "lon_min ?e \<le> lon_max ?e"
      using e(1) by (simp_all add: estado_vacio_campos serie_min_le_max)
    have a: "\<forall>j. 0 \<le> azar ?e j \<and> azar ?e j \<le> 1" using az by (simp add: estado_vacio_campos)
    have l: "\<forall>p \<in> set ?ps. en_limites ?e p" by (rule particulas_azar_en_limites [OF b a])
    then have "en_limites ?e (?ps ! mejor_idx)" using gm by blast
    then show ?thesis
      unfolding h(4) acotado_def enjambre_def g en_limites_def
      using b l by (simp add: en_limites_def)
  qed
qed

lemma ordenado_inicial: "historial_puntajes s = [] \<Longrightarrow> ordenado s"
  by (simp add: ordenado_def)

subsection \<open>The sample swarm\<close>

lemma sqrt_le_cuadrado: "0 \<le> r \<Longrightarrow> sqrt x \<le> r \<longleftrightarrow> x \<le> r\<^sup>2"
  using real_sqrt_le_iff [of x "r\<^sup>2"] by simp

lemma distancia_le_iff:
  "0 \<le> r \<Longrightarrow> calcular_distancia a b \<le> r \<longleftrightarrow> (fst a - fst b)\<^sup>2 + (snd a - snd b)\<^sup>2 \<le> r\<^sup>2"
  by (simp add: calcular_distancia_def sqrt_le_cuadrado)

lemma credito_cobertura_lejos:
  assumes "(36 / 1000)\<^sup>2 \<le> (fst a - fst b)\<^sup>2 + (snd a - snd b)\<^sup>2"
  shows "credito_cobertura (calcular_distancia a b) = 0"
proof -
  have "sqrt ((36 / 1000)\<^sup>2) \<le> calcular_distancia a b"
    unfolding calcular_distancia_def using assms by (rule real_sqrt_le_mono)
  then have "36 / 1000 \<le> calcular_distancia a b" by simp
  then show ?thesis by (simp add: credito_cobertura_def CONFIG_def Let_def)
qed

lemma cubierto_cuadrados:
  "0 \<le> r \<Longrightarrow>
     cubierto r ss p =
       list_ex (\<lambda>s. (Latitud p - fst s)\<^sup>2 + (Longitud p - snd s)\<^sup>2 \<le> r\<^sup>2) ss"
  by (simp add: cubierto_def distancia_le_iff punto_coords_def)

lemma cultivos_ejemplo: "\<forall>c. value_counts Texto datos_ejemplo c \<noteq> None"
proof
  fix c show "value_counts Texto datos_ejemplo c \<noteq> None"
    by (cases c) (simp_all add: value_counts_def datos_ejemplo_def)
qed

lemma fo_lejos:
  "funcion_objetivo Texto [(3 / 4, 3 / 4)] datos_ejemplo = Inr (19 / 60)"
  by (simp add: funcion_objetivo_def calcular_cobertura_variabilidad_def
        balance_entre_cultivos_def cubrir_zonas_problematicas_def optimizar_distancias_def
        puntaje_total_def datos_ejemplo_def punto_coords_def
        credito_cobertura_lejos cubierto_cuadrados
        value_counts_def conteo_cubierto_def es_critica_def
        CONFIG_def py_div_def np_div_def con_nan_def Let_def power2_eq_square)

lemma no_cubierto:
  assumes "0 \<le> r" "r < 36 / 1000"
    and "(36 / 1000)\<^sup>2 \<le> (Latitud p - a)\<^sup>2 + (Longitud p - b)\<^sup>2"
  shows "\<not> cubierto r [(a, b)] p"
proof -
  have "r * r < (36 / 1000) * (36 / 1000)"
    using assms(1,2) by (intro mult_strict_mono') simp_all
  then have "r\<^sup>2 < (36 / 1000)\<^sup>2" by (simp add: power2_eq_square)
  then show ?thesis using assms(1,3) by (simp add: cubierto_cuadrados)
qed

lemma evaluar_lejos:
  assumes "(36 / 1000)\<^sup>2 \<le> (0 - a)\<^sup>2 + (0 - b)\<^sup>2"
          "(36 / 1000)\<^sup>2 \<le> (1 - a)\<^sup>2 + (0 - b)\<^sup>2"
          "(36 / 1000)\<^sup>2 \<le> (0 - a)\<^sup>2 + (1 - b)\<^sup>2"
  shows "evaluar_particula datos_ejemplo [a, b] = Inr (19 / 60)"
proof -
  have f: "formatear_sensores [a, b] = [[a, b]]"
    by (simp add: formatear_sensores_Cons2 formatear_sensores_Nil)
  have c: "credito_cobertura (calcular_distancia (0, 0) (a, b)) = 0"
          "credito_cobertura (calcular_distancia (1, 0) (a, b)) = 0"
          "credito_cobertura (calcular_distancia (0, 1) (a, b)) = 0"
    using assms by (simp_all add: credito_cobertura_lejos)
  have l: "\<And>p. p \<in> set datos_ejemplo \<Longrightarrow>
             (36 / 1000)\<^sup>2 \<le> (Latitud p - a)\<^sup>2 + (Longitud p - b)\<^sup>2"
    using assms by (auto simp: datos_ejemplo_def)
  have fl: "filter (cubierto (radio_influencia CONFIG) [(a, b)]) (filter P datos_ejemplo) = []"
           "filter (cubierto (1 / 100) [(a, b)]) (filter P datos_ejemplo) = []" for P
    using no_cubierto [OF _ _ l] by (auto simp: filter_empty_conv CONFIG_def)
  have cob: "calcular_cobertura_variabilidad [(a, b)] datos_ejemplo = Inr 0"
    using c by (simp add: calcular_cobertura_variabilidad_def datos_ejemplo_def punto_coords_def
                  py_div_def)
  have vc: "value_counts Texto datos_ejemplo c = Some 1" for c
    by (cases c) (simp_all add: value_counts_def datos_ejemplo_def)
  have ld: "length datos_ejemplo = 3" by (simp add: datos_ejemplo_def)
  have bal: "balance_entre_cultivos Texto [(a, b)] datos_ejemplo = Inr (2 / 3)"
    unfolding balance_entre_cultivos_def balance_bucle.simps conteo_cubierto_def fl vc ld
    by (simp add: py_div_def np_div_def con_nan_def Let_def)
  have cri: "cubrir_zonas_problematicas [(a, b)] datos_ejemplo = Inr 0"
    unfolding cubrir_zonas_problematicas_def Let_def fl
    by (simp add: datos_ejemplo_def es_critica_def py_div_def)
  have "funcion_objetivo Texto [(a, b)] datos_ejemplo = Inr (19 / 60)"
    by (simp add: funcion_objetivo_def cob bal cri optimizar_distancias_def puntaje_total_def
          CONFIG_def)
  then show ?thesis by (simp add: evaluar_particula_def f)
qed

lemma upt_0_2: "[0 ..< 2] = [0, 1]"
  by (simp add: numeral_2_eq_2)

lemma limites_ejemplo:
  "serie_min (map Latitud datos_ejemplo) = 0" "serie_max (map Latitud datos_ejemplo) = 1"
  "serie_min (map Longitud datos_ejemplo) = 0" "serie_max (map Longitud datos_ejemplo) = 1"
  by (simp_all add: serie_min_def serie_max_def datos_ejemplo_def)

lemma datos_ejemplo_no_vacio: "datos_ejemplo \<noteq> []"
  by (simp add: datos_ejemplo_def)

lemma construir_ejemplo: "PSOOptimizer datos_ejemplo 1 1 1 az_ejemplo = Inr enjambre_ejemplo"
proof -
  have e: "evaluar_particula datos_ejemplo [3 / 4, 3 / 4] = Inr (19 / 60)"
    by (rule evaluar_lejos) (simp_all add: power2_eq_square)
  show ?thesis
    by (simp add: PSOOptimizer_def datos_ejemplo_no_vacio limites_ejemplo PSO_CONFIG_def
          inicializar_enjambre_def inicializar_particulas_def inicializar_velocidades_def
          np_uniform_vector_def np_uniform_def az_ejemplo_def e enjambre_ejemplo_def Let_def
          upt_0_2)
qed

lemma iteracion_ejemplo: "iteracion enjambre_ejemplo = Inr enjambre_tras_una"
proof -
  have e: "evaluar_particula datos_ejemplo [3 / 4, 3 / 4] = Inr (19 / 60)"
    by (rule evaluar_lejos) (simp_all add: power2_eq_square)
  have a: "actualizar_mejores_posiciones enjambre_ejemplo = Inr enjambre_ejemplo"
    by (simp add: actualizar_mejores_posiciones_def actualizar_mejor_def enjambre_ejemplo_def e)
  have m: "actualizar_velocidades_posiciones enjambre_ejemplo =
             Inr (enjambre_tras_una\<lparr>historial_puntajes := []\<rparr>)"
    by (simp add: actualizar_velocidades_posiciones_def mover_particula_def
          aplicar_restricciones_def np_clip_def enjambre_ejemplo_def enjambre_tras_una_def
          az_ejemplo_def Let_def)
  show ?thesis
    by (simp add: iteracion_def a m) (simp add: enjambre_tras_una_def)
qed

text \<open>
  Claim C6 fails on the code. In the sample swarm the first round evaluates the particle at
  exactly its stored personal best score, so no best is replaced by the comparison; yet after
  the round the stored personal best position is the moved position: \<open>mejores_locales\<close>
  holds the particle's own array, which the move changes in place.
\<close>

theorem mejor_local_alias_ejemplo:
  "PSOOptimizer datos_ejemplo 1 1 1 az_ejemplo = Inr enjambre_ejemplo
   \<and> iteracion enjambre_ejemplo = Inr enjambre_tras_una
   \<and> evaluar_particula (datos enjambre_ejemplo)
        (memoria enjambre_ejemplo ! (particulas enjambre_ejemplo ! 0))
      = Inr (mejores_puntajes_locales enjambre_ejemplo ! 0)
   \<and> mejores_puntajes_locales enjambre_tras_una ! 0 = mejores_puntajes_locales enjambre_ejemplo ! 0
   \<and> memoria enjambre_ejemplo ! (mejores_locales enjambre_ejemplo ! 0) = [3 / 4, 3 / 4]
   \<and> memoria enjambre_tras_una ! (mejores_locales enjambre_tras_una ! 0)
      = [15007 / 20000, 15007 / 20000]"
proof -
  have e: "evaluar_particula datos_ejemplo [3 / 4, 3 / 4] = Inr (19 / 60)"
    by (rule evaluar_lejos) (simp_all add: power2_eq_square)
  show ?thesis
    using construir_ejemplo iteracion_ejemplo e
    by (simp add: enjambre_ejemplo_def enjambre_tras_una_def)
qed

subsection \<open>Every coordinate is clipped\<close>

lemma restringir_nth:
  "restringir s p = Inr r \<Longrightarrow>
     length r = length p
   \<and> (\<forall>j < length p. r ! j = (if even j then np_clip (p ! j) (lat_min s) (lat_max s)
                                 else np_clip (p ! j) (lon_min s) (lon_max s)))"
proof (induction p arbitrary: r rule: de_dos_en_dos)
  case Nil
  then show ?case by simp
next
  case (uno x)
  then show ?case by simp
next
  case (Cons2 x y zs)
  from Cons2.prems obtain r' where
    r': "restringir s zs = Inr r'"
        "r = np_clip x (lat_min s) (lat_max s) # np_clip y (lon_min s) (lon_max s) # r'"
    by (auto split: sum.splits)
  from Cons2.IH [OF r'(1)] have
    ih: "length r' = length zs"
        "\<forall>j < length zs. r' ! j = (if even j then np_clip (zs ! j) (lat_min s) (lat_max s)
                                    else np_clip (zs ! j) (lon_min s) (lon_max s))" by blast+
  have "r ! j = (if even j then np_clip ((x # y # zs) ! j) (lat_min s) (lat_max s)
                 else np_clip ((x # y # zs) ! j) (lon_min s) (lon_max s))"
    if "j < length (x # y # zs)" for j
  proof (cases j)
    case 0
    then show ?thesis by (simp add: r'(2))
  next
    case (Suc j1)
    show ?thesis
    proof (cases j1)
      case 0
      then show ?thesis using Suc by (simp add: r'(2))
    next
      case (Suc j2)
      then have "j2 < length zs" using that \<open>j = Suc j1\<close> by simp
      then show ?thesis using ih(2) Suc \<open>j = Suc j1\<close> by (simp add: r'(2))
    qed
  qed
  then show ?case using ih(1) r'(2) by simp
qed

lemma restringir_Inr_par: "restringir s p = Inr r \<Longrightarrow> even (length p)"
  using restringir_impar [of p s] by (cases "even (length p)") auto

lemma mover_particula_Inr:
  assumes "mover_particula i s = Inr s'"
  shows "\<exists>r. restringir (tras_velocidad i s) (memoria (tras_velocidad i s) ! (particulas s ! i)) = Inr r
            \<and> s' = (tras_velocidad i s)\<lparr>memoria := (memoria (tras_velocidad i s))[particulas s ! i := r]\<rparr>"
proof -
  have p: "particulas (tras_velocidad i s) = particulas s"
    using tras_velocidad_marco [of s i] by (simp add: marco_def)
  show ?thesis
    using assms unfolding mover_particula_forma aplicar_restricciones_def p
    by (auto split: sum.splits)
qed

lemma mover_particula_puntajes:
  assumes "mover_particula i s = Inr s'"
  shows "mejor_puntaje_global s' = mejor_puntaje_global s"
    and "mejores_puntajes_locales s' = mejores_puntajes_locales s"
    and "marco s s'"
proof -
  from mover_particula_Inr [OF assms] obtain r where
    r: "s' = (tras_velocidad i s)\<lparr>memoria := (memoria (tras_velocidad i s))[particulas s ! i := r]\<rparr>"
    by blast
  show "mejor_puntaje_global s' = mejor_puntaje_global s"
       "mejores_puntajes_locales s' = mejores_puntajes_locales s"
    unfolding r by (simp_all add: tras_velocidad_def Let_def)
  show "marco s s'" using tras_velocidad_marco [of s i] unfolding r by (simp add: marco_def)
qed

lemma mover_particula_recorte:
  assumes "mover_particula i s = Inr s'" "particulas s ! i < length (memoria s)"
  shows "length (memoria s' ! (particulas s' ! i))
           = length (memoria (tras_velocidad i s) ! (particulas s ! i))"
    and "j < length (memoria s' ! (particulas s' ! i)) \<Longrightarrow>
           memoria s' ! (particulas s' ! i) ! j =
             (if even j
              then np_clip (memoria (tras_velocidad i s) ! (particulas s ! i) ! j)
                     (lat_min s) (lat_max s)
              else np_clip (memoria (tras_velocidad i s) ! (particulas s ! i) ! j)
                     (lon_min s) (lon_max s))"
    and "lat_min s \<le> lat_max s \<Longrightarrow> lon_min s \<le> lon_max s \<Longrightarrow>
           en_limites s (memoria s' ! (particulas s' ! i))"
proof -
  let ?t = "tras_velocidad i s"
  let ?a = "particulas s ! i"
  from mover_particula_Inr [OF assms(1)] obtain r where
    r: "restringir ?t (memoria ?t ! ?a) = Inr r" "s' = ?t\<lparr>memoria := (memoria ?t)[?a := r]\<rparr>"
    by blast
  have mt: "marco s ?t" by (rule tras_velocidad_marco)
  have lt: "length (memoria ?t) = length (memoria s)" by (simp add: tras_velocidad_def Let_def)
  have ps: "particulas s' = particulas s" unfolding r(2) using mt by (simp add: marco_def)
  have m: "memoria s' ! (particulas s' ! i) = r"
    unfolding ps unfolding r(2) using assms(2) lt by simp
  note n = restringir_nth [OF r(1)]
  have b: "lat_min ?t = lat_min s" "lat_max ?t = lat_max s" "lon_min ?t = lon_min s"
          "lon_max ?t = lon_max s"
    using mt by (simp_all add: marco_def)
  show "length (memoria s' ! (particulas s' ! i)) = length (memoria ?t ! ?a)"
    unfolding m using n by simp
  show "j < length (memoria s' ! (particulas s' ! i)) \<Longrightarrow>
           memoria s' ! (particulas s' ! i) ! j =
             (if even j then np_clip (memoria ?t ! ?a ! j) (lat_min s) (lat_max s)
              else np_clip (memoria ?t ! ?a ! j) (lon_min s) (lon_max s))"
    unfolding m using n b by simp
  show "lat_min s \<le> lat_max s \<Longrightarrow> lon_min s \<le> lon_max s \<Longrightarrow>
           en_limites s (memoria s' ! (particulas s' ! i))"
    unfolding m
    using restringir_par [OF restringir_Inr_par [OF r(1)], of ?t] r(1) b
    by (simp add: en_limites_def)
qed

lemma dentro_formatear:
  "even (length p) \<Longrightarrow> dentro la lb lo lob p \<Longrightarrow> sensor \<in> set (formatear_sensores p) \<Longrightarrow>
     \<exists>lat lon. sensor = [lat, lon] \<and> la \<le> lat \<and> lat \<le> lb \<and> lo \<le> lon \<and> lon \<le> lob"
proof (induction p rule: de_dos_en_dos)
  case Nil
  then show ?case by (simp add: formatear_sensores_Nil)
next
  case (uno x)
  then show ?case by simp
next
  case (Cons2 x y zs)
  from Cons2.prems(3) have "sensor = [x, y] \<or> sensor \<in> set (formatear_sensores zs)"
    unfolding formatear_sensores_Cons2 by simp
  then show ?case
  proof
    assume "sensor = [x, y]"
    then show ?thesis using Cons2.prems(2) by simp
  next
    assume "sensor \<in> set (formatear_sensores zs)"
    moreover have "even (length zs)" "dentro la lb lo lob zs" using Cons2.prems by simp_all
    ultimately show ?thesis using Cons2.IH by blast
  qed
qed

lemma iterar_uno: "iterar (Suc 0) s = iteracion s"
  by (simp split: sum.splits)

lemma iterar_Suc_final:
  "iterar (Suc k) s = (case iterar k s of Inl e \<Rightarrow> Inl e | Inr s1 \<Rightarrow> iteracion s1)"
  using iterar_suma [of k "Suc 0" s] unfolding iterar_uno by simp

lemma cultivos_un_lugar: "\<forall>c. value_counts Texto datos_un_lugar c \<noteq> None"
proof
  fix c show "value_counts Texto datos_un_lugar c \<noteq> None"
    by (cases c) (simp_all add: value_counts_def datos_un_lugar_def)
qed

subsection \<open>The run\<close>

lemma optimizar_forma:
  assumes "iterar (nat (max_iter s)) s = Inr s'"
  shows "optimizar s = Inr ((formatear_sensores (mejor_global s'), mejor_puntaje_global s'), s')"
  by (simp add: optimizar_def assms)

text \<open>
  Claim C9. On a constructed optimizer, \<open>optimizar\<close> returns: it runs the round
  (update the bests, move, record) once for each of the \<open>max_iter\<close> iterations, with no
  other exit, every round appends exactly the global best score to the history, so that the
  history has \<open>max_iter\<close> entries after the run, and the result is the global best
  position cut into \<open>n_sensores\<close> pairs together with the global best score.
\<close>

theorem optimizar_agota_iteraciones:
  assumes "PSOOptimizer filas n m t az = Inr s0"
  shows "\<exists>s'. iterar (nat t) s0 = Inr s'
          \<and> optimizar s0 =
              Inr ((formatear_sensores (mejor_global s'), mejor_puntaje_global s'), s')
          \<and> length (formatear_sensores (mejor_global s')) = nat n
          \<and> length (historial_puntajes s') = nat t
          \<and> (0 \<le> t \<longrightarrow> int (length (historial_puntajes s')) = t)
          \<and> (\<forall>k < nat t. \<exists>sk sk1.
                iterar k s0 = Inr sk \<and> length (historial_puntajes sk) = k
              \<and> iteracion sk = Inr sk1 \<and> iterar (Suc k) s0 = Inr sk1
              \<and> historial_puntajes sk1 = historial_puntajes sk @ [mejor_puntaje_global sk1])"
proof -
  note e = PSOOptimizer_estado [OF assms]
  from iterar_ok [OF e(1), of "nat t"] obtain s' where
    s': "iterar (nat t) s0 = Inr s'" "listo m s'" "avanza s0 s'"
        "length (historial_puntajes s') = length (historial_puntajes s0) + nat t" by blast
  have o: "optimizar s0 =
             Inr ((formatear_sensores (mejor_global s'), mejor_puntaje_global s'), s')"
    by (rule optimizar_forma) (simp add: e(4) s'(1))
  have "n_sensores s' = n" using s'(3) e(3) by (simp add: avanza_def marco_def)
  then have "length (mejor_global s') = 2 * nat n"
    using s'(2) by (simp add: listo_def bien_formado_def)
  then have f: "length (formatear_sensores (mejor_global s')) = nat n"
    by (simp add: length_formatear_sensores)
  have h: "length (historial_puntajes s') = nat t" using s'(4) e(5) by simp
  have k: "\<exists>sk sk1. iterar k s0 = Inr sk \<and> length (historial_puntajes sk) = k
              \<and> iteracion sk = Inr sk1 \<and> iterar (Suc k) s0 = Inr sk1
              \<and> historial_puntajes sk1 = historial_puntajes sk @ [mejor_puntaje_global sk1]"
    for k
  proof -
    from iterar_ok [OF e(1), of k] obtain sk where
      sk: "iterar k s0 = Inr sk" "listo m sk"
          "length (historial_puntajes sk) = length (historial_puntajes s0) + k" by blast
    from iteracion_ok [OF sk(2)] obtain sk1 where
      sk1: "iteracion sk = Inr sk1"
           "historial_puntajes sk1 = historial_puntajes sk @ [mejor_puntaje_global sk1]" by blast
    have "iterar (Suc k) s0 = Inr sk1" unfolding iterar_Suc_final by (simp add: sk(1) sk1(1))
    then show ?thesis using sk sk1 e(5) by auto
  qed
  from s'(1) o f h k show ?thesis by auto
qed

text \<open>The theorem on the sample swarm of one particle and one iteration.\<close>

theorem optimizar_agota_iteraciones_witness:
  "PSOOptimizer datos_ejemplo 1 1 1 az_ejemplo = Inr enjambre_ejemplo
   \<and> iterar (nat 1) enjambre_ejemplo = Inr enjambre_tras_una
   \<and> optimizar enjambre_ejemplo = Inr (([[3 / 4, 3 / 4]], 19 / 60), enjambre_tras_una)
   \<and> historial_puntajes enjambre_tras_una = [19 / 60]
   \<and> int (length (historial_puntajes enjambre_tras_una)) = 1"
proof -
  from optimizar_agota_iteraciones [OF construir_ejemplo] obtain s' where
    s': "iterar (nat 1) enjambre_ejemplo = Inr s'"
        "optimizar enjambre_ejemplo =
           Inr ((formatear_sensores (mejor_global s'), mejor_puntaje_global s'), s')"
        "int (length (historial_puntajes s')) = 1" by auto
  have i: "iterar (nat 1) enjambre_ejemplo = Inr enjambre_tras_una"
    by (simp add: iteracion_ejemplo)
  then have eq: "s' = enjambre_tras_una" using s'(1) by simp
  have f: "formatear_sensores (mejor_global enjambre_tras_una) = [[3 / 4, 3 / 4]]"
    by (simp add: enjambre_tras_una_def formatear_sensores_Cons2 formatear_sensores_Nil)
  have g: "mejor_puntaje_global enjambre_tras_una = 19 / 60"
          "historial_puntajes enjambre_tras_una = [19 / 60]"
    by (simp_all add: enjambre_tras_una_def)
  from s'(2,3) i f g construir_ejemplo show ?thesis unfolding eq by simp
qed

lemma iterar_alcanzado:
  assumes "listo m s" "iterar k s = Inr sk"
  shows "listo m sk" and "avanza s sk" and "acotado s \<Longrightarrow> acotado sk"
    and "ordenado s \<Longrightarrow> ordenado sk"
    and "length (historial_puntajes sk) = length (historial_puntajes s) + k"
  using iterar_ok [OF assms(1), of k] assms(2) by auto

text \<open>
  Claim C7. Let the samples of the generator lie in \<open>[0, 1)\<close> and let the optimizer be
  constructed; its bounds are the extrema of the data. Then (1) after any number of rounds
  every particle has every latitude and longitude within the bounds; (2) a position update
  leaves at each coordinate the moved value clipped to the bounds of its kind, hence a value
  within the bounds; (3) a moved latitude beyond \<open>lat_max\<close> is clipped to exactly
  \<open>lat_max\<close>; (4) \<open>optimizar\<close> returns, and every sensor it returns is a pair within the
  extrema of the data.
\<close>

theorem posiciones_en_limites:
  assumes "\<forall>j. 0 \<le> az j \<and> az j < 1" and "PSOOptimizer filas n m t az = Inr s0"
  shows "lat_min s0 = serie_min (map Latitud filas) \<and> lat_max s0 = serie_max (map Latitud filas)
       \<and> lon_min s0 = serie_min (map Longitud filas) \<and> lon_max s0 = serie_max (map Longitud filas)
       \<and> lat_min s0 \<le> lat_max s0 \<and> lon_min s0 \<le> lon_max s0
       \<and> (\<forall>k sk. iterar k s0 = Inr sk \<longrightarrow>
             (\<forall>i < nat m. en_limites s0 (memoria sk ! (particulas sk ! i))))
       \<and> (\<forall>s i s'. particulas s ! i < length (memoria s) \<longrightarrow> mover_particula i s = Inr s' \<longrightarrow>
             (\<forall>j < length (memoria s' ! (particulas s' ! i)).
                memoria s' ! (particulas s' ! i) ! j =
                  (if even j
                   then np_clip (memoria (tras_velocidad i s) ! (particulas s ! i) ! j)
                          (lat_min s) (lat_max s)
                   else np_clip (memoria (tras_velocidad i s) ! (particulas s ! i) ! j)
                          (lon_min s) (lon_max s)))
           \<and> (lat_min s \<le> lat_max s \<longrightarrow> lon_min s \<le> lon_max s \<longrightarrow>
                en_limites s (memoria s' ! (particulas s' ! i))))
       \<and> (\<forall>x. lat_max s0 < x \<longrightarrow> np_clip x (lat_min s0) (lat_max s0) = lat_max s0)
       \<and> (\<exists>sensores puntaje s'.
             optimizar s0 = Inr ((sensores, puntaje), s')
           \<and> (\<forall>sensor \<in> set sensores. \<exists>lat lon. sensor = [lat, lon]
                 \<and> serie_min (map Latitud filas) \<le> lat \<and> lat \<le> serie_max (map Latitud filas)
                 \<and> serie_min (map Longitud filas) \<le> lon \<and> lon \<le> serie_max (map Longitud filas)))"
proof -
  have az: "\<forall>j. 0 \<le> az j \<and> az j \<le> 1" using assms(1) by (simp add: less_imp_le)
  note e = PSOOptimizer_estado [OF assms(2)]
  have ac: "acotado s0" by (rule e(12) [OF az])
  have b: "lat_min s0 \<le> lat_max s0" "lon_min s0 \<le> lon_max s0"
    using ac by (simp_all add: acotado_def)
  have A: "\<forall>k sk. iterar k s0 = Inr sk \<longrightarrow>
             (\<forall>i < nat m. en_limites s0 (memoria sk ! (particulas sk ! i)))"
  proof (intro allI impI)
    fix k sk i assume it: "iterar k s0 = Inr sk" and i: "i < nat m"
    note r = iterar_alcanzado [OF e(1) it]
    have n: "i < nat (n_particulas sk)" using r(1) i by (simp add: listo_def)
    have bf: "bien_formado sk" using r(1) by (simp add: listo_def)
    have "memoria sk ! (particulas sk ! i) \<in> set (memoria sk)"
      using bien_formado_particula(1) [OF bf n] by simp
    then have "en_limites sk (memoria sk ! (particulas sk ! i))"
      using r(3) [OF ac] by (simp add: acotado_def)
    moreover have "marco s0 sk" using r(2) by (simp add: avanza_def)
    ultimately show "en_limites s0 (memoria sk ! (particulas sk ! i))"
      using en_limites_marco by simp
  qed
  have B: "\<forall>s i s'. particulas s ! i < length (memoria s) \<longrightarrow> mover_particula i s = Inr s' \<longrightarrow>
             (\<forall>j < length (memoria s' ! (particulas s' ! i)).
                memoria s' ! (particulas s' ! i) ! j =
                  (if even j
                   then np_clip (memoria (tras_velocidad i s) ! (particulas s ! i) ! j)
                          (lat_min s) (lat_max s)
                   else np_clip (memoria (tras_velocidad i s) ! (particulas s ! i) ! j)
                          (lon_min s) (lon_max s)))
           \<and> (lat_min s \<le> lat_max s \<longrightarrow> lon_min s \<le> lon_max s \<longrightarrow>
                en_limites s (memoria s' ! (particulas s' ! i)))"
    using mover_particula_recorte(2,3) by blast
  have C: "\<forall>x. lat_max s0 < x \<longrightarrow> np_clip x (lat_min s0) (lat_max s0) = lat_max s0"
    using np_clip_tope [OF b(1)] by blast
  have D: "\<exists>sensores puntaje s'.
             optimizar s0 = Inr ((sensores, puntaje), s')
           \<and> (\<forall>sensor \<in> set sensores. \<exists>lat lon. sensor = [lat, lon]
                 \<and> serie_min (map Latitud filas) \<le> lat \<and> lat \<le> serie_max (map Latitud filas)
                 \<and> serie_min (map Longitud filas) \<le> lon \<and> lon \<le> serie_max (map Longitud filas))"
  proof -
    from iterar_ok [OF e(1), of "nat t"] obtain s' where
      s': "iterar (nat t) s0 = Inr s'" by blast
    note r = iterar_alcanzado [OF e(1) s']
    have o: "optimizar s0 =
               Inr ((formatear_sensores (mejor_global s'), mejor_puntaje_global s'), s')"
      by (rule optimizar_forma) (simp add: e(4) s')
    have m: "marco s0 s'" using r(2) by (simp add: avanza_def)
    have "en_limites s' (mejor_global s')" using r(3) [OF ac] by (simp add: acotado_def)
    then have d: "dentro (serie_min (map Latitud filas)) (serie_max (map Latitud filas))
                    (serie_min (map Longitud filas)) (serie_max (map Longitud filas))
                    (mejor_global s')"
      using m e(7,8,9,10) by (simp add: en_limites_def marco_def)
    have "even (length (mejor_global s'))"
      using r(1) by (simp add: listo_def bien_formado_def)
    from dentro_formatear [OF this d] o show ?thesis by blast
  qed
  from e(7,8,9,10) b A B C D show ?thesis by blast
qed

lemma az_ejemplo_rango: "\<forall>j. 0 \<le> az_ejemplo j \<and> az_ejemplo j < 1"
  by (simp add: az_ejemplo_def)

lemma optimizar_ejemplo:
  "optimizar enjambre_ejemplo = Inr (([[3 / 4, 3 / 4]], 19 / 60), enjambre_tras_una)"
proof -
  have i: "iterar (nat (max_iter enjambre_ejemplo)) enjambre_ejemplo = Inr enjambre_tras_una"
    by (simp add: iteracion_ejemplo enjambre_ejemplo_def [THEN arg_cong [of _ _ max_iter]])
  show ?thesis
    unfolding optimizar_forma [OF i]
    by (simp add: enjambre_tras_una_def formatear_sensores_Cons2 formatear_sensores_Nil)
qed

lemma mover_borde:
  "memoria (tras_velocidad 0 enjambre_borde) ! (particulas enjambre_borde ! 0) = [2007 / 2000, 3 / 4]"
  "mover_particula 0 enjambre_borde =
     Inr (enjambre_borde\<lparr>cursor := 6, velocidades := [[7 / 2000, 0]],
                          memoria := [[1, 3 / 4]]\<rparr>)"
  by (simp_all add: mover_particula_def tras_velocidad_def aplicar_restricciones_def np_clip_def
        enjambre_borde_def enjambre_ejemplo_def az_ejemplo_def Let_def)

text \<open>
  The theorem on the sample swarm: the particle is within the bounds after the round, the
  run returns the sensor \<open>[0.75, 0.75]\<close>, and a particle at latitude 1 with velocity 0.005
  is moved to 1.0035 and clipped to exactly \<open>lat_max = 1\<close>.
\<close>

theorem posiciones_en_limites_witness:
  "(\<forall>j. 0 \<le> az_ejemplo j \<and> az_ejemplo j < 1)
   \<and> PSOOptimizer datos_ejemplo 1 1 1 az_ejemplo = Inr enjambre_ejemplo
   \<and> iterar 1 enjambre_ejemplo = Inr enjambre_tras_una
   \<and> en_limites enjambre_ejemplo (memoria enjambre_tras_una ! (particulas enjambre_tras_una ! 0))
   \<and> optimizar enjambre_ejemplo = Inr (([[3 / 4, 3 / 4]], 19 / 60), enjambre_tras_una)
   \<and> particulas enjambre_borde ! 0 < length (memoria enjambre_borde)
   \<and> memoria (tras_velocidad 0 enjambre_borde) ! (particulas enjambre_borde ! 0) ! 0 = 2007 / 2000
   \<and> lat_max enjambre_borde = 1
   \<and> (\<exists>s'. mover_particula 0 enjambre_borde = Inr s'
          \<and> memoria s' ! (particulas s' ! 0) ! 0 = lat_max enjambre_borde)"
proof -
  note t = posiciones_en_limites [OF az_ejemplo_rango construir_ejemplo]
  have i: "iterar 1 enjambre_ejemplo = Inr enjambre_tras_una" by (simp add: iteracion_ejemplo)
  from t have "\<forall>k sk. iterar k enjambre_ejemplo = Inr sk \<longrightarrow>
             (\<forall>i < nat 1. en_limites enjambre_ejemplo (memoria sk ! (particulas sk ! i)))"
    by (elim conjE)
  moreover have "(0::nat) < nat 1" by simp
  ultimately have a: "en_limites enjambre_ejemplo
                    (memoria enjambre_tras_una ! (particulas enjambre_tras_una ! 0))"
    using i by blast
  obtain s' where s': "mover_particula 0 enjambre_borde = Inr s'"
    using mover_borde(2) by blast
  have v: "particulas enjambre_borde ! 0 < length (memoria enjambre_borde)"
    by (simp add: enjambre_borde_def enjambre_ejemplo_def)
  have l: "length (memoria s' ! (particulas s' ! 0)) = 2"
    using s' unfolding mover_borde(2) by (auto simp: enjambre_borde_def enjambre_ejemplo_def)
  from t have "\<forall>s i s'. particulas s ! i < length (memoria s) \<longrightarrow> mover_particula i s = Inr s' \<longrightarrow>
             (\<forall>j < length (memoria s' ! (particulas s' ! i)).
                memoria s' ! (particulas s' ! i) ! j =
                  (if even j
                   then np_clip (memoria (tras_velocidad i s) ! (particulas s ! i) ! j)
                          (lat_min s) (lat_max s)
                   else np_clip (memoria (tras_velocidad i s) ! (particulas s ! i) ! j)
                          (lon_min s) (lon_max s)))
           \<and> (lat_min s \<le> lat_max s \<longrightarrow> lon_min s \<le> lon_max s \<longrightarrow>
                en_limites s (memoria s' ! (particulas s' ! i)))"
    by (elim conjE)
  with v s' l have
    "memoria s' ! (particulas s' ! 0) ! 0 =
       np_clip (memoria (tras_velocidad 0 enjambre_borde) ! (particulas enjambre_borde ! 0) ! 0)
         (lat_min enjambre_borde) (lat_max enjambre_borde)"
    by force
  then have b: "memoria s' ! (particulas s' ! 0) ! 0 = lat_max enjambre_borde"
    unfolding mover_borde(1)
    by (simp add: np_clip_def enjambre_borde_def enjambre_ejemplo_def)
  have c: "memoria (tras_velocidad 0 enjambre_borde) ! (particulas enjambre_borde ! 0) ! 0
             = 2007 / 2000"
    unfolding mover_borde(1) by simp
  have d: "lat_max enjambre_borde = 1" by (simp add: enjambre_borde_def enjambre_ejemplo_def)
  from az_ejemplo_rango construir_ejemplo i a optimizar_ejemplo v c d s' b
  show ?thesis by blast
qed

text \<open>
  Claim C8. On a constructed optimizer: from any number of rounds to any later one the
  global best score and every particle's personal best score do not decrease; inside a round
  the update of the bests only raises them and the move leaves them as they are; and the
  history that a run leaves is sorted in non-decreasing order.
\<close>

theorem puntajes_no_decrecen:
  assumes "PSOOptimizer filas n m t az = Inr s0"
  shows "(\<forall>a b sa sb. iterar a s0 = Inr sa \<longrightarrow> iterar (a + b) s0 = Inr sb \<longrightarrow>
            mejor_puntaje_global sa \<le> mejor_puntaje_global sb
          \<and> (\<forall>i < nat m. mejores_puntajes_locales sa ! i \<le> mejores_puntajes_locales sb ! i))
       \<and> (\<forall>s i s'. actualizar_mejor i s = Inr s' \<longrightarrow>
            mejor_puntaje_global s \<le> mejor_puntaje_global s'
          \<and> (\<forall>j < length (mejores_puntajes_locales s).
                mejores_puntajes_locales s ! j \<le> mejores_puntajes_locales s' ! j))
       \<and> (\<forall>s i s'. mover_particula i s = Inr s' \<longrightarrow>
            mejor_puntaje_global s' = mejor_puntaje_global s
          \<and> mejores_puntajes_locales s' = mejores_puntajes_locales s)
       \<and> (\<exists>resultado s'. optimizar s0 = Inr (resultado, s')
            \<and> length (historial_puntajes s') = nat t
            \<and> sorted (historial_puntajes s'))"
proof -
  note e = PSOOptimizer_estado [OF assms]
  have A: "\<forall>a b sa sb. iterar a s0 = Inr sa \<longrightarrow> iterar (a + b) s0 = Inr sb \<longrightarrow>
            mejor_puntaje_global sa \<le> mejor_puntaje_global sb
          \<and> (\<forall>i < nat m. mejores_puntajes_locales sa ! i \<le> mejores_puntajes_locales sb ! i)"
  proof (intro allI impI)
    fix a b sa sb assume sa: "iterar a s0 = Inr sa" and sb: "iterar (a + b) s0 = Inr sb"
    have l: "listo m sa" by (rule iterar_alcanzado(1) [OF e(1) sa])
    have "iterar b sa = Inr sb" using sb unfolding iterar_suma by (simp add: sa)
    from iterar_alcanzado(2) [OF l this] have av: "avanza sa sb" .
    have "length (mejores_puntajes_locales sa) = nat m"
      using l by (simp add: listo_def bien_formado_def)
    then show "mejor_puntaje_global sa \<le> mejor_puntaje_global sb
          \<and> (\<forall>i < nat m. mejores_puntajes_locales sa ! i \<le> mejores_puntajes_locales sb ! i)"
      using av by (simp add: avanza_def)
  qed
  have B: "\<forall>s i s'. actualizar_mejor i s = Inr s' \<longrightarrow>
            mejor_puntaje_global s \<le> mejor_puntaje_global s'
          \<and> (\<forall>j < length (mejores_puntajes_locales s).
                mejores_puntajes_locales s ! j \<le> mejores_puntajes_locales s' ! j)"
    using actualizar_mejor_Inr tras_mejor_puntajes(1) tras_mejor_puntaje_local by blast
  have C: "\<forall>s i s'. mover_particula i s = Inr s' \<longrightarrow>
            mejor_puntaje_global s' = mejor_puntaje_global s
          \<and> mejores_puntajes_locales s' = mejores_puntajes_locales s"
    using mover_particula_puntajes(1,2) by blast
  have D: "\<exists>resultado s'. optimizar s0 = Inr (resultado, s')
            \<and> length (historial_puntajes s') = nat t
            \<and> sorted (historial_puntajes s')"
  proof -
    from iterar_ok [OF e(1), of "nat t"] obtain s' where
      s': "iterar (nat t) s0 = Inr s'" by blast
    note r = iterar_alcanzado [OF e(1) s']
    have o: "optimizar s0 =
               Inr ((formatear_sensores (mejor_global s'), mejor_puntaje_global s'), s')"
      by (rule optimizar_forma) (simp add: e(4) s')
    have "ordenado s'" by (rule r(4) [OF ordenado_inicial [OF e(5)]])
    then have "sorted (historial_puntajes s')" by (simp add: ordenado_def)
    moreover have "length (historial_puntajes s') = nat t" using r(5) e(5) by simp
    ultimately show ?thesis using o by blast
  qed
  from A B C D show ?thesis by blast
qed

text \<open>The theorem on the sample swarm: its one round leaves the history \<open>[19/60]\<close>.\<close>

theorem puntajes_no_decrecen_witness:
  "PSOOptimizer datos_ejemplo 1 1 1 az_ejemplo = Inr enjambre_ejemplo
   \<and> iterar 0 enjambre_ejemplo = Inr enjambre_ejemplo
   \<and> iterar (0 + 1) enjambre_ejemplo = Inr enjambre_tras_una
   \<and> mejor_puntaje_global enjambre_ejemplo \<le> mejor_puntaje_global enjambre_tras_una
   \<and> mejores_puntajes_locales enjambre_ejemplo ! 0 \<le> mejores_puntajes_locales enjambre_tras_una ! 0
   \<and> optimizar enjambre_ejemplo = Inr (([[3 / 4, 3 / 4]], 19 / 60), enjambre_tras_una)
   \<and> historial_puntajes enjambre_tras_una = [19 / 60]
   \<and> sorted (historial_puntajes enjambre_tras_una)"
proof -
  note t = puntajes_no_decrecen [OF construir_ejemplo]
  have i0: "iterar 0 enjambre_ejemplo = Inr enjambre_ejemplo" by simp
  have i1: "iterar (0 + 1) enjambre_ejemplo = Inr enjambre_tras_una"
    by (simp add: iteracion_ejemplo)
  from t have "\<forall>a b sa sb. iterar a enjambre_ejemplo = Inr sa \<longrightarrow>
            iterar (a + b) enjambre_ejemplo = Inr sb \<longrightarrow>
            mejor_puntaje_global sa \<le> mejor_puntaje_global sb
          \<and> (\<forall>i < nat 1. mejores_puntajes_locales sa ! i \<le> mejores_puntajes_locales sb ! i)"
    by (elim conjE)
  moreover have "(0::nat) < nat 1" by simp
  ultimately have a:
    "mejor_puntaje_global enjambre_ejemplo \<le> mejor_puntaje_global enjambre_tras_una"
    "mejores_puntajes_locales enjambre_ejemplo ! 0 \<le> mejores_puntajes_locales enjambre_tras_una ! 0"
    using i0 i1 by blast+
  from t obtain resultado s' where
    "optimizar enjambre_ejemplo = Inr (resultado, s')" "sorted (historial_puntajes s')"
    by (elim conjE exE)
  then have s: "sorted (historial_puntajes enjambre_tras_una)"
    unfolding optimizar_ejemplo by simp
  have h: "historial_puntajes enjambre_tras_una = [19 / 60]"
    by (simp add: enjambre_tras_una_def)
  from construir_ejemplo i0 i1 a optimizar_ejemplo h s show ?thesis by blast
qed

text \<open>
  Claim C10. A vector of even length \<open>2 k\<close> is cut into exactly \<open>k\<close> lists of two
  entries whose concatenation, in order, is the vector again; and the configuration that
  \<open>optimizar\<close> returns on a constructed optimizer has exactly \<open>n_sensores\<close> pairs, which
  are the global best vector in order.
\<close>

theorem formatear_sensores_sin_perdida:
  assumes "length particula = 2 * k"
  shows "length (formatear_sensores particula) = k
       \<and> (\<forall>sensor \<in> set (formatear_sensores particula). length sensor = 2)
       \<and> concat (formatear_sensores particula) = particula
       \<and> (\<forall>filas n m t az s0 sensores puntaje s'.
            PSOOptimizer filas n m t az = Inr s0 \<longrightarrow>
            optimizar s0 = Inr ((sensores, puntaje), s') \<longrightarrow>
              length sensores = nat n \<and> (\<forall>sensor \<in> set sensores. length sensor = 2)
            \<and> concat sensores = mejor_global s' \<and> length (mejor_global s') = 2 * nat n)"
proof -
  have R: "length sensores = nat n \<and> (\<forall>sensor \<in> set sensores. length sensor = 2)
            \<and> concat sensores = mejor_global s' \<and> length (mejor_global s') = 2 * nat n"
    if c: "PSOOptimizer filas n m t az = Inr s0"
      and o: "optimizar s0 = Inr ((sensores, puntaje), s')"
    for filas n m t az s0 sensores puntaje s'
  proof -
    note e = PSOOptimizer_estado [OF c]
    from o have s': "iterar (nat t) s0 = Inr s'" "sensores = formatear_sensores (mejor_global s')"
      by (auto simp: optimizar_def e(4) split: sum.splits)
    note r = iterar_alcanzado [OF e(1) s'(1)]
    have "n_sensores s' = n" using r(2) e(3) by (simp add: avanza_def marco_def)
    then have l: "length (mejor_global s') = 2 * nat n"
      using r(1) by (simp add: listo_def bien_formado_def)
    from formatear_sensores_ida_y_vuelta [OF l] l show ?thesis unfolding s'(2) by blast
  qed
  from formatear_sensores_ida_y_vuelta [OF assms] R show ?thesis by blast
qed

text \<open>The theorem on a vector of four entries and on the sample swarm.\<close>

theorem formatear_sensores_sin_perdida_witness:
  "length [1, 2, 3, 4 :: real] = 2 * 2
   \<and> formatear_sensores [1, 2, 3, 4] = [[1, 2], [3, 4]]
   \<and> length (formatear_sensores [1, 2, 3, 4]) = 2
   \<and> concat (formatear_sensores [1, 2, 3, 4]) = [1, 2, 3, 4]
   \<and> PSOOptimizer datos_ejemplo 1 1 1 az_ejemplo = Inr enjambre_ejemplo
   \<and> optimizar enjambre_ejemplo = Inr (([[3 / 4, 3 / 4]], 19 / 60), enjambre_tras_una)
   \<and> length [[3 / 4, 3 / 4 :: real]] = nat 1
   \<and> concat [[3 / 4, 3 / 4]] = mejor_global enjambre_tras_una"
proof -
  have l: "length [1, 2, 3, 4 :: real] = 2 * 2" by simp
  note t = formatear_sensores_sin_perdida [OF l]
  have f: "formatear_sensores [1, 2, 3, 4] = [[1, 2], [3, 4]]"
    by (simp add: formatear_sensores_Cons2 formatear_sensores_Nil)
  from t have a: "length (formatear_sensores [1, 2, 3, 4 :: real]) = 2"
                 "concat (formatear_sensores [1, 2, 3, 4 :: real]) = [1, 2, 3, 4]"
    by blast+
  from t have "\<forall>filas n m t az s0 sensores puntaje s'.
            PSOOptimizer filas n m t az = Inr s0 \<longrightarrow>
            optimizar s0 = Inr ((sensores, puntaje), s') \<longrightarrow>
              length sensores = nat n \<and> (\<forall>sensor \<in> set sensores. length sensor = 2)
            \<and> concat sensores = mejor_global s' \<and> length (mejor_global s') = 2 * nat n"
    by (elim conjE)
  with construir_ejemplo optimizar_ejemplo have
    b: "length [[3 / 4, 3 / 4 :: real]] = nat 1"
       "concat [[3 / 4, 3 / 4]] = mejor_global enjambre_tras_una"
    by blast+
  from l f a construir_ejemplo optimizar_ejemplo b show ?thesis by blast
qed

subsection \<open>Dependence on the generator\<close>

lemma con_azar_simps:
  "con_azar az' (Inl e) = Inl e" "con_azar az' (Inr s) = Inr (s\<lparr>azar := az'\<rparr>)"
  by (simp_all add: con_azar_def)

lemma coinciden_sub:
  "coinciden az az' a b \<Longrightarrow> a \<le> a' \<Longrightarrow> b' \<le> b \<Longrightarrow> coinciden az az' a' b'"
  by (simp add: coinciden_def)

lemma restringir_cong:
  "lat_min s' = lat_min s \<Longrightarrow> lat_max s' = lat_max s \<Longrightarrow> lon_min s' = lon_min s \<Longrightarrow>
     lon_max s' = lon_max s \<Longrightarrow> restringir s' p = restringir s p"
  by (induction p rule: de_dos_en_dos) (simp_all cong: sum.case_cong)

lemma tras_mejor_azar: "tras_mejor i v (s\<lparr>azar := az'\<rparr>) = (tras_mejor i v s)\<lparr>azar := az'\<rparr>"
  by (simp add: tras_mejor_def Let_def)

lemma actualizar_mejor_azar:
  "actualizar_mejor i (s\<lparr>azar := az'\<rparr>) = con_azar az' (actualizar_mejor i s)"
  by (cases "evaluar_particula (datos s) (memoria s ! (particulas s ! i))")
     (simp_all add: actualizar_mejor_forma tras_mejor_azar con_azar_simps)

lemma actualizar_mejor_cursor:
  assumes "actualizar_mejor i s = Inr s1"
  shows "cursor s1 = cursor s \<and> azar s1 = azar s \<and> n_particulas s1 = n_particulas s
       \<and> max_iter s1 = max_iter s"
proof -
  from actualizar_mejor_Inr [OF assms] obtain v where v: "s1 = tras_mejor i v s" by blast
  show ?thesis unfolding v using tras_mejor_marco [of s i v] tras_mejor_puntajes(4) [of i v s]
    by (simp add: marco_def)
qed

lemma tras_velocidad_azar:
  assumes "coinciden (azar s) az' (cursor s) (cursor s + 2)"
  shows "tras_velocidad i (s\<lparr>azar := az'\<rparr>) = (tras_velocidad i s)\<lparr>azar := az'\<rparr>"
proof -
  have a: "az' (cursor s) = azar s (cursor s)" "az' (Suc (cursor s)) = azar s (Suc (cursor s))"
    using assms by (simp_all add: coinciden_def)
  show ?thesis by (simp add: tras_velocidad_def Let_def a)
qed

lemma aplicar_restricciones_azar:
  "aplicar_restricciones i (x\<lparr>azar := az'\<rparr>) = con_azar az' (aplicar_restricciones i x)"
proof -
  have r: "restringir (x\<lparr>azar := az'\<rparr>) p = restringir x p" for p
    by (rule restringir_cong) simp_all
  show ?thesis
    by (cases "restringir x (memoria x ! (particulas x ! i))")
       (simp_all add: aplicar_restricciones_def r con_azar_simps)
qed

lemma mover_particula_azar:
  assumes "coinciden (azar s) az' (cursor s) (cursor s + 2)"
  shows "mover_particula i (s\<lparr>azar := az'\<rparr>) = con_azar az' (mover_particula i s)"
  unfolding mover_particula_forma tras_velocidad_azar [OF assms] aplicar_restricciones_azar ..

lemma mover_particula_cursor:
  assumes "mover_particula i s = Inr s1"
  shows "cursor s1 = cursor s + 2 \<and> azar s1 = azar s \<and> n_particulas s1 = n_particulas s
       \<and> max_iter s1 = max_iter s"
proof -
  from mover_particula_Inr [OF assms] obtain r where
    r: "s1 = (tras_velocidad i s)\<lparr>memoria := (memoria (tras_velocidad i s))[particulas s ! i := r]\<rparr>"
    by blast
  show ?thesis unfolding r by (simp add: tras_velocidad_def Let_def)
qed

lemma bucle_actualizar_azar:
  "bucle actualizar_mejor js (s\<lparr>azar := az'\<rparr>) = con_azar az' (bucle actualizar_mejor js s)"
proof (induction js arbitrary: s)
  case Nil
  then show ?case by (simp add: con_azar_simps)
next
  case (Cons j js)
  show ?case
  proof (cases "actualizar_mejor j s")
    case (Inl e)
    then show ?thesis by (simp add: actualizar_mejor_azar con_azar_simps)
  next
    case (Inr s1)
    then show ?thesis by (simp add: actualizar_mejor_azar con_azar_simps Cons.IH)
  qed
qed

lemma bucle_actualizar_cursor:
  "bucle actualizar_mejor js s = Inr s1 \<Longrightarrow>
     cursor s1 = cursor s \<and> azar s1 = azar s \<and> n_particulas s1 = n_particulas s
   \<and> max_iter s1 = max_iter s"
proof (induction js arbitrary: s)
  case Nil
  then show ?case by simp
next
  case (Cons j js)
  from Cons.prems obtain s2 where s2: "actualizar_mejor j s = Inr s2"
      "bucle actualizar_mejor js s2 = Inr s1"
    by (auto split: sum.splits)
  from Cons.IH [OF s2(2)] actualizar_mejor_cursor [OF s2(1)] show ?case by simp
qed

lemma bucle_mover_cursor:
  "bucle mover_particula js s = Inr s1 \<Longrightarrow>
     cursor s1 = cursor s + 2 * length js \<and> azar s1 = azar s
   \<and> n_particulas s1 = n_particulas s \<and> max_iter s1 = max_iter s"
proof (induction js arbitrary: s)
  case Nil
  then show ?case by simp
next
  case (Cons j js)
  from Cons.prems obtain s2 where s2: "mover_particula j s = Inr s2"
      "bucle mover_particula js s2 = Inr s1"
    by (auto split: sum.splits)
  from Cons.IH [OF s2(2)] mover_particula_cursor [OF s2(1)] show ?case by simp
qed

lemma bucle_mover_azar:
  "coinciden (azar s) az' (cursor s) (cursor s + 2 * length js) \<Longrightarrow>
     bucle mover_particula js (s\<lparr>azar := az'\<rparr>) = con_azar az' (bucle mover_particula js s)"
proof (induction js arbitrary: s)
  case Nil
  then show ?case by (simp add: con_azar_simps)
next
  case (Cons j js)
  have c: "coinciden (azar s) az' (cursor s) (cursor s + 2)"
    by (rule coinciden_sub [OF Cons.prems]) simp_all
  show ?case
  proof (cases "mover_particula j s")
    case (Inl e)
    then show ?thesis by (simp add: mover_particula_azar [OF c] con_azar_simps)
  next
    case (Inr s1)
    note k = mover_particula_cursor [OF Inr]
    have "coinciden (azar s) az' (cursor s + 2) (cursor s + 2 + 2 * length js)"
      by (rule coinciden_sub [OF Cons.prems]) simp_all
    then have "coinciden (azar s1) az' (cursor s1) (cursor s1 + 2 * length js)"
      using k by simp
    from Cons.IH [OF this] show ?thesis
      by (simp add: mover_particula_azar [OF c] Inr con_azar_simps)
  qed
qed

lemma actualizar_mejores_posiciones_azar:
  "actualizar_mejores_posiciones (s\<lparr>azar := az'\<rparr>) = con_azar az' (actualizar_mejores_posiciones s)"
  by (simp add: actualizar_mejores_posiciones_def bucle_actualizar_azar)

lemma actualizar_velocidades_posiciones_azar:
  assumes "coinciden (azar s) az' (cursor s) (cursor s + 2 * nat (n_particulas s))"
  shows "actualizar_velocidades_posiciones (s\<lparr>azar := az'\<rparr>)
           = con_azar az' (actualizar_velocidades_posiciones s)"
proof -
  have "coinciden (azar s) az' (cursor s) (cursor s + 2 * length [0 ..< nat (n_particulas s)])"
    using assms by simp
  from bucle_mover_azar [OF this] show ?thesis
    by (simp add: actualizar_velocidades_posiciones_def)
qed

lemma iteracion_cursor:
  assumes "iteracion s = Inr s'"
  shows "cursor s' = cursor s + 2 * nat (n_particulas s) \<and> azar s' = azar s
       \<and> n_particulas s' = n_particulas s \<and> max_iter s' = max_iter s"
proof -
  from assms obtain s1 s2 where
    s: "actualizar_mejores_posiciones s = Inr s1" "actualizar_velocidades_posiciones s1 = Inr s2"
       "s' = s2\<lparr>historial_puntajes := historial_puntajes s2 @ [mejor_puntaje_global s2]\<rparr>"
    by (auto simp: iteracion_def split: sum.splits)
  note a = bucle_actualizar_cursor [OF s(1) [unfolded actualizar_mejores_posiciones_def]]
  note b = bucle_mover_cursor [OF s(2) [unfolded actualizar_velocidades_posiciones_def]]
  show ?thesis unfolding s(3) using a b by simp
qed

lemma iteracion_azar:
  assumes "coinciden (azar s) az' (cursor s) (cursor s + 2 * nat (n_particulas s))"
  shows "iteracion (s\<lparr>azar := az'\<rparr>) = con_azar az' (iteracion s)"
proof (cases "actualizar_mejores_posiciones s")
  case (Inl e)
  then show ?thesis
    by (simp add: iteracion_def actualizar_mejores_posiciones_azar con_azar_simps)
next
  case (Inr s1)
  note a = bucle_actualizar_cursor [OF Inr [unfolded actualizar_mejores_posiciones_def]]
  have c: "coinciden (azar s1) az' (cursor s1) (cursor s1 + 2 * nat (n_particulas s1))"
    using assms a by simp
  show ?thesis
  proof (cases "actualizar_velocidades_posiciones s1")
    case (Inl e)
    then show ?thesis
      by (simp add: iteracion_def actualizar_mejores_posiciones_azar Inr con_azar_simps
            actualizar_velocidades_posiciones_azar [OF c])
  next
    case s2: (Inr s2)
    show ?thesis
      by (simp add: iteracion_def actualizar_mejores_posiciones_azar Inr con_azar_simps
            actualizar_velocidades_posiciones_azar [OF c] s2)
  qed
qed

lemma iterar_azar:
  "coinciden (azar s) az' (cursor s) (cursor s + 2 * nat (n_particulas s) * k) \<Longrightarrow>
     iterar k (s\<lparr>azar := az'\<rparr>) = con_azar az' (iterar k s)"
proof (induction k arbitrary: s)
  case 0
  then show ?case by (simp add: con_azar_simps)
next
  case (Suc k)
  have c: "coinciden (azar s) az' (cursor s) (cursor s + 2 * nat (n_particulas s))"
    by (rule coinciden_sub [OF Suc.prems]) simp_all
  show ?case
  proof (cases "iteracion s")
    case (Inl e)
    then show ?thesis by (simp add: iteracion_azar [OF c] con_azar_simps)
  next
    case (Inr s1)
    note i = iteracion_cursor [OF Inr]
    have "coinciden (azar s) az' (cursor s + 2 * nat (n_particulas s))
            (cursor s + 2 * nat (n_particulas s) + 2 * nat (n_particulas s) * k)"
      by (rule coinciden_sub [OF Suc.prems]) simp_all
    then have "coinciden (azar s1) az' (cursor s1) (cursor s1 + 2 * nat (n_particulas s1) * k)"
      using i by simp
    from Suc.IH [OF this] show ?thesis
      by (simp add: iteracion_azar [OF c] Inr con_azar_simps)
  qed
qed

lemma optimizar_azar:
  assumes "coinciden (azar s) az' (cursor s) (cursor s + 2 * nat (n_particulas s) * nat (max_iter s))"
  shows "optimizar (s\<lparr>azar := az'\<rparr>) =
           (case optimizar s of Inl e \<Rightarrow> Inl e
            | Inr (resultado, s1) \<Rightarrow> Inr (resultado, s1\<lparr>azar := az'\<rparr>))"
  by (cases "iterar (nat (max_iter s)) s")
     (simp_all add: optimizar_def iterar_azar [OF assms] con_azar_simps)

lemma particula_azar_azar:
  "coinciden (azar s) az' c (c + 2 * k) \<Longrightarrow>
     particula_azar (s\<lparr>azar := az'\<rparr>) c k = particula_azar s c k"
proof (induction k arbitrary: c)
  case 0
  then show ?case by simp
next
  case (Suc k)
  have a: "az' c = azar s c" "az' (Suc c) = azar s (Suc c)"
    using Suc.prems by (simp_all add: coinciden_def)
  have "coinciden (azar s) az' (c + 2) (c + 2 + 2 * k)"
    by (rule coinciden_sub [OF Suc.prems]) simp_all
  from Suc.IH [OF this] show ?case by (simp add: a)
qed

lemma particulas_azar_azar:
  "coinciden (azar s) az' c (c + 2 * nat (n_sensores s) * k) \<Longrightarrow>
     particulas_azar (s\<lparr>azar := az'\<rparr>) c k = particulas_azar s c k"
proof (induction k arbitrary: c)
  case 0
  then show ?case by simp
next
  case (Suc k)
  have a: "coinciden (azar s) az' c (c + 2 * nat (n_sensores s))"
    by (rule coinciden_sub [OF Suc.prems]) simp_all
  have "coinciden (azar s) az' (c + 2 * nat (n_sensores s))
          (c + 2 * nat (n_sensores s) + 2 * nat (n_sensores s) * k)"
    by (rule coinciden_sub [OF Suc.prems]) simp_all
  from Suc.IH [OF this] show ?case by (simp add: particula_azar_azar [OF a])
qed

lemma np_uniform_vector_azar:
  assumes "coinciden az az' c (c + nat tam)"
  shows "np_uniform_vector low high az' c tam = np_uniform_vector low high az c tam"
proof -
  have "az' (c + j) = az (c + j)" if "j < nat tam" for j
    using assms that by (simp add: coinciden_def)
  then show ?thesis by (simp add: np_uniform_vector_def)
qed

lemma velocidades_azar_azar:
  "coinciden (azar s) az' c (c + nat (n_sensores s * 2) * k) \<Longrightarrow>
     velocidades_azar (s\<lparr>azar := az'\<rparr>) c k = velocidades_azar s c k"
proof (induction k arbitrary: c)
  case 0
  then show ?case by simp
next
  case (Suc k)
  have a: "coinciden (azar s) az' c (c + nat (n_sensores s * 2))"
    by (rule coinciden_sub [OF Suc.prems]) simp_all
  have "coinciden (azar s) az' (c + nat (n_sensores s * 2))
          (c + nat (n_sensores s * 2) + nat (n_sensores s * 2) * k)"
    by (rule coinciden_sub [OF Suc.prems]) simp_all
  from Suc.IH [OF this] show ?case
    by (simp add: np_uniform_vector_azar [OF a] cong: sum.case_cong)
qed

lemma enjambre_azar:
  "enjambre (s\<lparr>azar := az'\<rparr>) ps vs puntajes mejor_idx
     = (enjambre s ps vs puntajes mejor_idx)\<lparr>azar := az'\<rparr>"
  by (simp add: enjambre_def)

lemma inicializar_enjambre_azar:
  assumes "coinciden (azar s) az' (cursor s)
             (cursor s + 2 * nat (n_sensores s) * nat (n_particulas s)
                + nat (n_sensores s * 2) * nat (n_particulas s))"
  shows "inicializar_enjambre (s\<lparr>azar := az'\<rparr>) = con_azar az' (inicializar_enjambre s)"
proof -
  have p: "particulas_azar (s\<lparr>azar := az'\<rparr>) (cursor s) (nat (n_particulas s))
             = particulas_azar s (cursor s) (nat (n_particulas s))"
    by (rule particulas_azar_azar) (rule coinciden_sub [OF assms], simp_all)
  have v: "velocidades_azar (s\<lparr>azar := az'\<rparr>)
             (cursor s + 2 * nat (n_sensores s) * nat (n_particulas s)) (nat (n_particulas s))
           = velocidades_azar s
               (cursor s + 2 * nat (n_sensores s) * nat (n_particulas s)) (nat (n_particulas s))"
    by (rule velocidades_azar_azar) (rule coinciden_sub [OF assms], simp_all)
  show ?thesis
    unfolding inicializar_enjambre_forma
    by (simp add: p v enjambre_azar con_azar_def split: sum.splits)
qed

lemma estado_vacio_azar:
  "estado_vacio filas n m t az' = (estado_vacio filas n m t az)\<lparr>azar := az'\<rparr>"
  by (simp add: estado_vacio_def)

lemma PSOOptimizer_azar:
  assumes "coinciden az az' 0 (2 * nat n * nat m + nat (n * 2) * nat m)"
  shows "PSOOptimizer filas n m t az' = con_azar az' (PSOOptimizer filas n m t az)"
proof -
  let ?e = "estado_vacio filas n m t az"
  have "coinciden (azar ?e) az' (cursor ?e)
          (cursor ?e + 2 * nat (n_sensores ?e) * nat (n_particulas ?e)
             + nat (n_sensores ?e * 2) * nat (n_particulas ?e))"
    using assms by (simp add: estado_vacio_campos)
  from inicializar_enjambre_azar [OF this] show ?thesis
    unfolding PSOOptimizer_forma estado_vacio_azar [of filas n m t az' az]
    by (simp add: con_azar_def split: sum.splits)
qed

lemma PSOOptimizer_cursor:
  assumes "PSOOptimizer filas n m t az = Inr s0"
  shows "cursor s0 = 2 * nat n * nat m + nat (n * 2) * nat m" and "azar s0 = az"
    and "n_particulas s0 = m" and "max_iter s0 = t"
proof -
  from PSOOptimizer_Inr [OF assms] obtain vs puntajes mejor_idx where
    h: "s0 = (enjambre (estado_vacio filas n m t az)
                (particulas_azar (estado_vacio filas n m t az) 0 (nat m))
                vs puntajes mejor_idx)\<lparr>historial_puntajes := []\<rparr>" by blast
  show "cursor s0 = 2 * nat n * nat m + nat (n * 2) * nat m" "azar s0 = az"
       "n_particulas s0 = m" "max_iter s0 = t"
    unfolding h by (simp_all add: enjambre_def estado_vacio_campos)
qed

text \<open>
  Claim C4, as the code has it. The optimizer takes no seed and has no generator of its own:
  every sample comes from the ambient generator. A run is determined by the data, the
  hyperparameters and the samples it is handed: two runs whose generators agree on the first
  \<open>2 N M + 2 N M + 2 M T\<close> samples (those of the initial positions, of the initial
  velocities and of the \<open>T\<close> rounds) fail alike or return the same configuration, the same
  best score and the same history.
\<close>

theorem corrida_segun_muestras:
  assumes "\<forall>j < 2 * nat n * nat m + nat (n * 2) * nat m + 2 * nat m * nat t. az j = az' j"
  shows "correr filas n m t az' = correr filas n m t az"
proof -
  have c: "coinciden az az' 0 (2 * nat n * nat m + nat (n * 2) * nat m + 2 * nat m * nat t)"
    using assms by (simp add: coinciden_def)
  have c0: "coinciden az az' 0 (2 * nat n * nat m + nat (n * 2) * nat m)"
    by (rule coinciden_sub [OF c]) simp_all
  note p = PSOOptimizer_azar [OF c0, of filas t]
  show ?thesis
  proof (cases "PSOOptimizer filas n m t az")
    case (Inl e)
    then show ?thesis by (simp add: correr_def p con_azar_simps)
  next
    case (Inr s0)
    note k = PSOOptimizer_cursor [OF Inr]
    have "coinciden (azar s0) az' (cursor s0)
            (cursor s0 + 2 * nat (n_particulas s0) * nat (max_iter s0))"
      unfolding k by (rule coinciden_sub [OF c]) simp_all
    note o = optimizar_azar [OF this]
    show ?thesis
      by (cases "optimizar s0") (auto simp: correr_def p Inr con_azar_simps o)
  qed
qed

lemma correr_sin_iterar:
  assumes "(36 / 1000)\<^sup>2 \<le> (0 - u)\<^sup>2 + (0 - u)\<^sup>2"
          "(36 / 1000)\<^sup>2 \<le> (1 - u)\<^sup>2 + (0 - u)\<^sup>2"
          "(36 / 1000)\<^sup>2 \<le> (0 - u)\<^sup>2 + (1 - u)\<^sup>2"
  shows "correr datos_ejemplo 1 1 0 (\<lambda>j. u) = Inr (([[u, u]], 19 / 60), [])"
proof -
  have e: "evaluar_particula datos_ejemplo [u, u] = Inr (19 / 60)"
    by (rule evaluar_lejos [OF assms])
  have "\<exists>s0. PSOOptimizer datos_ejemplo 1 1 0 (\<lambda>j. u) = Inr s0
            \<and> max_iter s0 = 0 \<and> mejor_global s0 = [u, u] \<and> mejor_puntaje_global s0 = 19 / 60
            \<and> historial_puntajes s0 = []"
    by (simp add: PSOOptimizer_def datos_ejemplo_no_vacio limites_ejemplo PSO_CONFIG_def
          inicializar_enjambre_def inicializar_particulas_def inicializar_velocidades_def
          np_uniform_vector_def np_uniform_def e Let_def upt_0_2)
  then obtain s0 where s0: "PSOOptimizer datos_ejemplo 1 1 0 (\<lambda>j. u) = Inr s0"
      "max_iter s0 = 0" "mejor_global s0 = [u, u]" "mejor_puntaje_global s0 = 19 / 60"
      "historial_puntajes s0 = []" by blast
  have "optimizar s0 = Inr (([[u, u]], 19 / 60), s0)"
    by (simp add: optimizar_def s0 formatear_sensores_Cons2 formatear_sensores_Nil)
  then show ?thesis by (simp add: correr_def s0)
qed

text \<open>
  The claim as stated fails: there is no seed among the arguments, and two runs on the same
  data with the same hyperparameters return different configurations when the ambient
  generator is in different states (here it hands out 0.75 in the one and 0.25 in the
  other).
\<close>

theorem corrida_sin_semilla_counterexample:
  "correr datos_ejemplo 1 1 0 az_ejemplo = Inr (([[3 / 4, 3 / 4]], 19 / 60), [])
   \<and> correr datos_ejemplo 1 1 0 az_otro = Inr (([[1 / 4, 1 / 4]], 19 / 60), [])
   \<and> correr datos_ejemplo 1 1 0 az_ejemplo \<noteq> correr datos_ejemplo 1 1 0 az_otro"
proof -
  have a: "az_ejemplo = (\<lambda>j. 3 / 4)" "az_otro = (\<lambda>j. 1 / 4)"
    by (simp_all add: az_ejemplo_def az_otro_def fun_eq_iff)
  have 1: "correr datos_ejemplo 1 1 0 az_ejemplo = Inr (([[3 / 4, 3 / 4]], 19 / 60), [])"
    unfolding a by (rule correr_sin_iterar) (simp_all add: power2_eq_square)
  have 2: "correr datos_ejemplo 1 1 0 az_otro = Inr (([[1 / 4, 1 / 4]], 19 / 60), [])"
    unfolding a by (rule correr_sin_iterar) (simp_all add: power2_eq_square)
  show ?thesis unfolding 1 2 by simp
qed

text \<open>
  The theorem on the sample swarm: the run of one particle and one round takes six samples,
  and a generator that differs from the seventh sample on gives the same run.
\<close>

theorem corrida_segun_muestras_witness:
  "az_ejemplo 0 = az_mixto 0 \<and> az_ejemplo 1 = az_mixto 1 \<and> az_ejemplo 2 = az_mixto 2
   \<and> az_ejemplo 3 = az_mixto 3 \<and> az_ejemplo 4 = az_mixto 4 \<and> az_ejemplo 5 = az_mixto 5
   \<and> az_ejemplo 6 \<noteq> az_mixto 6
   \<and> 2 * nat 1 * nat 1 + nat (1 * 2) * nat 1 + 2 * nat 1 * nat 1 = (6::nat)
   \<and> correr datos_ejemplo 1 1 1 az_mixto = correr datos_ejemplo 1 1 1 az_ejemplo
   \<and> correr datos_ejemplo 1 1 1 az_ejemplo = Inr (([[3 / 4, 3 / 4]], 19 / 60), [19 / 60])"
proof -
  have h: "\<forall>j < 2 * nat 1 * nat 1 + nat (1 * 2) * nat 1 + 2 * nat 1 * nat 1.
             az_ejemplo j = az_mixto j"
    by (simp add: az_ejemplo_def az_mixto_def)
  have d: "az_ejemplo 6 \<noteq> az_mixto 6" by (simp add: az_ejemplo_def az_mixto_def)
  have v: "correr datos_ejemplo 1 1 1 az_ejemplo = Inr (([[3 / 4, 3 / 4]], 19 / 60), [19 / 60])"
    by (simp add: correr_def construir_ejemplo optimizar_ejemplo)
       (simp add: enjambre_tras_una_def)
  have e: "correr datos_ejemplo 1 1 1 az_mixto = correr datos_ejemplo 1 1 1 az_ejemplo"
    by (rule corrida_segun_muestras [OF h])
  have q: "az_ejemplo 0 = az_mixto 0" "az_ejemplo 1 = az_mixto 1" "az_ejemplo 2 = az_mixto 2"
          "az_ejemplo 3 = az_mixto 3" "az_ejemplo 4 = az_mixto 4" "az_ejemplo 5 = az_mixto 5"
    by (simp_all add: az_ejemplo_def az_mixto_def)
  have n: "2 * nat 1 * nat 1 + nat (1 * 2) * nat 1 + 2 * nat 1 * nat 1 = (6::nat)" by simp
  from q d n e v show ?thesis by blast
qed

subsection \<open>Failures of the construction\<close>

lemma primer_ausente_None: "primer_ausente filas = None \<longleftrightarrow> (\<forall>c. value_counts Texto filas c \<noteq> None)"
  unfolding primer_ausente_Texto find_None_iff by (meson cultivo_todos)

lemma evaluar_cultivo_ausente:
  assumes "filas \<noteq> []" "primer_ausente filas = Some c" "length p = 2 * k" "1 \<le> k"
  shows "evaluar_particula filas p = Inl (KeyError c)"
proof -
  have "even (length p)" using assms(3) by simp
  from a_pares_formatear [OF this] obtain ss where
    ss: "a_pares (formatear_sensores p) = Some ss" "length ss = length p div 2" by blast
  then have n: "ss \<noteq> []" using assms(3,4) by auto
  have "funcion_objetivo Texto ss filas = Inl (KeyError c)"
    by (rule funcion_objetivo_balance_error [OF assms(1) n balance_ausente_Texto [OF assms(2)]])
  then show ?thesis by (simp add: evaluar_particula_def ss(1))
qed

lemma evaluar_sin_sensores:
  "filas \<noteq> [] \<Longrightarrow> evaluar_particula filas [] = Inl ValueError"
  by (simp add: evaluar_particula_def formatear_sensores_Nil funcion_objetivo_sin_sensores)

lemma evaluar_sin_filas: "evaluar_particula [] [] = Inl ZeroDivisionError"
  by (simp add: evaluar_particula_def formatear_sensores_Nil funcion_objetivo_sin_datos)

lemma PSOOptimizer_sin_particulas:
  assumes "m < 1"
  shows "PSOOptimizer filas n m t az = Inl ValueError"
proof -
  from assms have "nat m = 0" "\<not> 1 \<le> m" by simp_all
  then show ?thesis
    by (simp add: PSOOptimizer_forma inicializar_enjambre_forma estado_vacio_campos)
qed

lemma PSOOptimizer_sensores_negativos:
  assumes "1 \<le> m" "n < 0"
  shows "PSOOptimizer filas n m t az = Inl ValueError"
proof -
  let ?e = "estado_vacio filas n m t az"
  from assms(1) obtain k where k: "nat m = Suc k" by (cases "nat m") auto
  have "velocidades_azar ?e c (Suc k) = Inl ValueError" for c
    by (rule velocidades_azar_negativo) (simp add: estado_vacio_campos assms(2))
  moreover have "\<not> 1 \<le> n" using assms(2) by simp
  ultimately show ?thesis
    by (simp add: PSOOptimizer_forma inicializar_enjambre_forma estado_vacio_campos k)
qed

lemma PSOOptimizer_sin_sensores:
  assumes "1 \<le> m" "n = 0"
  shows "PSOOptimizer filas n m t az = Inl (if filas = [] then ZeroDivisionError else ValueError)"
proof -
  let ?e = "estado_vacio filas n m t az"
  from assms(1) obtain k where k: "nat m = Suc k" by (cases "nat m") auto
  have "0 \<le> n_sensores ?e" by (simp add: estado_vacio_campos assms(2))
  from velocidades_azar_total [OF this] obtain vs where
    vs: "velocidades_azar ?e (2 * nat n * nat m) (nat m) = Inr vs" by blast
  have ps: "particulas_azar ?e 0 (nat m) = [] # particulas_azar ?e (0 + 2 * nat n) k"
    unfolding k by (simp add: estado_vacio_campos assms(2))
  have ev: "evaluar_particula filas [] = Inl (if filas = [] then ZeroDivisionError else ValueError)"
    using evaluar_sin_sensores [of filas] evaluar_sin_filas by (cases "filas = []") simp_all
  have "\<not> 1 \<le> n" using assms(2) by simp
  then show ?thesis
    using vs ev
    by (simp add: PSOOptimizer_forma inicializar_enjambre_forma estado_vacio_campos ps
          del: particulas_azar.simps)
qed

lemma PSOOptimizer_sin_filas:
  assumes "1 \<le> m" "1 \<le> n"
  shows "PSOOptimizer [] n m t az = Inl OverflowError"
  using assms by (simp add: PSOOptimizer_forma inicializar_enjambre_forma estado_vacio_campos)

lemma PSOOptimizer_primer_ausente:
  assumes "filas \<noteq> []" "1 \<le> m" "1 \<le> n" "primer_ausente filas = Some c"
  shows "PSOOptimizer filas n m t az = Inl (KeyError c)"
proof -
  let ?e = "estado_vacio filas n m t az"
  from assms(2) obtain k where k: "nat m = Suc k" by (cases "nat m") auto
  have "0 \<le> n_sensores ?e" using assms(3) by (simp add: estado_vacio_campos)
  from velocidades_azar_total [OF this] obtain vs where
    vs: "velocidades_azar ?e (2 * nat n * nat m) (nat m) = Inr vs" by blast
  let ?p = "particula_azar ?e 0 (nat n)"
  have ps: "particulas_azar ?e 0 (nat m) = ?p # particulas_azar ?e (0 + 2 * nat n) k"
    unfolding k by (simp add: estado_vacio_campos)
  have "1 \<le> nat n" using assms(3) by simp
  from evaluar_cultivo_ausente [OF assms(1) assms(4) length_particula_azar this]
  have ev: "evaluar_particula filas ?p = Inl (KeyError c)" .
  show ?thesis
    using assms(1) vs ev
    by (simp add: PSOOptimizer_forma inicializar_enjambre_forma estado_vacio_campos ps)
qed

text \<open>
  Claim C3, as the code has it. The constructor validates nothing. With no particle, with no
  sensor or on a data frame without rows the construction does stop, with the exception of
  the first operation that cannot go on: ValueError of \<open>np.argmax\<close> on the empty list of
  scores when there is no particle; otherwise ValueError of the negative size of the first
  velocity vector when the number of sensors is negative; ValueError of \<open>min\<close> on the empty
  list of distances when it is 0 and there is a row, and ZeroDivisionError of the coverage
  mean when it is 0 and there is no row; OverflowError of the first sample between NaN
  bounds when there is a sensor and no row.
  The iteration budget and the span of the domain are not looked at: on a data frame with a
  sample point of every crop, with at least one sensor and one particle, the construction
  succeeds whatever the budget and the span, and the optimizer holds that budget and the
  extrema of the coordinates as its bounds.
\<close>

theorem construccion_sin_validacion:
  "(m < 1 \<longrightarrow> PSOOptimizer filas n m t az = Inl ValueError)
   \<and> (1 \<le> m \<and> n < 0 \<longrightarrow> PSOOptimizer filas n m t az = Inl ValueError)
   \<and> (1 \<le> m \<and> n = 0 \<and> filas \<noteq> [] \<longrightarrow> PSOOptimizer filas n m t az = Inl ValueError)
   \<and> (1 \<le> m \<and> n = 0 \<and> filas = [] \<longrightarrow> PSOOptimizer filas n m t az = Inl ZeroDivisionError)
   \<and> (1 \<le> m \<and> 1 \<le> n \<and> filas = [] \<longrightarrow> PSOOptimizer filas n m t az = Inl OverflowError)
   \<and> (1 \<le> m \<and> 1 \<le> n \<and> todos_presentes filas \<longrightarrow>
        (\<exists>s0. PSOOptimizer filas n m t az = Inr s0 \<and> max_iter s0 = t
            \<and> lat_min s0 = serie_min (map Latitud filas)
            \<and> lat_max s0 = serie_max (map Latitud filas)
            \<and> lon_min s0 = serie_min (map Longitud filas)
            \<and> lon_max s0 = serie_max (map Longitud filas)))"
proof -
  have a: "m < 1 \<Longrightarrow> PSOOptimizer filas n m t az = Inl ValueError"
    by (rule PSOOptimizer_sin_particulas)
  have b: "1 \<le> m \<and> n < 0 \<Longrightarrow> PSOOptimizer filas n m t az = Inl ValueError"
    using PSOOptimizer_sensores_negativos by blast
  have c: "1 \<le> m \<and> n = 0 \<and> filas \<noteq> [] \<Longrightarrow> PSOOptimizer filas n m t az = Inl ValueError"
    using PSOOptimizer_sin_sensores [of m n filas t az] by simp
  have d: "1 \<le> m \<and> n = 0 \<and> filas = [] \<Longrightarrow> PSOOptimizer filas n m t az = Inl ZeroDivisionError"
    using PSOOptimizer_sin_sensores [of m n filas t az] by simp
  have e: "1 \<le> m \<and> 1 \<le> n \<and> filas = [] \<Longrightarrow> PSOOptimizer filas n m t az = Inl OverflowError"
    using PSOOptimizer_sin_filas [of m n t az] by simp
  have f: "\<exists>s0. PSOOptimizer filas n m t az = Inr s0 \<and> max_iter s0 = t
            \<and> lat_min s0 = serie_min (map Latitud filas)
            \<and> lat_max s0 = serie_max (map Latitud filas)
            \<and> lon_min s0 = serie_min (map Longitud filas)
            \<and> lon_max s0 = serie_max (map Longitud filas)"
    if h: "1 \<le> m \<and> 1 \<le> n \<and> todos_presentes filas"
  proof -
    from h have p: "todos_presentes filas" and m: "1 \<le> m" and n: "1 \<le> n" by blast+
    from PSOOptimizer_total [OF todos_presentes_no_vacio [OF p]
        p [unfolded todos_presentes_Texto] n m, of t az]
    obtain s0 where s0: "PSOOptimizer filas n m t az = Inr s0" by blast
    from s0 PSOOptimizer_estado(4,7,8,9,10) [OF s0] show ?thesis by blast
  qed
  from a b c d e f show ?thesis by blast
qed

text \<open>
  The theorem at seven inputs: one for each way of stopping, and two on which the
  construction succeeds, with the iteration budget \<open>-1\<close> and with a domain of zero span.
\<close>

theorem construccion_sin_validacion_witness:
  "PSOOptimizer datos_ejemplo 5 0 100 az_ejemplo = Inl ValueError
   \<and> PSOOptimizer datos_ejemplo (- 1) 30 100 az_ejemplo = Inl ValueError
   \<and> PSOOptimizer datos_ejemplo 0 30 100 az_ejemplo = Inl ValueError
   \<and> PSOOptimizer [] 0 30 100 az_ejemplo = Inl ZeroDivisionError
   \<and> PSOOptimizer [] 5 30 100 az_ejemplo = Inl OverflowError
   \<and> (\<exists>s0. PSOOptimizer datos_ejemplo 5 30 (- 1) az_ejemplo = Inr s0 \<and> max_iter s0 = - 1)
   \<and> (\<exists>s0. PSOOptimizer datos_un_lugar 5 30 100 az_ejemplo = Inr s0
          \<and> lat_min s0 = lat_max s0 \<and> lon_min s0 = lon_max s0)"
proof -
  have u: "todos_presentes datos_un_lugar"
    by (simp add: todos_presentes_def presente_def datos_un_lugar_def)
  have l: "serie_min (map Latitud datos_un_lugar) = serie_max (map Latitud datos_un_lugar)"
          "serie_min (map Longitud datos_un_lugar) = serie_max (map Longitud datos_un_lugar)"
    by (simp_all add: serie_min_def serie_max_def datos_un_lugar_def)
  have 1: "PSOOptimizer datos_ejemplo 5 0 100 az_ejemplo = Inl ValueError"
    using construccion_sin_validacion [of 0 datos_ejemplo 5 100 az_ejemplo] by simp
  have 2: "PSOOptimizer datos_ejemplo (- 1) 30 100 az_ejemplo = Inl ValueError"
    using construccion_sin_validacion [of 30 datos_ejemplo "- 1" 100 az_ejemplo] by simp
  have 3: "PSOOptimizer datos_ejemplo 0 30 100 az_ejemplo = Inl ValueError"
    using construccion_sin_validacion [of 30 datos_ejemplo 0 100 az_ejemplo]
      datos_ejemplo_no_vacio by simp
  have 4: "PSOOptimizer [] 0 30 100 az_ejemplo = Inl ZeroDivisionError"
    using construccion_sin_validacion [of 30 "[]" 0 100 az_ejemplo] by simp
  have 5: "PSOOptimizer [] 5 30 100 az_ejemplo = Inl OverflowError"
    using construccion_sin_validacion [of 30 "[]" 5 100 az_ejemplo] by simp
  have 6: "\<exists>s0. PSOOptimizer datos_ejemplo 5 30 (- 1) az_ejemplo = Inr s0 \<and> max_iter s0 = - 1"
    using construccion_sin_validacion [of 30 datos_ejemplo 5 "- 1" az_ejemplo]
      datos_ejemplo_presentes by auto
  have 7: "\<exists>s0. PSOOptimizer datos_un_lugar 5 30 100 az_ejemplo = Inr s0
             \<and> lat_min s0 = lat_max s0 \<and> lon_min s0 = lon_max s0"
    using construccion_sin_validacion [of 30 datos_un_lugar 5 100 az_ejemplo] u l by auto
  from 1 2 3 4 5 6 7 show ?thesis by blast
qed

text \<open>
  The claim as stated fails: the constructor succeeds on a data frame whose points all have
  the same latitude and longitude, and on the iteration budget \<open>-1\<close>.
\<close>

theorem construccion_degenerada_counterexample:
  "serie_min (map Latitud datos_un_lugar) = serie_max (map Latitud datos_un_lugar)
   \<and> serie_min (map Longitud datos_un_lugar) = serie_max (map Longitud datos_un_lugar)
   \<and> \<not> isl (PSOOptimizer datos_un_lugar 5 30 100 az_ejemplo)
   \<and> \<not> isl (PSOOptimizer datos_ejemplo 5 30 (- 1) az_ejemplo)"
proof -
  have a: "datos_un_lugar \<noteq> []" by (simp add: datos_un_lugar_def)
  from PSOOptimizer_total [OF a cultivos_un_lugar, of 5 30 100 az_ejemplo]
  have 1: "\<not> isl (PSOOptimizer datos_un_lugar 5 30 100 az_ejemplo)" by auto
  from PSOOptimizer_total [OF datos_ejemplo_no_vacio cultivos_ejemplo, of 5 30 "- 1" az_ejemplo]
  have 2: "\<not> isl (PSOOptimizer datos_ejemplo 5 30 (- 1) az_ejemplo)" by auto
  have 3: "serie_min (map Latitud datos_un_lugar) = serie_max (map Latitud datos_un_lugar)"
          "serie_min (map Longitud datos_un_lugar) = serie_max (map Longitud datos_un_lugar)"
    by (simp_all add: serie_min_def serie_max_def datos_un_lugar_def)
  from 1 2 3 show ?thesis by blast
qed

subsection \<open>The personal best is the particle itself\<close>

lemma argmax_bucle_max:
  "mejor_i < length pre \<Longrightarrow> pre ! mejor_i = mejor \<Longrightarrow> \<forall>y \<in> set pre. y \<le> mejor \<Longrightarrow>
     argmax_bucle xs (length pre) mejor_i mejor < length (pre @ xs)
   \<and> (\<forall>y \<in> set (pre @ xs). y \<le> (pre @ xs) ! argmax_bucle xs (length pre) mejor_i mejor)"
proof (induction xs arbitrary: pre mejor_i mejor)
  case Nil
  then show ?case by simp
next
  case (Cons x xs)
  show ?case
  proof (cases "x > mejor")
    case True
    have "argmax_bucle xs (length (pre @ [x])) (length pre) x < length ((pre @ [x]) @ xs)
        \<and> (\<forall>y \<in> set ((pre @ [x]) @ xs).
              y \<le> ((pre @ [x]) @ xs) ! argmax_bucle xs (length (pre @ [x])) (length pre) x)"
    proof (rule Cons.IH)
      show "length pre < length (pre @ [x])" by simp
      show "(pre @ [x]) ! length pre = x" by simp
      show "\<forall>y \<in> set (pre @ [x]). y \<le> x" using Cons.prems(3) True by auto
    qed
    then show ?thesis using True by simp
  next
    case False
    have "argmax_bucle xs (length (pre @ [x])) mejor_i mejor < length ((pre @ [x]) @ xs)
        \<and> (\<forall>y \<in> set ((pre @ [x]) @ xs).
              y \<le> ((pre @ [x]) @ xs) ! argmax_bucle xs (length (pre @ [x])) mejor_i mejor)"
    proof (rule Cons.IH)
      show "mejor_i < length (pre @ [x])" using Cons.prems(1) by simp
      show "(pre @ [x]) ! mejor_i = mejor" using Cons.prems(1,2) by (simp add: nth_append)
      show "\<forall>y \<in> set (pre @ [x]). y \<le> mejor" using Cons.prems(3) False by auto
    qed
    then show ?thesis using False by simp
  qed
qed

lemma np_argmax_max:
  assumes "np_argmax xs = Inr i"
  shows "i < length xs \<and> (\<forall>y \<in> set xs. y \<le> xs ! i)"
proof (cases xs)
  case Nil
  then show ?thesis using assms by simp
next
  case (Cons x ys)
  have "argmax_bucle ys (length [x]) 0 x < length ([x] @ ys)
      \<and> (\<forall>y \<in> set ([x] @ ys). y \<le> ([x] @ ys) ! argmax_bucle ys (length [x]) 0 x)"
    by (rule argmax_bucle_max) simp_all
  then show ?thesis using assms Cons by simp
qed

lemma evaluar_todas_nth:
  "evaluar_todas filas ps = Inr vs \<Longrightarrow> j < length ps \<Longrightarrow>
     evaluar_particula filas (ps ! j) = Inr (vs ! j)"
proof (induction ps arbitrary: vs j)
  case Nil
  then show ?case by simp
next
  case (Cons p ps)
  from Cons.prems(1) obtain v vs' where
    v: "evaluar_particula filas p = Inr v" "evaluar_todas filas ps = Inr vs'" "vs = v # vs'"
    by (auto split: sum.splits)
  show ?case
  proof (cases j)
    case 0
    then show ?thesis by (simp add: v)
  next
    case (Suc j')
    then have "j' < length ps" using Cons.prems(2) by simp
    from Cons.IH [OF v(2) this] show ?thesis by (simp add: Suc v(3))
  qed
qed

lemma PSOOptimizer_recien_evaluado:
  assumes "PSOOptimizer filas n m t az = Inr s0"
  shows "recien_evaluado s0"
proof -
  let ?e = "estado_vacio filas n m t az"
  let ?ps = "particulas_azar ?e 0 (nat m)"
  from PSOOptimizer_Inr [OF assms] obtain vs puntajes mejor_idx where
    h: "evaluar_todas filas ?ps = Inr puntajes" "np_argmax puntajes = Inr mejor_idx"
       "s0 = (enjambre ?e ?ps vs puntajes mejor_idx)\<lparr>historial_puntajes := []\<rparr>" by blast
  have lp: "length ?ps = nat m" by (rule particulas_azar_props(1))
  have lu: "length puntajes = nat m" using evaluar_todas_Inr [OF h(1)] lp by simp
  note mx = np_argmax_max [OF h(2)]
  have "evaluar_particula (datos s0) (memoria s0 ! (particulas s0 ! i))
          = Inr (mejores_puntajes_locales s0 ! i)
      \<and> mejores_puntajes_locales s0 ! i \<le> mejor_puntaje_global s0"
    if i: "i < nat m" for i
  proof -
    have "evaluar_particula filas (?ps ! i) = Inr (puntajes ! i)"
      by (rule evaluar_todas_nth [OF h(1)]) (simp add: lp i)
    moreover have "puntajes ! i \<le> puntajes ! mejor_idx" using mx lu i by simp
    ultimately show ?thesis
      unfolding h(3) using i lp by (simp add: enjambre_def estado_vacio_campos)
  qed
  moreover have "n_particulas s0 = m" unfolding h(3) by (simp add: enjambre_def estado_vacio_campos)
  ultimately show ?thesis by (simp add: recien_evaluado_def)
qed

lemma actualizar_mejor_recien:
  assumes "recien_evaluado s" "i < nat (n_particulas s)"
  shows "actualizar_mejor i s = Inr s"
proof -
  from assms have
    e: "evaluar_particula (datos s) (memoria s ! (particulas s ! i))
          = Inr (mejores_puntajes_locales s ! i)"
       "mejores_puntajes_locales s ! i \<le> mejor_puntaje_global s"
    by (simp_all add: recien_evaluado_def)
  have "tras_mejor i (mejores_puntajes_locales s ! i) s = s"
    using e(2) by (simp add: tras_mejor_def Let_def)
  then show ?thesis by (simp add: actualizar_mejor_forma e(1))
qed

lemma bucle_actualizar_recien:
  assumes "recien_evaluado s" "\<forall>j \<in> set js. j < nat (n_particulas s)"
  shows "bucle actualizar_mejor js s = Inr s"
  using assms(2) by (induction js) (simp_all add: actualizar_mejor_recien [OF assms(1)])

text \<open>
  On every constructed optimizer the first round replaces no best by comparison, and after
  it the personal best of every particle is still the particle's own array, that is, its
  moved position, next to the unchanged personal best scores.
\<close>

lemma primera_iteracion_alias:
  assumes "PSOOptimizer filas n m t az = Inr s0" "iteracion s0 = Inr s1"
  shows "actualizar_mejores_posiciones s0 = Inr s0"
    and "mejores_locales s1 = particulas s1"
    and "mejores_puntajes_locales s1 = mejores_puntajes_locales s0"
proof -
  note e = PSOOptimizer_estado [OF assms(1)]
  show a: "actualizar_mejores_posiciones s0 = Inr s0"
    unfolding actualizar_mejores_posiciones_def
    by (rule bucle_actualizar_recien [OF PSOOptimizer_recien_evaluado [OF assms(1)]]) simp
  from assms(2) obtain s2 where
    s2: "actualizar_velocidades_posiciones s0 = Inr s2"
        "s1 = s2\<lparr>historial_puntajes := historial_puntajes s2 @ [mejor_puntaje_global s2]\<rparr>"
    by (auto simp: iteracion_def a split: sum.splits)
  from actualizar_velocidades_posiciones_ok [OF e(1)] s2(1) have q: "quieto s0 s2" by auto
  then have "marco s0 s2" by (simp add: quieto_def paso_ok_def avanza_def)
  then have "particulas s2 = particulas s0" by (simp add: marco_def)
  then show "mejores_locales s1 = particulas s1"
    unfolding s2(2) using q e(11) by (simp add: quieto_def)
  show "mejores_puntajes_locales s1 = mejores_puntajes_locales s0"
    unfolding s2(2) using q by (simp add: quieto_def)
qed

end
